(* ===== verification/Prelude.thy ===== *)
theory Prelude
  imports Main "HOL-Library.Word" "HOL-Library.Char_ord"
begin

text \<open>
  Shared vocabulary of the development.

  \<^item> Python exceptions are values: \<open>Exn cls msg\<close> is an exception object of class \<open>cls\<close>
    whose \<open>str(exc)\<close> is \<open>msg\<close>; \<open>subclass_of\<close> is the part of Python's class hierarchy the
    \<open>except\<close> clauses of the program ask about. A fallible pure function returns
    \<open>'a result\<close>, that is \<open>exn + 'a\<close>; a fallible method that mutates its object returns the
    object and a result, so that what was assigned before the exception stays visible.
  \<^item> Byte strings are lists of \<open>8 word\<close>; Python's unbounded integers are \<open>int\<close>, and the
    places where the program masks them (\<open>& 0xFFFFFFFF\<close>) are written with \<open>mod\<close>.
  \<^item> \<open>event_machine\<close> is the interface of everything that consumes a sequence of events; its
    lemmas lift a one-step fact to a whole run. \<open>enabled_machine\<close> and \<open>guarded_machine\<close> are the
    same for an invariant that needs something of the events.
\<close>

section \<open>Collections of facts\<close>

named_theorems res_simps \<open>rewriting of results and exceptions\<close>
named_theorems seq_simps \<open>sequence-number arithmetic modulo a power of two\<close>

section \<open>Exceptions and results\<close>

datatype exn_class =
    Exception | TypeError | ValueError | KeyError | AttributeError
  | OverflowError | ZeroDivisionError | StructError | RuntimeError
  | UnicodeDecodeError | UnicodeEncodeError | JSONDecodeError
  | JsonLineError | PacketError | DeviceClientError | ProbeError
  | OSError | TimeoutError | IncompleteReadError

datatype exn = Exn (exn_cls: exn_class) (exn_str: string)

type_synonym 'a result = "exn + 'a"
type_synonym bytes = "8 word list"

text \<open>The direct base class, as the interpreter and the program's own classes declare it.\<close>

fun base_class :: "exn_class \<Rightarrow> exn_class" where
  "base_class UnicodeDecodeError = ValueError"
| "base_class UnicodeEncodeError = ValueError"
| "base_class JSONDecodeError = ValueError"
| "base_class JsonLineError = ValueError"
| "base_class PacketError = ValueError"
| "base_class DeviceClientError = RuntimeError"
| "base_class ProbeError = RuntimeError"
| "base_class TimeoutError = OSError"
| "base_class _ = Exception"

definition subclass_of :: "exn_class \<Rightarrow> exn_class \<Rightarrow> bool" where
  "subclass_of c d \<longleftrightarrow> c = d \<or> base_class c = d \<or> base_class (base_class c) = d"

definition rbind :: "'a result \<Rightarrow> ('a \<Rightarrow> 'b result) \<Rightarrow> 'b result" where
  "rbind r f = (case r of Inl e \<Rightarrow> Inl e | Inr x \<Rightarrow> f x)"

definition check :: "bool \<Rightarrow> exn \<Rightarrow> unit result" where
  "check ok e = (if ok then Inr () else Inl e)"

lemma rbind_simps [simp, res_simps]:
  "rbind (Inl e) f = Inl e" "rbind (Inr x) f = f x"
  by (simp_all add: rbind_def)

lemma rbind_eq_Inr [res_simps]: "rbind r f = Inr y \<longleftrightarrow> (\<exists>x. r = Inr x \<and> f x = Inr y)"
  by (cases r) auto

lemma rbind_eq_Inl [res_simps]:
  "rbind r f = Inl e \<longleftrightarrow> r = Inl e \<or> (\<exists>x. r = Inr x \<and> f x = Inl e)"
  by (cases r) auto

lemma check_eq [simp, res_simps]:
  "check ok e = Inr u \<longleftrightarrow> ok" "check ok e = Inl e' \<longleftrightarrow> \<not> ok \<and> e' = e"
  by (auto simp: check_def)

lemma check_True [simp]: "check True e = Inr ()"
  by (simp add: check_def)

text \<open>A list comprehension whose element expression may raise: the first exception wins.\<close>

fun rmap :: "('a \<Rightarrow> 'b result) \<Rightarrow> 'a list \<Rightarrow> 'b list result" where
  "rmap f [] = Inr []"
| "rmap f (x # xs) = rbind (f x) (\<lambda>y. rbind (rmap f xs) (\<lambda>ys. Inr (y # ys)))"

lemma rmap_Inr_map: "(\<And>x. x \<in> set xs \<Longrightarrow> f x = Inr (g x)) \<Longrightarrow> rmap f xs = Inr (map g xs)"
  by (induction xs) auto

lemma rmap_total:
  "(\<And>x. x \<in> set xs \<Longrightarrow> \<exists>y. f x = Inr y \<and> P y) \<Longrightarrow> \<exists>ys. rmap f xs = Inr ys \<and> length ys = length xs \<and> list_all P ys"
  by (induction xs) (simp, fastforce)

lemma rmap_eq_Inr_length: "rmap f xs = Inr ys \<Longrightarrow> length ys = length xs"
  by (induction xs arbitrary: ys) (auto simp: rbind_eq_Inr)

text \<open>
  An attribute assignment inside a method: evaluating the right-hand side may raise, in which
  case the object is left as the assignments before made it.
\<close>

definition assign :: "'v result \<Rightarrow> ('v \<Rightarrow> 's \<Rightarrow> 's) \<Rightarrow> ('s \<Rightarrow> 's \<times> 'r result) \<Rightarrow> 's \<Rightarrow> 's \<times> 'r result" where
  "assign r upd k s = (case r of Inl e \<Rightarrow> (s, Inl e) | Inr v \<Rightarrow> k (upd v s))"

lemma assign_simps [simp, res_simps]:
  "assign (Inl e) upd k s = (s, Inl e)" "assign (Inr v) upd k s = k (upd v s)"
  by (simp_all add: assign_def)

text \<open>A method call inside a method: its exception ends the caller, its effect on the object stays.\<close>

definition sthen :: "'s \<times> 'a result \<Rightarrow> ('a \<Rightarrow> 's \<Rightarrow> 's \<times> 'b result) \<Rightarrow> 's \<times> 'b result" where
  "sthen p k = (case p of (s, Inl e) \<Rightarrow> (s, Inl e) | (s, Inr x) \<Rightarrow> k x s)"

lemma sthen_simps [simp, res_simps]: "sthen (s, Inl e) k = (s, Inl e)" "sthen (s, Inr x) k = k x s"
  by (simp_all add: sthen_def)

section \<open>Runs of an event machine\<close>

text \<open>
  A machine whose invariant survives the events enabled in the state they meet, and the special
  cases of one that survives the events of a legal environment, whatever the state, and of one that
  survives every event.
\<close>

fun enabled_run :: "('s \<Rightarrow> 'e \<Rightarrow> 's) \<Rightarrow> ('s \<Rightarrow> 'e \<Rightarrow> bool) \<Rightarrow> 's \<Rightarrow> 'e list \<Rightarrow> bool" where
  "enabled_run step enabled s [] \<longleftrightarrow> True"
| "enabled_run step enabled s (e # es) \<longleftrightarrow> enabled s e \<and> enabled_run step enabled (step s e) es"

lemma enabled_run_legal: "enabled_run step (\<lambda>s. legal) s es \<longleftrightarrow> list_all legal es"
  by (induction es arbitrary: s) auto

locale enabled_machine =
  fixes step :: "'s \<Rightarrow> 'e \<Rightarrow> 's"
    and inv :: "'s \<Rightarrow> bool"
    and enabled :: "'s \<Rightarrow> 'e \<Rightarrow> bool"
  assumes enabled_step_inv: "inv s \<Longrightarrow> enabled s e \<Longrightarrow> inv (step s e)"
begin

lemma enabled_run_inv: "inv s \<Longrightarrow> enabled_run step enabled s es \<Longrightarrow> inv (foldl step s es)"
  by (induction es arbitrary: s) (auto intro: enabled_step_inv)

end

locale guarded_machine =
  fixes step :: "'s \<Rightarrow> 'e \<Rightarrow> 's"
    and inv :: "'s \<Rightarrow> bool"
    and legal :: "'e \<Rightarrow> bool"
  assumes legal_step_inv: "inv s \<Longrightarrow> legal e \<Longrightarrow> inv (step s e)"

sublocale guarded_machine \<subseteq> stateless: enabled_machine step inv "\<lambda>s. legal"
  by unfold_locales (rule legal_step_inv)

context guarded_machine
begin

lemma legal_run_inv: "inv s \<Longrightarrow> list_all legal es \<Longrightarrow> inv (foldl step s es)"
  by (rule stateless.enabled_run_inv) (simp_all add: enabled_run_legal)

end

locale event_machine =
  fixes step :: "'s \<Rightarrow> 'e \<Rightarrow> 's"
    and inv :: "'s \<Rightarrow> bool"
  assumes step_inv: "inv s \<Longrightarrow> inv (step s e)"

sublocale event_machine \<subseteq> unguarded: guarded_machine step inv "\<lambda>e. True"
  by unfold_locales (rule step_inv)

context event_machine
begin

lemma run_inv: "inv s \<Longrightarrow> inv (foldl step s es)"
  by (rule unguarded.legal_run_inv) (simp_all add: list_all_iff)

lemma run_inv_prefix: "inv s \<Longrightarrow> inv (foldl step s (take n es))"
  by (rule run_inv)

end

section \<open>Lists of increasing numbers\<close>

lemma increasing_bounds:
  "sorted_wrt (<) (n # ns) \<Longrightarrow> x \<in> set (n # ns) \<Longrightarrow> n \<le> x \<and> x \<le> last (n # ns)" for n :: nat
proof (induction ns arbitrary: n x)
  case (Cons m ns)
  have m: "n < m" "m \<le> last (m # ns)" using Cons.prems(1) Cons.IH[of m m] by auto
  show ?case
  proof (cases "x = n")
    case False
    then have "m \<le> x \<and> x \<le> last (m # ns)" using Cons.prems Cons.IH[of m x] by auto
    with m show ?thesis by auto
  qed (use m in auto)
qed simp

lemma increasing_card:
  fixes n :: nat
  assumes "sorted_wrt (<) (n # ns)"
  shows "int (card {k \<in> {n..last (n # ns)}. k \<notin> set (n # ns)}) = int (last (n # ns) - n) - int (length ns)"
proof -
  have sub: "set (n # ns) \<subseteq> {n..last (n # ns)}" using increasing_bounds[OF assms] by auto
  have c: "card (set (n # ns)) = Suc (length ns)"
    using assms by (metis distinct_card length_Cons strict_sorted_iff)
  have "{k \<in> {n..last (n # ns)}. k \<notin> set (n # ns)} = {n..last (n # ns)} - set (n # ns)" by blast
  then have "card {k \<in> {n..last (n # ns)}. k \<notin> set (n # ns)} = Suc (last (n # ns)) - n - Suc (length ns)"
    using card_Diff_subset[OF finite_set sub] by (simp only: c card_atLeastAtMost)
  moreover have "Suc (length ns) \<le> Suc (last (n # ns)) - n"
    using card_mono[OF finite_atLeastAtMost sub] by (simp only: c card_atLeastAtMost)
  ultimately show ?thesis by linarith
qed

section \<open>Association lists in insertion order\<close>

text \<open>
  A Python dict keeps insertion order; assigning to an existing key keeps its place. It is an
  association list without duplicate keys.
\<close>

fun dset :: "('k \<times> 'v) list \<Rightarrow> 'k \<Rightarrow> 'v \<Rightarrow> ('k \<times> 'v) list" where
  "dset [] k v = [(k, v)]"
| "dset ((k', v') # d) k v = (if k' = k then (k, v) # d else (k', v') # dset d k v)"

fun ddel :: "('k \<times> 'v) list \<Rightarrow> 'k \<Rightarrow> ('k \<times> 'v) list" where
  "ddel [] k = []"
| "ddel ((k', v') # d) k = (if k' = k then d else (k', v') # ddel d k)"

definition dget :: "('k \<times> 'v) list \<Rightarrow> 'k \<Rightarrow> 'v \<Rightarrow> 'v" where
  "dget d k dflt = (case map_of d k of None \<Rightarrow> dflt | Some v \<Rightarrow> v)"

definition dupdate :: "('k \<times> 'v) list \<Rightarrow> ('k \<times> 'v) list \<Rightarrow> ('k \<times> 'v) list" where
  "dupdate d e = foldl (\<lambda>a (k, v). dset a k v) d e"

definition dict_ok :: "('k \<times> 'v) list \<Rightarrow> bool" where
  "dict_ok d \<longleftrightarrow> distinct (map fst d)"

lemma map_of_dset [simp]: "map_of (dset d k v) = (map_of d)(k \<mapsto> v)"
  by (induction d k v rule: dset.induct) (auto simp: fun_eq_iff)

lemma keys_dset: "set (map fst (dset d k v)) = insert k (set (map fst d))"
  by (induction d k v rule: dset.induct) auto

lemma dict_ok_dset [simp]: "dict_ok d \<Longrightarrow> dict_ok (dset d k v)"
proof (induction d k v rule: dset.induct)
  case (2 k' v' d k v)
  then show ?case
    using keys_dset[of d k v] by (auto simp: dict_ok_def)
qed (simp add: dict_ok_def)

lemma map_of_ddel [simp]: "dict_ok d \<Longrightarrow> map_of (ddel d k) = (map_of d)(k := None)"
  by (induction d k rule: ddel.induct)
     (auto simp: dict_ok_def fun_eq_iff map_of_eq_None_iff[symmetric])

lemma in_set_dset: "kv \<in> set (dset d k v) \<Longrightarrow> kv = (k, v) \<or> kv \<in> set d"
  by (induction d k v rule: dset.induct) (auto split: if_splits)

lemma list_all_dset: "list_all P d \<Longrightarrow> P (k, v) \<Longrightarrow> list_all P (dset d k v)"
  by (auto simp: list_all_iff dest!: in_set_dset)

lemma list_all_dupdate: "list_all P d \<Longrightarrow> list_all P e \<Longrightarrow> list_all P (dupdate d e)"
  unfolding dupdate_def by (induction e arbitrary: d) (auto simp: list_all_dset)

lemma keys_ddel: "set (map fst (ddel d k)) \<subseteq> set (map fst d)"
  by (induction d k rule: ddel.induct) auto

lemma dict_ok_ddel [simp]: "dict_ok d \<Longrightarrow> dict_ok (ddel d k)"
proof (induction d k rule: ddel.induct)
  case (2 k' v' d k)
  then show ?case
    using keys_ddel[of d k] by (auto simp: dict_ok_def)
qed simp

lemma map_of_dupdate: "map_of (dupdate d e) = map_of d ++ map_of (rev e)"
proof (induction e arbitrary: d)
  case (Cons kv e)
  obtain k v where "kv = (k, v)" by fastforce
  with Cons[of "dset d k v"] show ?case
    by (auto simp: dupdate_def map_add_def fun_eq_iff split: option.splits)
qed (simp add: dupdate_def)

lemma dict_ok_dupdate [simp]: "dict_ok d \<Longrightarrow> dict_ok (dupdate d e)"
proof (induction e arbitrary: d)
  case (Cons kv e)
  then show ?case by (cases kv) (simp add: dupdate_def)
qed (simp add: dupdate_def)

lemma map_of_rev_distinct: "dict_ok e \<Longrightarrow> map_of (rev e) = map_of e"
  by (rule ext) (metis dict_ok_def distinct_rev map_of_eqI rev_map set_rev map_of_inject_set)

lemma map_of_dupdate_ok: "dict_ok e \<Longrightarrow> map_of (dupdate d e) = map_of d ++ map_of e"
  by (simp add: map_of_dupdate map_of_rev_distinct)

section \<open>Python slices\<close>

definition slice_index :: "int \<Rightarrow> nat \<Rightarrow> nat" where
  "slice_index i n = nat (if i < 0 then max 0 (int n + i) else min i (int n))"

text \<open>A negative bound counts from the end. \<open>xs[:i]\<close>, and what \<open>del xs[:i]\<close> leaves.\<close>

definition slice_to :: "int \<Rightarrow> 'a list \<Rightarrow> 'a list" where
  "slice_to i xs = take (slice_index i (length xs)) xs"

definition slice_from :: "int \<Rightarrow> 'a list \<Rightarrow> 'a list" where
  "slice_from i xs = drop (slice_index i (length xs)) xs"

lemma slice_to_pos: "0 \<le> n \<Longrightarrow> slice_to n xs = take (nat n) xs"
  by (simp add: slice_to_def slice_index_def min_def)

lemma slice_from_pos: "0 \<le> n \<Longrightarrow> slice_from n xs = drop (nat n) xs"
  by (simp add: slice_from_def slice_index_def min_def)

section \<open>Masked counters\<close>

definition mask32 :: "int \<Rightarrow> int" where
  "mask32 x = x mod 2 ^ 32"

definition mask64 :: "int \<Rightarrow> int" where
  "mask64 x = x mod 2 ^ 64"

lemma mask32_range [simp]: "0 \<le> mask32 x" "mask32 x < 4294967296"
  by (simp_all add: mask32_def)

lemma mask64_range [simp]: "0 \<le> mask64 x" "mask64 x < 18446744073709551616"
  by (simp_all add: mask64_def)

lemma mask32_id [seq_simps]: "0 \<le> x \<Longrightarrow> x < 4294967296 \<Longrightarrow> mask32 x = x"
  by (simp add: mask32_def)

lemma mask64_id [seq_simps]: "0 \<le> x \<Longrightarrow> x < 18446744073709551616 \<Longrightarrow> mask64 x = x"
  by (simp add: mask64_def)

lemma mask32_absorb [seq_simps]:
  "mask32 (mask32 x + y) = mask32 (x + y)" "mask32 (x + mask32 y) = mask32 (x + y)"
  "mask32 (mask32 x - y) = mask32 (x - y)" "mask32 (x - mask32 y) = mask32 (x - y)"
  by (simp_all add: mask32_def mod_simps)

lemma mask64_absorb [seq_simps]:
  "mask64 (mask64 x + y) = mask64 (x + y)" "mask64 (x + mask64 y) = mask64 (x + y)"
  by (simp_all add: mask64_def mod_simps)

lemma mask32_neg: "0 < d \<Longrightarrow> d < 4294967296 \<Longrightarrow> mask32 (- d) = 4294967296 - d"
  by (simp add: mask32_def zmod_zminus1_eq_if)

lemma mask64_add_cancel: "mask64 (t + a) = mask64 (t + b) \<longleftrightarrow> mask64 a = mask64 b"
  by (simp add: mask64_def mod_eq_dvd_iff)

text \<open>The mask of the source, \<open>x & 0xFFFFFFFF\<close>, is the bitwise one.\<close>

lemma mask32_and: "mask32 x = and x 4294967295"
  using take_bit_eq_mask[of 32 x] by (simp add: mask32_def take_bit_eq_mod mask_eq_exp_minus_1)

lemma mask64_and: "mask64 x = and x 18446744073709551615"
  using take_bit_eq_mask[of 64 x] by (simp add: mask64_def take_bit_eq_mod mask_eq_exp_minus_1)

end
