(* ===== verification/PyFloat.thy ===== *)
theory PyFloat
  imports Complex_Main Prelude "HOL-Library.Log_Nat"
begin

text \<open>
  Python's \<open>float\<close>: an IEEE-754 binary64 number. A finite value is the rational it denotes
  (the two zeros are one value); every arithmetic operation is the exact rational operation
  followed by \<open>double_of_rat\<close>, the rounding to the nearest double with ties to even that
  IEEE-754 prescribes. \<open>round\<close> with and without digits, \<open>int\<close> and \<open>repr\<close> follow the
  interpreter; \<open>math.sin\<close> and \<open>math.cos\<close> belong to the C library and are arguments of the
  definitions that call them.
\<close>

section \<open>Values and rounding\<close>

datatype pyfloat = FFin rat | FPosInf | FNegInf | FNaN

definition round_half_even :: "rat \<Rightarrow> int" where
  "round_half_even x =
     (let f = \<lfloor>x\<rfloor>; d = x - of_int f
      in if d < 1 / 2 then f else if 1 / 2 < d then f + 1 else if even f then f else f + 1)"

definition pow2 :: "int \<Rightarrow> rat" where
  "pow2 e = (if 0 \<le> e then 2 ^ nat e else 1 / 2 ^ nat (- e))"

definition ilog2 :: "rat \<Rightarrow> int" where
  "ilog2 x = (let pq = quotient_of x; d = bitlen (fst pq) - bitlen (snd pq)
              in if pow2 d \<le> x then d else d - 1)"

definition double_of_rat :: "rat \<Rightarrow> pyfloat" where
  "double_of_rat x =
     (if x = 0 then FFin 0
      else let a = \<bar>x\<bar>;
               q = max (ilog2 a - 52) (- 1074);
               r = of_int (round_half_even (a / pow2 q)) * pow2 q
           in if pow2 1024 \<le> r then (if x < 0 then FNegInf else FPosInf)
              else FFin (sgn x * r))"

section \<open>Arithmetic\<close>

fun fneg :: "pyfloat \<Rightarrow> pyfloat" where
  "fneg (FFin x) = FFin (- x)"
| "fneg FPosInf = FNegInf"
| "fneg FNegInf = FPosInf"
| "fneg FNaN = FNaN"

fun fadd :: "pyfloat \<Rightarrow> pyfloat \<Rightarrow> pyfloat" where
  "fadd (FFin x) (FFin y) = double_of_rat (x + y)"
| "fadd FNaN y = FNaN"
| "fadd x FNaN = FNaN"
| "fadd FPosInf FNegInf = FNaN"
| "fadd FNegInf FPosInf = FNaN"
| "fadd FPosInf y = FPosInf"
| "fadd FNegInf y = FNegInf"
| "fadd x y = y"

definition fsub :: "pyfloat \<Rightarrow> pyfloat \<Rightarrow> pyfloat" where
  "fsub x y = fadd x (fneg y)"

fun inf_of_sign :: "rat \<Rightarrow> pyfloat" where
  "inf_of_sign s = (if s = 0 then FNaN else if s < 0 then FNegInf else FPosInf)"

fun fsign :: "pyfloat \<Rightarrow> rat" where
  "fsign (FFin x) = sgn x"
| "fsign FPosInf = 1"
| "fsign FNegInf = - 1"
| "fsign FNaN = 0"

fun fmul :: "pyfloat \<Rightarrow> pyfloat \<Rightarrow> pyfloat" where
  "fmul (FFin x) (FFin y) = double_of_rat (x * y)"
| "fmul FNaN y = FNaN"
| "fmul x FNaN = FNaN"
| "fmul x y = inf_of_sign (fsign x * fsign y)"

text \<open>
  Division by a nonzero finite float, and the general division, which raises on a zero divisor
  instead of returning an infinity.
\<close>

fun fquot :: "pyfloat \<Rightarrow> rat \<Rightarrow> pyfloat" where
  "fquot (FFin x) y = double_of_rat (x / y)"
| "fquot FNaN y = FNaN"
| "fquot x y = inf_of_sign (fsign x * sgn y)"

fun fdiv :: "pyfloat \<Rightarrow> pyfloat \<Rightarrow> pyfloat result" where
  "fdiv x (FFin y) =
     (if y = 0 then Inl (Exn ZeroDivisionError ''float division by zero'') else Inr (fquot x y))"
| "fdiv x FNaN = Inr FNaN"
| "fdiv (FFin x) _ = Inr (FFin 0)"
| "fdiv _ _ = Inr FNaN"

text \<open>
  An integer in a float expression is converted first; \<open>a / b\<close> of two integers is the rounded
  quotient. Both raise when the value exceeds the range of a double.
\<close>

definition finite_or :: "string \<Rightarrow> pyfloat \<Rightarrow> pyfloat result" where
  "finite_or msg x = (case x of FFin _ \<Rightarrow> Inr x | _ \<Rightarrow> Inl (Exn OverflowError msg))"

definition float_of_int :: "int \<Rightarrow> pyfloat result" where
  "float_of_int n = finite_or ''int too large to convert to float'' (double_of_rat (of_int n))"

definition int_truediv :: "int \<Rightarrow> int \<Rightarrow> pyfloat result" where
  "int_truediv a b =
     (if b = 0 then Inl (Exn ZeroDivisionError ''division by zero'')
      else finite_or ''integer division result too large for a float''
             (double_of_rat (of_int a / of_int b)))"

text \<open>Comparisons; every comparison with a NaN is false.\<close>

fun flt :: "pyfloat \<Rightarrow> pyfloat \<Rightarrow> bool" where
  "flt (FFin x) (FFin y) = (x < y)"
| "flt FNaN y = False"
| "flt x FNaN = False"
| "flt FPosInf y = False"
| "flt x FPosInf = True"
| "flt x FNegInf = False"
| "flt FNegInf y = True"

fun fabs :: "pyfloat \<Rightarrow> pyfloat" where
  "fabs (FFin x) = FFin \<bar>x\<bar>"
| "fabs FNegInf = FPosInf"
| "fabs x = x"

text \<open>\<open>max(a, b)\<close> keeps \<open>a\<close> unless \<open>b > a\<close>.\<close>

definition fmax :: "pyfloat \<Rightarrow> pyfloat \<Rightarrow> pyfloat" where
  "fmax a b = (if flt a b then b else a)"

section \<open>Conversions to integers\<close>

definition trunc_rat :: "rat \<Rightarrow> int" where
  "trunc_rat x = (if x < 0 then - \<lfloor>- x\<rfloor> else \<lfloor>x\<rfloor>)"

fun int_of_float :: "pyfloat \<Rightarrow> int result" where
  "int_of_float (FFin x) = Inr (trunc_rat x)"
| "int_of_float FNaN = Inl (Exn ValueError ''cannot convert float NaN to integer'')"
| "int_of_float _ = Inl (Exn OverflowError ''cannot convert float infinity to integer'')"

fun round_float :: "pyfloat \<Rightarrow> int result" where
  "round_float (FFin x) = Inr (round_half_even x)"
| "round_float FNaN = Inl (Exn ValueError ''cannot convert float NaN to integer'')"
| "round_float _ = Inl (Exn OverflowError ''cannot convert float infinity to integer'')"

text \<open>
  \<open>round(x, 2)\<close> rounds the exact value of \<open>x\<close> to two decimals, ties to even, and returns the
  double nearest to that decimal.
\<close>

fun round2 :: "pyfloat \<Rightarrow> pyfloat" where
  "round2 (FFin x) = double_of_rat (of_int (round_half_even (x * 100)) / 100)"
| "round2 x = x"

section \<open>Facts about rounding\<close>

lemma round_half_even_of_int [simp]: "round_half_even (of_int n) = n"
  by (simp add: round_half_even_def)

lemma round_half_even_bounds:
  "x - 1 / 2 \<le> of_int (round_half_even x)" "of_int (round_half_even x) \<le> x + 1 / 2"
  by (auto simp: round_half_even_def Let_def field_simps; linarith)+

lemma round_half_even_mono_int: "of_int a \<le> x \<Longrightarrow> a \<le> round_half_even x"
proof (rule ccontr)
  assume x: "of_int a \<le> x" and "\<not> a \<le> round_half_even x"
  then have "round_half_even x \<le> a - 1" by simp
  then have "(of_int (round_half_even x) :: rat) \<le> of_int (a - 1)"
    by (simp only: of_int_le_iff)
  with round_half_even_bounds(1)[of x] x show False by simp
qed

lemma round_half_even_le_int: "x \<le> of_int b \<Longrightarrow> round_half_even x \<le> b"
proof (rule ccontr)
  assume x: "x \<le> of_int b" and "\<not> round_half_even x \<le> b"
  then have "b + 1 \<le> round_half_even x" by simp
  then have "of_int (b + 1) \<le> (of_int (round_half_even x) :: rat)"
    by (simp only: of_int_le_iff)
  with round_half_even_bounds(2)[of x] x show False by simp
qed

lemma pow2_pos [simp]: "0 < pow2 e"
  by (simp add: pow2_def)

lemma pow2_nat: "pow2 (int n) = 2 ^ n"
  by (simp add: pow2_def)

lemma double_of_rat_0 [simp]: "double_of_rat 0 = FFin 0"
  by (simp add: double_of_rat_def)

lemma pow2_nonneg [simp]: "0 \<le> pow2 e"
  by (rule less_imp_le) simp

lemma pow2_nonzero [simp]: "pow2 e \<noteq> 0"
  by (simp add: pow2_def)

lemma pow2_powi: "pow2 e = 2 powi e"
  by (simp add: pow2_def power_int_def inverse_eq_divide power_one_over)

lemma pow2_add: "pow2 (a + b) = pow2 a * pow2 b"
  unfolding pow2_powi by (rule power_int_add) simp

lemma pow2_strict_mono: "a < b \<Longrightarrow> pow2 a < pow2 b"
proof -
  assume "a < b"
  then have "1 < pow2 (b - a)" by (simp add: pow2_def)
  then have "pow2 a * 1 < pow2 a * pow2 (b - a)" by (intro mult_strict_left_mono) auto
  then show ?thesis by (simp add: pow2_add[symmetric])
qed

lemma pow2_le_iff [simp]: "pow2 a \<le> pow2 b \<longleftrightarrow> a \<le> b"
  using pow2_strict_mono[of a b] pow2_strict_mono[of b a] by (cases a b rule: linorder_cases) auto

lemma trunc_rat_of_int [simp]: "trunc_rat (of_int n) = n"
  by (simp add: trunc_rat_def)

text \<open>
  The binary exponent: \<open>ilog2 x\<close> is the exponent of the leading bit of \<open>x\<close>.
\<close>

lemma bitlen_pow2_bounds: "0 < n \<Longrightarrow> pow2 (bitlen n - 1) \<le> of_int n \<and> of_int n < pow2 (bitlen n)"
proof -
  assume n: "0 < n"
  then have b: "0 < bitlen n" using bitlen_bounds[of n] by (cases "bitlen n \<le> 0") auto
  from bitlen_bounds[OF n] have "2 ^ nat (bitlen n - 1) \<le> n" "n < 2 ^ nat (bitlen n)" by auto
  then have "(of_int (2 ^ nat (bitlen n - 1)) :: rat) \<le> of_int n"
    "(of_int n :: rat) < of_int (2 ^ nat (bitlen n))"
    by (simp_all only: of_int_le_iff of_int_less_iff)
  with b show ?thesis by (simp add: pow2_def)
qed

lemma ilog2_bounds:
  assumes "0 < x"
  shows "pow2 (ilog2 x) \<le> x" and "x < pow2 (ilog2 x + 1)"
proof -
  obtain p q where pq: "quotient_of x = (p, q)" by fastforce
  have q: "0 < q" using quotient_of_denom_pos[OF pq] .
  have x: "x = of_int p / of_int q" using quotient_of_div[OF pq] .
  with assms q have p: "0 < p" by (simp add: zero_less_divide_iff)
  let ?d = "bitlen p - bitlen q"
  have P: "pow2 (bitlen p - 1) \<le> of_int p" "of_int p < pow2 (bitlen p)"
    using bitlen_pow2_bounds[OF p] by auto
  have Q: "pow2 (bitlen q - 1) \<le> of_int q" "of_int q < pow2 (bitlen q)"
    using bitlen_pow2_bounds[OF q] by auto
  have "pow2 (?d - 1) * of_int q \<le> pow2 (?d - 1) * pow2 (bitlen q)"
    using Q(2) by (intro mult_left_mono) auto
  also have "\<dots> = pow2 (bitlen p - 1)" by (simp add: pow2_add[symmetric])
  finally have lo: "pow2 (?d - 1) \<le> x" using P(1) q by (simp add: x field_simps)
  have "of_int p < pow2 (?d + 1) * pow2 (bitlen q - 1)"
    using P(2) by (simp add: pow2_add[symmetric])
  also have "\<dots> \<le> pow2 (?d + 1) * of_int q"
    using Q(1) by (intro mult_left_mono) (auto intro: less_imp_le)
  finally have hi: "x < pow2 (?d + 1)" using q by (simp add: x field_simps)
  from lo hi show "pow2 (ilog2 x) \<le> x" "x < pow2 (ilog2 x + 1)"
    by (auto simp: ilog2_def pq Let_def)
qed

text \<open>
  A number with at most 53 significant bits and an exponent in range is a double and rounds to
  itself. The values the program converts (16-bit samples, header fields below \<open>2 ^ 53\<close>, eighths and
  256ths of such) are of this kind.
\<close>

lemma double_of_rat_exact:
  assumes m: "\<bar>m\<bar> < 2 ^ 53" and e: "- 1074 \<le> e" "e \<le> 900" and x: "x = of_int m * pow2 e"
  shows "double_of_rat x = FFin x"
proof (cases "m = 0")
  case False
  define a where "a = \<bar>x\<bar>"
  define q where "q = max (ilog2 a - 52) (- 1074)"
  have a: "a = of_int \<bar>m\<bar> * pow2 e" by (simp add: a_def x abs_mult)
  with False have pos: "0 < a" by simp
  have "of_int \<bar>m\<bar> < (of_int (2 ^ 53) :: rat)" using m by (simp only: of_int_less_iff)
  then have "a < pow2 53 * pow2 e" unfolding a by (intro mult_strict_right_mono) (auto simp: pow2_def)
  then have lt: "a < pow2 (53 + e)" by (simp add: pow2_add)
  have "pow2 (ilog2 a) < pow2 (53 + e)" using ilog2_bounds(1)[OF pos] lt by simp
  then have "ilog2 a < 53 + e" by (simp add: not_le[symmetric])
  then have qe: "q \<le> e" using e by (simp add: q_def)
  have "a / pow2 q = of_int \<bar>m\<bar> * pow2 (e - q)"
    using pow2_add[of "e - q" q] by (simp add: a field_simps)
  also have "\<dots> = of_int (\<bar>m\<bar> * 2 ^ nat (e - q))" using qe by (simp add: pow2_def)
  finally have r: "of_int (round_half_even (a / pow2 q)) * pow2 q = a"
    by (metis pow2_pos nonzero_divide_eq_eq order_less_irrefl round_half_even_of_int)
  have "pow2 (53 + e) \<le> pow2 1024" using e(2) by simp
  with lt have "a < pow2 1024" by (rule less_le_trans)
  then have big: "\<not> pow2 1024 \<le> a" by simp
  have "x \<noteq> 0" using pos by (auto simp: a_def)
  then have "double_of_rat x = FFin (sgn x * (of_int (round_half_even (a / pow2 q)) * pow2 q))"
    using big unfolding double_of_rat_def Let_def a_def[symmetric] q_def[symmetric] r by simp
  also have "\<dots> = FFin x" unfolding r by (simp add: a_def sgn_mult_abs)
  finally show ?thesis .
qed (simp add: x)

corollary double_of_int_exact: "\<bar>n\<bar> < 2 ^ 53 \<Longrightarrow> double_of_rat (of_int n) = FFin (of_int n)"
  by (rule double_of_rat_exact[where m = n and e = 0]) (auto simp: pow2_def)

corollary float_of_int_exact: "\<bar>n\<bar> < 2 ^ 53 \<Longrightarrow> float_of_int n = Inr (FFin (of_int n))"
  by (simp add: float_of_int_def finite_or_def double_of_int_exact)

text \<open>Rounding moves a number by less than its own magnitude, so only huge values overflow.\<close>

lemma double_of_rat_finite:
  assumes "\<bar>x\<bar> \<le> pow2 1000"
  shows "\<exists>y. double_of_rat x = FFin y"
proof (cases "x = 0")
  case False
  define a where "a = \<bar>x\<bar>"
  define q where "q = max (ilog2 a - 52) (- 1074)"
  have pos: "0 < a" using False by (simp add: a_def)
  have "of_int (round_half_even (a / pow2 q)) * pow2 q \<le> (a / pow2 q + 1 / 2) * pow2 q"
    using round_half_even_bounds(2) by (intro mult_right_mono) auto
  then have "of_int (round_half_even (a / pow2 q)) * pow2 q \<le> a + pow2 q / 2"
    by (simp add: algebra_simps)
  moreover have "pow2 q / 2 \<le> pow2 q" by simp
  ultimately have r: "of_int (round_half_even (a / pow2 q)) * pow2 q \<le> a + pow2 q" by linarith
  have "a \<le> pow2 1000" using assms by (simp add: a_def)
  with ilog2_bounds(1)[OF pos] have "pow2 (ilog2 a) \<le> pow2 1000" by (rule order_trans)
  then have "ilog2 a \<le> 1000" by simp
  then have "pow2 q \<le> pow2 1000" by (simp add: q_def)
  then have "a + pow2 q \<le> pow2 1000 + pow2 1000" using \<open>a \<le> pow2 1000\<close> by (rule add_mono[rotated])
  also have "\<dots> = pow2 1001" using pow2_add[of 1 1000] by (simp add: pow2_def)
  also have "\<dots> < pow2 1024" by (rule pow2_strict_mono) simp
  finally have "\<not> pow2 1024 \<le> of_int (round_half_even (a / pow2 q)) * pow2 q" using r by simp
  then show ?thesis
    using False unfolding double_of_rat_def Let_def a_def[symmetric] q_def[symmetric] by simp
qed simp

lemma pow2_64_le: "(18446744073709551616 :: rat) \<le> pow2 1000"
  using pow2_le_iff[of 64 1000] by (simp add: pow2_def)

lemma int_truediv_u64:
  assumes "\<bar>a\<bar> < 18446744073709551616" and "0 < b"
  shows "\<exists>y. int_truediv a b = Inr (FFin y)"
proof -
  have "\<bar>of_int a / of_int b :: rat\<bar> \<le> \<bar>of_int a\<bar>"
    using assms(2) mult_left_mono[of 1 "of_int b" "\<bar>of_int a :: rat\<bar>"] by (simp add: field_simps)
  also have "\<dots> \<le> of_int 18446744073709551616"
    using assms(1) unfolding of_int_abs[symmetric] of_int_le_iff by simp
  also have "\<dots> \<le> pow2 1000" using pow2_64_le by simp
  finally obtain y where "double_of_rat (of_int a / of_int b) = FFin y"
    using double_of_rat_finite by blast
  then show ?thesis using assms(2) by (simp add: int_truediv_def finite_or_def)
qed

lemma float_of_int_u64:
  assumes "\<bar>n\<bar> < 18446744073709551616"
  shows "\<exists>y. float_of_int n = Inr (FFin y)"
  using int_truediv_u64[OF assms, of 1] by (simp add: int_truediv_def float_of_int_def finite_or_def split: pyfloat.splits)

section \<open>Magnitudes\<close>

text \<open>
  \<open>bnd k x\<close>: the float is finite and at most \<open>2 ^ k\<close> in magnitude. Rounding never crosses a power of
  two, so bounds propagate through the arithmetic and show that an expression cannot overflow.
\<close>

definition bnd :: "int \<Rightarrow> pyfloat \<Rightarrow> bool" where
  "bnd k x \<longleftrightarrow> (\<exists>y. x = FFin y \<and> \<bar>y\<bar> \<le> pow2 k)"

lemma bnd_FFin [simp]: "bnd k (FFin y) \<longleftrightarrow> \<bar>y\<bar> \<le> pow2 k"
  by (simp add: bnd_def)

lemma bnd_mono: "bnd j x \<Longrightarrow> j \<le> k \<Longrightarrow> bnd k x"
  using order_trans[of _ "pow2 j" "pow2 k"] by (auto simp: bnd_def)

text \<open>Rounding to the grid of spacing \<open>2 ^ q\<close>: the error, and a bound that lies on the grid.\<close>

lemma grid_error: "\<bar>of_int (round_half_even (a / pow2 q)) * pow2 q - a\<bar> \<le> pow2 (q - 1)"
proof -
  have "\<bar>of_int (round_half_even (a / pow2 q)) - a / pow2 q\<bar> \<le> 1 / 2"
    using round_half_even_bounds[of "a / pow2 q"] by linarith
  then have "\<bar>of_int (round_half_even (a / pow2 q)) - a / pow2 q\<bar> * pow2 q \<le> 1 / 2 * pow2 q"
    by (rule mult_right_mono) simp
  moreover have "\<bar>of_int (round_half_even (a / pow2 q)) - a / pow2 q\<bar> * pow2 q =
      \<bar>of_int (round_half_even (a / pow2 q)) * pow2 q - a\<bar>"
    by (simp add: abs_mult_pos left_diff_distrib)
  moreover have "1 / 2 * pow2 q = pow2 (q - 1)" using pow2_add[of "q - 1" 1] by (simp add: pow2_def[of 1])
  ultimately show ?thesis by linarith
qed

lemma grid_bound:
  assumes "a \<le> pow2 k" "q \<le> k"
  shows "of_int (round_half_even (a / pow2 q)) * pow2 q \<le> pow2 k"
proof -
  have "a / pow2 q \<le> pow2 k / pow2 q" using assms(1) by (simp add: divide_right_mono)
  also have "\<dots> = of_int (2 ^ nat (k - q))"
    using assms(2) pow2_add[of "k - q" q] by (simp add: field_simps pow2_def)
  finally have "round_half_even (a / pow2 q) \<le> 2 ^ nat (k - q)" by (rule round_half_even_le_int)
  then have "(of_int (round_half_even (a / pow2 q)) :: rat) \<le> of_int (2 ^ nat (k - q))"
    by (simp only: of_int_le_iff)
  then have "of_int (round_half_even (a / pow2 q)) * pow2 q \<le> of_int (2 ^ nat (k - q)) * pow2 q"
    by (rule mult_right_mono) simp
  also have "\<dots> = pow2 k" using assms(2) pow2_add[of "k - q" q] by (simp add: pow2_def)
  finally show ?thesis .
qed

text \<open>Rounding moves a number of magnitude at most \<open>2 ^ k\<close> by at most \<open>2 ^ (k - 53)\<close>.\<close>

lemma double_close:
  assumes "\<bar>x\<bar> \<le> pow2 k" and "- 1000 \<le> k" "k \<le> 1000"
  obtains y where "double_of_rat x = FFin y" "\<bar>y\<bar> \<le> pow2 k" "\<bar>y - x\<bar> \<le> pow2 (k - 53)" "0 \<le> x \<longrightarrow> 0 \<le> y"
proof (cases "x = 0")
  case False
  define a where "a = \<bar>x\<bar>"
  define q where "q = max (ilog2 a - 52) (- 1074)"
  define r where "r = of_int (round_half_even (a / pow2 q)) * pow2 q"
  have pos: "0 < a" using False by (simp add: a_def)
  have ak: "a \<le> pow2 k" using assms(1) by (simp add: a_def)
  have "pow2 (ilog2 a) \<le> pow2 k" using ilog2_bounds(1)[OF pos] ak by (rule order_trans)
  then have qk: "q \<le> k" "q - 1 \<le> k - 53" using assms(2) by (simp_all add: q_def)
  have rk: "r \<le> pow2 k" unfolding r_def by (rule grid_bound[OF ak qk(1)])
  have r0: "0 \<le> r" using pos round_half_even_mono_int[of 0 "a / pow2 q"] by (simp add: r_def)
  have "pow2 k < pow2 1024" using assms(3) by (intro pow2_strict_mono) simp
  with rk have "\<not> pow2 1024 \<le> r" by simp
  then have d: "double_of_rat x = FFin (sgn x * r)"
    using False unfolding double_of_rat_def Let_def a_def[symmetric] q_def[symmetric] r_def[symmetric]
    by simp
  have "\<bar>r - a\<bar> \<le> pow2 (q - 1)" unfolding r_def by (rule grid_error)
  also have "\<dots> \<le> pow2 (k - 53)" using qk(2) by simp
  finally have "\<bar>r - a\<bar> \<le> pow2 (k - 53)" .
  moreover have "sgn x * r - x = sgn x * (r - a)" by (simp add: a_def right_diff_distrib sgn_mult_abs)
  ultimately have "\<bar>sgn x * r - x\<bar> \<le> pow2 (k - 53)" using False by (simp add: abs_mult)
  moreover have "\<bar>sgn x * r\<bar> = r" using False r0 by (simp add: abs_mult sgn_if)
  moreover have "0 \<le> x \<longrightarrow> 0 \<le> sgn x * r" using r0 by (simp add: sgn_if)
  ultimately show ?thesis using that[of "sgn x * r"] d rk by simp
qed (use that[of 0] in simp)

lemma double_near:
  assumes "\<bar>x\<bar> \<le> pow2 k" and "- 1000 \<le> k" "k \<le> 40"
  obtains y where "double_of_rat x = FFin y" "\<bar>y\<bar> \<le> pow2 k" "x - 1 / 1000 \<le> y" "y \<le> x + 1 / 1000"
    "0 \<le> x \<longrightarrow> 0 \<le> y"
proof -
  obtain y where y: "double_of_rat x = FFin y" "\<bar>y\<bar> \<le> pow2 k" "\<bar>y - x\<bar> \<le> pow2 (k - 53)" "0 \<le> x \<longrightarrow> 0 \<le> y"
    using assms by (auto intro: double_close[of x k])
  have "pow2 (k - 53) \<le> pow2 (- 13)" using assms(3) by simp
  also have "\<dots> \<le> 1 / 1000" by (simp add: pow2_def)
  finally have "\<bar>y - x\<bar> \<le> 1 / 1000" using y(3) by (rule order_trans[rotated])
  then have "x - 1 / 1000 \<le> y" "y \<le> x + 1 / 1000" by linarith+
  with y that[of y] show ?thesis by blast
qed

lemma bnd_double: "\<bar>x\<bar> \<le> pow2 k \<Longrightarrow> - 1000 \<le> k \<Longrightarrow> k \<le> 1000 \<Longrightarrow> bnd k (double_of_rat x)"
  by (rule double_close[of x k]) auto

lemma pow2_double: "pow2 k + pow2 k = pow2 (k + 1)"
  using pow2_add[of k 1] by (simp add: pow2_def[of 1])

lemma bnd_fadd: "bnd k x \<Longrightarrow> bnd k y \<Longrightarrow> - 999 \<le> k \<Longrightarrow> k \<le> 999 \<Longrightarrow> bnd (k + 1) (fadd x y)"
  using pow2_double[of k] by (fastforce simp: bnd_def[of k] intro!: bnd_double)

lemma bnd_fneg [simp]: "bnd k (fneg x) \<longleftrightarrow> bnd k x"
  by (cases x) (auto simp: bnd_def)

lemma bnd_fabs [simp]: "bnd k (fabs x) \<longleftrightarrow> bnd k x"
  by (cases x) (auto simp: bnd_def)

lemma bnd_fsub: "bnd k x \<Longrightarrow> bnd k y \<Longrightarrow> - 999 \<le> k \<Longrightarrow> k \<le> 999 \<Longrightarrow> bnd (k + 1) (fsub x y)"
  by (simp add: fsub_def bnd_fadd)

lemma bnd_fmul:
  assumes "bnd j x" "bnd k y" "- 1000 \<le> j + k" "j + k \<le> 1000"
  shows "bnd (j + k) (fmul x y)"
proof -
  obtain a b where ab: "x = FFin a" "y = FFin b" "\<bar>a\<bar> \<le> pow2 j" "\<bar>b\<bar> \<le> pow2 k"
    using assms(1,2) by (auto simp: bnd_def)
  then have "\<bar>a * b\<bar> \<le> pow2 (j + k)" by (simp add: abs_mult pow2_add mult_mono)
  with ab(1,2) assms(3,4) show ?thesis by (simp add: bnd_double)
qed

lemma bnd_fquot:
  assumes "bnd j x" "pow2 k \<le> \<bar>y\<bar>" "- 1000 \<le> j - k" "j - k \<le> 1000"
  shows "bnd (j - k) (fquot x y)"
proof -
  obtain a where a: "x = FFin a" "\<bar>a\<bar> \<le> pow2 j" using assms(1) by (auto simp: bnd_def)
  have y: "0 < \<bar>y\<bar>" using assms(2) pow2_pos[of k] by linarith
  have "\<bar>a\<bar> \<le> pow2 (j - k) * pow2 k" using a(2) pow2_add[of "j - k" k] by simp
  also have "\<dots> \<le> pow2 (j - k) * \<bar>y\<bar>" using assms(2) by (intro mult_left_mono) auto
  finally have "\<bar>a / y\<bar> \<le> pow2 (j - k)" using y by (simp add: abs_divide divide_le_eq)
  with a(1) assms(3,4) show ?thesis by (simp add: bnd_double)
qed

lemma bnd_fmax: "bnd k x \<Longrightarrow> bnd k y \<Longrightarrow> bnd k (fmax x y)"
  by (simp add: fmax_def)

lemma bnd_int_of_float: "bnd k x \<Longrightarrow> \<exists>n. int_of_float x = Inr n"
  by (auto simp: bnd_def)

lemma bnd_round_float: "bnd k x \<Longrightarrow> \<exists>n. round_float x = Inr n"
  by (auto simp: bnd_def)

end
