(* ===== verification/PyValue.thy ===== *)
theory PyValue
  imports PyFloat
begin

text \<open>
  The dynamically typed values the program handles: what \<open>json.loads\<close> and \<open>yaml.safe_load\<close>
  produce and keyword arguments carry. A \<open>str\<close> is the list of its UTF-8 bytes as characters, so
  \<open>encode("utf-8")\<close> is the identity on strings without lone surrogates and
  \<open>decode("utf-8")\<close> a validity check; the operations on strings the program performs
  (comparison, concatenation, ASCII case mapping, prefix tests, stripping) agree with Python's on
  that representation. \<open>int(v)\<close>, \<open>str(v)\<close>, \<open>bool(v)\<close> and \<open>repr(v)\<close> follow the interpreter,
  the texts of its exceptions included.
\<close>

section \<open>Values\<close>

datatype pyval =
    PNone | PBool bool | PInt int | PFloat pyfloat | PStr string
  | PList "pyval list" | PDict "(string \<times> pyval) list"

type_synonym pydict = "(string \<times> pyval) list"

fun is_int_instance :: "pyval \<Rightarrow> bool" where
  "is_int_instance (PInt n) = True"
| "is_int_instance (PBool b) = True"
| "is_int_instance _ = False"

fun type_name :: "pyval \<Rightarrow> string" where
  "type_name PNone = ''NoneType''"
| "type_name (PBool b) = ''bool''"
| "type_name (PInt n) = ''int''"
| "type_name (PFloat x) = ''float''"
| "type_name (PStr s) = ''str''"
| "type_name (PList vs) = ''list''"
| "type_name (PDict d) = ''dict''"

fun py_bool :: "pyval \<Rightarrow> bool" where
  "py_bool PNone = False"
| "py_bool (PBool b) = b"
| "py_bool (PInt n) = (n \<noteq> 0)"
| "py_bool (PFloat x) = (x \<noteq> FFin 0)"
| "py_bool (PStr s) = (s \<noteq> [])"
| "py_bool (PList vs) = (vs \<noteq> [])"
| "py_bool (PDict d) = (d \<noteq> [])"

text \<open>\<open>v == n\<close> for an integer \<open>n\<close>: booleans and floats compare by value.\<close>

fun py_eq_int :: "pyval \<Rightarrow> int \<Rightarrow> bool" where
  "py_eq_int (PInt m) n = (m = n)"
| "py_eq_int (PBool b) n = (n = (if b then 1 else 0))"
| "py_eq_int (PFloat (FFin x)) n = (x = of_int n)"
| "py_eq_int _ n = False"

section \<open>Integers as text\<close>

definition digit_char :: "int \<Rightarrow> char" where
  "digit_char d = char_of (if d < 10 then 48 + d else 87 + d)"

function show_base :: "int \<Rightarrow> int \<Rightarrow> string" where
  "show_base b n = (if b < 2 \<or> n < b then [digit_char n] else show_base b (n div b) @ [digit_char (n mod b)])"
  by pat_completeness auto
termination
  by (relation "measure (\<lambda>(b, n). nat n)") (auto simp: int_div_less_self)

declare show_base.simps [simp del]

text \<open>\<open>str(n)\<close>\<close>

definition show_int :: "int \<Rightarrow> string" where
  "show_int n = (if n < 0 then CHR ''-'' # show_base 10 (- n) else show_base 10 n)"

text \<open>The format \<open>{n:08x}\<close>.\<close>

definition hex08 :: "int \<Rightarrow> string" where
  "hex08 n = (let s = (if n < 0 then ''-'' else []); d = show_base 16 \<bar>n\<bar>
              in s @ replicate (8 - length s - length d) (CHR ''0'') @ d)"

definition digit_val :: "char \<Rightarrow> int option" where
  "digit_val c = (if CHR ''0'' \<le> c \<and> c \<le> CHR ''9'' then Some (of_char c - 48) else None)"

fun read_digits :: "int \<Rightarrow> string \<Rightarrow> int option" where
  "read_digits acc [] = Some acc"
| "read_digits acc (c # cs) =
     (case digit_val c of None \<Rightarrow> None | Some d \<Rightarrow> read_digits (10 * acc + d) cs)"

text \<open>\<open>int("...")\<close>: surrounding white space, a sign, digits with single underscores between them.\<close>

definition is_space :: "char \<Rightarrow> bool" where
  "is_space c \<longleftrightarrow> c = CHR '' '' \<or> (CHR 0x09 \<le> c \<and> c \<le> CHR 0x0D) \<or> (CHR 0x1C \<le> c \<and> c \<le> CHR 0x1F)"

definition strip :: "string \<Rightarrow> string" where
  "strip s = rev (dropWhile is_space (rev (dropWhile is_space s)))"

fun drop_underscores :: "bool \<Rightarrow> string \<Rightarrow> string option" where
  "drop_underscores prev [] = (if prev then Some [] else None)"
| "drop_underscores prev (c # cs) =
     (if c = CHR ''_'' then (if prev then drop_underscores False cs else None)
      else map_option (Cons c) (drop_underscores True cs))"

definition parse_int_literal :: "string \<Rightarrow> int option" where
  "parse_int_literal s =
     (let t = strip s;
          neg = (t \<noteq> [] \<and> hd t = CHR ''-'');
          u = (if t \<noteq> [] \<and> (hd t = CHR ''-'' \<or> hd t = CHR ''+'') then tl t else t)
      in case drop_underscores False u of None \<Rightarrow> None
         | Some ds \<Rightarrow> map_option (\<lambda>n. if neg then - n else n) (read_digits 0 ds))"

section \<open>Text of floats and of values\<close>

text \<open>
  \<open>repr(x)\<close> of a finite double: the shortest run of significant digits (at most 17) that reads
  back as \<open>x\<close>, the nearest one if there are two. \<open>decimal_exp\<close> is the decimal exponent of the
  leading digit.
\<close>

definition pow10 :: "int \<Rightarrow> rat" where
  "pow10 e = (if 0 \<le> e then 10 ^ nat e else 1 / 10 ^ nat (- e))"

definition decimal_exp :: "rat \<Rightarrow> int" where
  "decimal_exp a =
     (let pq = quotient_of a;
          d = int (length (show_int (fst pq))) - int (length (show_int (snd pq)))
      in if pow10 d \<le> a then d else d - 1)"

fun shortest_digits :: "nat \<Rightarrow> nat \<Rightarrow> rat \<Rightarrow> int \<times> int" where
  "shortest_digits n 0 a = (let e = decimal_exp a - 16 in (round_half_even (a / pow10 e), e))"
| "shortest_digits n (Suc k) a =
     (let e = decimal_exp a - int n;
          lo = \<lfloor>a / pow10 e\<rfloor>;
          ok = (\<lambda>m. double_of_rat (of_int m * pow10 e) = FFin a);
          near = round_half_even (a / pow10 e)
      in if ok near then (near, e)
         else if ok lo then (lo, e)
         else if ok (lo + 1) then (lo + 1, e)
         else shortest_digits (Suc n) k a)"

definition float_repr_pos :: "rat \<Rightarrow> string" where
  "float_repr_pos a =
     (let me = shortest_digits 0 16 a;
          ds = rev (dropWhile ((=) (CHR ''0'')) (rev (show_int (fst me))));
          pt = int (length (show_int (fst me))) + snd me;
          n = int (length ds)
      in if - 4 < pt \<and> pt \<le> 16 then
           (if pt \<le> 0 then ''0.'' @ replicate (nat (- pt)) (CHR ''0'') @ ds
            else if n \<le> pt then ds @ replicate (nat (pt - n)) (CHR ''0'') @ ''.0''
            else take (nat pt) ds @ ''.'' @ drop (nat pt) ds)
         else
           take 1 ds @ (if n = 1 then [] else ''.'' @ drop 1 ds) @ ''e'' @
           (if pt - 1 < 0 then ''-'' else ''+'') @
           (let x = show_int \<bar>pt - 1\<bar> in (if length x < 2 then ''0'' @ x else x)))"

fun float_repr :: "pyfloat \<Rightarrow> string" where
  "float_repr (FFin x) =
     (if x = 0 then ''0.0'' else if x < 0 then ''-'' @ float_repr_pos (- x) else float_repr_pos x)"
| "float_repr FPosInf = ''inf''"
| "float_repr FNegInf = ''-inf''"
| "float_repr FNaN = ''nan''"

definition hex2 :: "int \<Rightarrow> string" where
  "hex2 n = [digit_char (n div 16 mod 16), digit_char (n mod 16)]"

fun repr_char :: "char \<Rightarrow> char \<Rightarrow> string" where
  "repr_char q c =
     (if c = q \<or> c = CHR 0x5C then [CHR 0x5C, c]
      else if c = CHR 0x09 then [CHR 0x5C, CHR ''t'']
      else if c = CHR 0x0A then [CHR 0x5C, CHR ''n'']
      else if c = CHR 0x0D then [CHR 0x5C, CHR ''r'']
      else if c < CHR '' '' \<or> c = CHR 0x7F then [CHR 0x5C, CHR ''x''] @ hex2 (of_char c)
      else [c])"

definition repr_str :: "string \<Rightarrow> string" where
  "repr_str s =
     (let q = (if CHR 0x27 \<in> set s \<and> CHR 0x22 \<notin> set s then CHR 0x22 else CHR 0x27)
      in q # concat (map (repr_char q) s) @ [q])"

fun join :: "string \<Rightarrow> string list \<Rightarrow> string" where
  "join sep [] = []"
| "join sep [s] = s"
| "join sep (s # t # ss) = s @ sep @ join sep (t # ss)"

fun py_repr :: "pyval \<Rightarrow> string" where
  "py_repr PNone = ''None''"
| "py_repr (PBool b) = (if b then ''True'' else ''False'')"
| "py_repr (PInt n) = show_int n"
| "py_repr (PFloat x) = float_repr x"
| "py_repr (PStr s) = repr_str s"
| "py_repr (PList vs) = ''['' @ join '', '' (map py_repr vs) @ '']''"
| "py_repr (PDict d) = ''{'' @ join '', '' (map (\<lambda>(k, v). repr_str k @ '': '' @ py_repr v) d) @ ''}''"

fun py_str :: "pyval \<Rightarrow> string" where
  "py_str (PStr s) = s"
| "py_str v = py_repr v"

section \<open>Conversions that raise\<close>

fun py_int :: "pyval \<Rightarrow> int result" where
  "py_int (PInt n) = Inr n"
| "py_int (PBool b) = Inr (if b then 1 else 0)"
| "py_int (PFloat x) = int_of_float x"
| "py_int (PStr s) =
     (case parse_int_literal s of Some n \<Rightarrow> Inr n
      | None \<Rightarrow> Inl (Exn ValueError (''invalid literal for int() with base 10: '' @ repr_str s)))"
| "py_int v = Inl (Exn TypeError
     (''int() argument must be a string, a bytes-like object or a real number, not '' @
      repr_str (type_name v)))"

text \<open>\<open>d[k]\<close>: the text of a \<open>KeyError\<close> is the repr of the key.\<close>

definition dgetitem :: "pydict \<Rightarrow> string \<Rightarrow> pyval result" where
  "dgetitem d k = (case map_of d k of None \<Rightarrow> Inl (Exn KeyError (repr_str k)) | Some v \<Rightarrow> Inr v)"

section \<open>Case mapping\<close>

definition upper_char :: "char \<Rightarrow> char" where
  "upper_char c = (if CHR ''a'' \<le> c \<and> c \<le> CHR ''z'' then char_of (of_char c - 32 :: nat) else c)"

definition lower_char :: "char \<Rightarrow> char" where
  "lower_char c = (if CHR ''A'' \<le> c \<and> c \<le> CHR ''Z'' then char_of (of_char c + 32 :: nat) else c)"

definition py_upper :: "string \<Rightarrow> string" where
  "py_upper = map upper_char"

definition py_lower :: "string \<Rightarrow> string" where
  "py_lower = map lower_char"

section \<open>Facts\<close>

lemma py_int_error_class:
  "py_int v = Inl e \<Longrightarrow> exn_cls e = TypeError \<or> exn_cls e = ValueError \<or> exn_cls e = OverflowError"
  by (cases v rule: py_int.cases) (auto split: option.splits elim: int_of_float.elims)

lemma show_base_nonempty [simp]: "show_base b n \<noteq> []"
  by (subst show_base.simps) simp

lemma read_digits_append:
  "read_digits acc (xs @ ys) = (case read_digits acc xs of None \<Rightarrow> None | Some a \<Rightarrow> read_digits a ys)"
  by (induction acc xs rule: read_digits.induct) (auto split: option.splits)

lemma nat_of_char_of_int: "(of_char (char_of (k :: int)) :: nat) = nat (k mod 256)"
proof -
  have "int (of_char (char_of k)) = k mod 256"
    by (simp add: of_char_of of_nat_of_char)
  then show ?thesis by linarith
qed

lemma digit_val_digit_char: "0 \<le> d \<Longrightarrow> d < 10 \<Longrightarrow> digit_val (digit_char d) = Some d"
  by (simp add: digit_val_def digit_char_def less_eq_char_def nat_of_char_of_int le_nat_iff nat_le_iff)

lemma read_show_base: "0 \<le> n \<Longrightarrow> read_digits 0 (show_base 10 n) = Some n"
proof (induction "nat n" arbitrary: n rule: less_induct)
  case less
  show ?case
  proof (cases "n < 10")
    case True
    with less.prems show ?thesis by (simp add: show_base.simps digit_val_digit_char)
  next
    case False
    then have "read_digits 0 (show_base 10 (n div 10)) = Some (n div 10)"
      by (intro less.hyps) auto
    with False show ?thesis
      by (simp add: show_base.simps[of 10 n] read_digits_append digit_val_digit_char)
  qed
qed

end
