(* ===== verification/Struct_Codec.thy ===== *)
theory Struct_Codec
  imports PyValue
begin

text \<open>
  Little-endian integers (\<open>int.to_bytes\<close>, \<open>int.from_bytes\<close>) and the part of the \<open>struct\<close> module
  the packet definitions use: format strings that start with \<open><\<close> (little-endian, no alignment)
  and the codes \<open>H h I Q\<close>. The two round-trip laws are proved once, for every format, and
  carried over to the packet headers by interpretation of \<open>header_codec\<close>.
\<close>

section \<open>Little-endian integers\<close>

fun le_bytes :: "nat \<Rightarrow> int \<Rightarrow> bytes" where
  "le_bytes 0 v = []"
| "le_bytes (Suc n) v = word_of_int v # le_bytes n (v div 256)"

fun le_val :: "bytes \<Rightarrow> int" where
  "le_val [] = 0"
| "le_val (b # bs) = uint b + 256 * le_val bs"

lemma length_le_bytes [simp]: "length (le_bytes n v) = n"
  by (induction n arbitrary: v) auto

lemma le_val_le_bytes: "le_val (le_bytes n v) = v mod 256 ^ n"
proof (induction n arbitrary: v)
  case (Suc n)
  have "v mod (256 * 256 ^ n) = 256 * (v div 256 mod 256 ^ n) + v mod 256"
    by (rule zmod_zmult2_eq) simp
  with Suc show ?case by (simp add: uint_word_of_int)
qed simp

lemma le_val_range: "0 \<le> le_val bs" "le_val bs < 256 ^ length bs"
proof (induction bs)
  case (Cons b bs)
  { case 1 then show ?case using Cons.IH(1) by simp }
  { case 2
    have "uint b < 256" using uint_bounded[of b] by simp
    moreover have "le_val bs \<le> 256 ^ length bs - 1" using Cons.IH(2) by simp
    ultimately show ?case by simp }
qed simp_all

lemma le_bytes_le_val: "le_bytes (length bs) (le_val bs) = bs"
proof (induction bs)
  case (Cons b bs)
  have b: "0 \<le> uint b" "uint b < 256" using uint_bounded[of b] by auto
  then have "(uint b + 256 * le_val bs) div 256 = le_val bs" by simp
  moreover have "(word_of_int (uint b + 256 * le_val bs) :: 8 word) = b"
    by (rule word_uint_eqI, unfold uint_word_of_int) (use b in simp)
  ultimately show ?case using Cons by simp
qed simp

text \<open>Two's complement reading and writing of an \<open>n\<close>-byte integer.\<close>

definition le_sval :: "bytes \<Rightarrow> int" where
  "le_sval bs = (let u = le_val bs in if 2 * u < 256 ^ length bs then u else u - 256 ^ length bs)"

text \<open>\<open>int(v).to_bytes(n, "little", signed=True)\<close>\<close>

definition to_bytes_signed :: "nat \<Rightarrow> int \<Rightarrow> bytes result" where
  "to_bytes_signed n v =
     (if - (256 ^ n) \<le> 2 * v \<and> 2 * v < 256 ^ n then Inr (le_bytes n v)
      else Inl (Exn OverflowError ''int too big to convert''))"

lemma le_sval_le_bytes:
  assumes "- (256 ^ n) \<le> 2 * v" and "2 * v < 256 ^ n"
  shows "le_sval (le_bytes n v) = v"
proof (cases "0 \<le> v")
  case True
  with assms show ?thesis by (simp add: le_sval_def Let_def le_val_le_bytes)
next
  case False
  have "v mod 256 ^ n = (v + 256 ^ n) mod 256 ^ n" by simp
  also have "\<dots> = v + 256 ^ n" using assms False by (intro mod_pos_pos_trivial) auto
  finally show ?thesis
    using assms False by (simp add: le_sval_def Let_def le_val_le_bytes)
qed

lemma le_sval_range: "- (256 ^ length bs) \<le> 2 * le_sval bs" "2 * le_sval bs < 256 ^ length bs"
  using le_val_range[of bs] by (auto simp: le_sval_def Let_def)

lemma le_bytes_mod: "le_bytes n (v mod 256 ^ n) = le_bytes n v"
  using le_bytes_le_val[of "le_bytes n v"] by (simp add: le_val_le_bytes)

lemma le_bytes_le_sval: "le_bytes (length bs) (le_sval bs) = bs"
proof -
  have "le_sval bs mod 256 ^ length bs = le_val bs"
    using le_val_range[of bs] by (auto simp: le_sval_def Let_def mod_simps)
  then show ?thesis
    using le_bytes_mod[of "length bs" "le_sval bs"] by (simp add: le_bytes_le_val)
qed

section \<open>Format strings\<close>

datatype code = U16 | S16 | U32 | U64

fun code_of_char :: "char \<Rightarrow> code option" where
  "code_of_char c =
     (if c = CHR ''H'' then Some U16 else if c = CHR ''h'' then Some S16
      else if c = CHR ''I'' then Some U32 else if c = CHR ''Q'' then Some U64 else None)"

text \<open>\<open>struct.Struct(fmt)\<close>; any other format is outside the model.\<close>

fun parse_codes :: "string \<Rightarrow> code list option" where
  "parse_codes [] = Some []"
| "parse_codes (c # cs) =
     (case code_of_char c of None \<Rightarrow> None
      | Some k \<Rightarrow> map_option (Cons k) (parse_codes cs))"

fun parse_format :: "string \<Rightarrow> code list option" where
  "parse_format [] = None"
| "parse_format (c # cs) = (if c = CHR ''<'' then parse_codes cs else None)"

fun code_size :: "code \<Rightarrow> nat" where
  "code_size U16 = 2" | "code_size S16 = 2" | "code_size U32 = 4" | "code_size U64 = 8"

definition struct_size :: "code list \<Rightarrow> nat" where
  "struct_size ks = sum_list (map code_size ks)"

fun code_range :: "code \<Rightarrow> int \<Rightarrow> bool" where
  "code_range S16 v = (- (2 ^ 15) \<le> v \<and> v < 2 ^ 15)"
| "code_range k v = (0 \<le> v \<and> v < 256 ^ code_size k)"

fun pack_code :: "code \<Rightarrow> int \<Rightarrow> bytes result" where
  "pack_code k v =
     (if code_range k v then Inr (le_bytes (code_size k) v)
      else Inl (Exn StructError ''argument out of range''))"

fun unpack_code :: "code \<Rightarrow> bytes \<Rightarrow> int" where
  "unpack_code S16 bs = le_sval bs"
| "unpack_code k bs = le_val bs"

fun struct_pack :: "code list \<Rightarrow> int list \<Rightarrow> bytes result" where
  "struct_pack [] [] = Inr []"
| "struct_pack (k # ks) (v # vs) =
     rbind (pack_code k v) (\<lambda>b. rbind (struct_pack ks vs) (\<lambda>bs. Inr (b @ bs)))"
| "struct_pack _ _ = Inl (Exn StructError ''pack expected a different number of items for packing'')"

fun unpack_codes :: "code list \<Rightarrow> bytes \<Rightarrow> int list" where
  "unpack_codes [] bs = []"
| "unpack_codes (k # ks) bs =
     unpack_code k (take (code_size k) bs) # unpack_codes ks (drop (code_size k) bs)"

definition struct_unpack_from :: "code list \<Rightarrow> bytes \<Rightarrow> int list result" where
  "struct_unpack_from ks bs =
     (if length bs < struct_size ks then Inl (Exn StructError ''unpack_from requires a larger buffer'')
      else Inr (unpack_codes ks bs))"

section \<open>Round trips of struct\<close>

definition in_range :: "code list \<Rightarrow> int list \<Rightarrow> bool" where
  "in_range ks vs \<longleftrightarrow> list_all2 code_range ks vs"

lemma struct_size_simps [simp]:
  "struct_size [] = 0" "struct_size (k # ks) = code_size k + struct_size ks"
  by (simp_all add: struct_size_def)

lemma unpack_pack_code: "code_range k v \<Longrightarrow> unpack_code k (le_bytes (code_size k) v) = v"
  by (cases k) (auto simp: le_val_le_bytes intro!: le_sval_le_bytes)

lemma unpack_code_range: "length bs = code_size k \<Longrightarrow> code_range k (unpack_code k bs)"
  using le_val_range[of bs] le_sval_range[of bs] by (cases k) auto

lemma pack_unpack_code: "length bs = code_size k \<Longrightarrow> le_bytes (code_size k) (unpack_code k bs) = bs"
  using le_bytes_le_val[of bs] le_bytes_le_sval[of bs] by (cases k) auto

lemma struct_pack_in_range:
  "in_range ks vs \<Longrightarrow> \<exists>bs. struct_pack ks vs = Inr bs \<and> length bs = struct_size ks"
  unfolding in_range_def by (induction rule: list_all2_induct) auto

lemma struct_pack_iff: "(\<exists>bs. struct_pack ks vs = Inr bs) \<longleftrightarrow> in_range ks vs"
  by (induction ks vs rule: struct_pack.induct) (auto simp: in_range_def rbind_eq_Inr)

lemma struct_pack_error_class: "struct_pack ks vs = Inl e \<Longrightarrow> exn_cls e = StructError"
  by (induction ks vs rule: struct_pack.induct) (auto simp: rbind_eq_Inl split: if_splits)

lemma unpack_struct_pack:
  "struct_pack ks vs = Inr bs \<Longrightarrow> unpack_codes ks (bs @ rest) = vs \<and> length bs = struct_size ks"
proof (induction ks vs arbitrary: bs rule: struct_pack.induct)
  case (2 k ks v vs)
  then show ?case by (auto simp: rbind_eq_Inr unpack_pack_code split: if_splits)
qed simp_all

lemma struct_pack_unpack:
  "struct_size ks \<le> length bs \<Longrightarrow> struct_pack ks (unpack_codes ks bs) = Inr (take (struct_size ks) bs)"
proof (induction ks bs rule: unpack_codes.induct)
  case (2 k ks bs)
  then have "length (take (code_size k) bs) = code_size k" by simp
  note r = unpack_code_range[OF this] pack_unpack_code[OF this]
  with 2 show ?case by (simp add: take_add)
qed simp

lemma length_unpack_codes [simp]: "length (unpack_codes ks bs) = length ks"
  by (induction ks bs rule: unpack_codes.induct) auto

lemma unpack_codes_in_range: "struct_size ks \<le> length bs \<Longrightarrow> in_range ks (unpack_codes ks bs)"
  using struct_pack_unpack struct_pack_iff by blast

lemma unpack_codes_take: "struct_size ks \<le> n \<Longrightarrow> unpack_codes ks (take n bs) = unpack_codes ks bs"
proof (induction ks bs arbitrary: n rule: unpack_codes.induct)
  case (2 k ks bs)
  then show ?case by (simp add: drop_take min_absorb1)
qed simp

section \<open>The interface of a packet header\<close>

text \<open>
  What a receiver relies on: headers that can be packed take exactly \<open>size\<close> bytes, reading them
  back ignores what follows, and whatever is accepted is the packing of what was read.
\<close>

locale header_codec =
  fixes pack :: "'h \<Rightarrow> bytes result"
    and unpack :: "bytes \<Rightarrow> 'h result"
    and size :: nat
    and payload_len :: "'h \<Rightarrow> int"
  assumes unpack_pack: "pack h = Inr bs \<Longrightarrow> unpack (bs @ rest) = Inr h"
    and pack_size: "pack h = Inr bs \<Longrightarrow> length bs = size"
    and pack_unpack: "unpack bs = Inr h \<Longrightarrow> pack h = Inr (take size bs)"
    and unpack_short: "length bs < size \<Longrightarrow> \<exists>e. unpack bs = Inl e"
begin

lemma unpack_take: "unpack bs = Inr h \<Longrightarrow> unpack (take size bs) = Inr h"
  using unpack_pack[OF pack_unpack, of bs h "[]"] by simp

lemma unpack_length: "unpack bs = Inr h \<Longrightarrow> size \<le> length bs"
  using unpack_short[of bs] by (cases "length bs < size") auto

lemma pack_inj: "pack h = Inr bs \<Longrightarrow> pack h' = Inr bs \<Longrightarrow> h = h'"
  using unpack_pack[of h bs "[]"] unpack_pack[of h' bs "[]"] by simp

text \<open>A datagram is cut after the header and after the announced payload.\<close>

lemma datagram_split:
  assumes "pack h = Inr bs" and "payload_len h = int (length payload)"
  shows "unpack (take size (bs @ payload @ junk)) = Inr h"
    and "take (nat (payload_len h)) (drop size (bs @ payload @ junk)) = payload"
  using assms unpack_pack[OF assms(1), of "[]"] pack_size[OF assms(1)] by auto

end

end
