(* ===== verification/Json.thy ===== *)
theory Json
  imports PyValue "HOL-Library.Sublist"
begin

text \<open>
  The part of Python's \<open>json\<close> module the program uses: \<open>json.dumps\<close> with the separators
  \<open>(",", ":")\<close>, with and without \<open>ensure_ascii\<close>, and \<open>json.loads\<close> with its defaults (strict
  strings, \<open>NaN\<close> and \<open>Infinity\<close> accepted, the last of two equal keys wins). The parser is written
  with fuel; one unit per nesting level or element is enough, so \<open>loads\<close> starts it with the length
  of its input. The text of a \<open>JSONDecodeError\<close> (a position) is not modelled.
\<close>

section \<open>UTF-8\<close>

definition cont_byte :: "char \<Rightarrow> bool" where
  "cont_byte c \<longleftrightarrow> CHR 0x80 \<le> c \<and> c \<le> CHR 0xBF"

text \<open>The decoder of \<open>bytes.decode("utf-8")\<close>: no overlong forms, no surrogates, nothing above U+10FFFF.\<close>

fun utf8_valid :: "string \<Rightarrow> bool" where
  "utf8_valid [] = True"
| "utf8_valid (a # s) =
     (if a < CHR 0x80 then utf8_valid s
      else if CHR 0xC2 \<le> a \<and> a \<le> CHR 0xDF then
        (case s of b # t \<Rightarrow> cont_byte b \<and> utf8_valid t | _ \<Rightarrow> False)
      else if CHR 0xE0 \<le> a \<and> a \<le> CHR 0xEF then
        (case s of b # c # t \<Rightarrow>
           cont_byte b \<and> cont_byte c \<and> (a = CHR 0xE0 \<longrightarrow> CHR 0xA0 \<le> b)
           \<and> (a = CHR 0xED \<longrightarrow> b \<le> CHR 0x9F) \<and> utf8_valid t | _ \<Rightarrow> False)
      else if CHR 0xF0 \<le> a \<and> a \<le> CHR 0xF4 then
        (case s of b # c # d # t \<Rightarrow>
           cont_byte b \<and> cont_byte c \<and> cont_byte d \<and> (a = CHR 0xF0 \<longrightarrow> CHR 0x90 \<le> b)
           \<and> (a = CHR 0xF4 \<longrightarrow> b \<le> CHR 0x8F) \<and> utf8_valid t | _ \<Rightarrow> False)
      else False)"

definition bytes_of_text :: "string \<Rightarrow> bytes" where
  "bytes_of_text s = map of_char s"

definition text_of_bytes :: "bytes \<Rightarrow> string" where
  "text_of_bytes bs = map (\<lambda>b. char_of (uint b)) bs"

definition utf8_encode :: "string \<Rightarrow> bytes result" where
  "utf8_encode s = (if utf8_valid s then Inr (bytes_of_text s)
     else Inl (Exn UnicodeEncodeError ''surrogates not allowed''))"

definition utf8_decode :: "bytes \<Rightarrow> string result" where
  "utf8_decode bs = (let s = text_of_bytes bs in if utf8_valid s then Inr s
     else Inl (Exn UnicodeDecodeError ''invalid utf-8 data''))"

lemma text_of_bytes_of_text [simp]: "text_of_bytes (bytes_of_text s) = s"
proof -
  have "(char_of (uint (of_char c :: 8 word)) :: char) = c" for c
  proof -
    have r: "0 \<le> (of_char c :: int)" "(of_char c :: int) < 256"
      using of_char_mod_256[of c, where 'a = int] by (metis pos_mod_sign zero_less_numeral, metis pos_mod_bound zero_less_numeral)
    have "uint (of_char c :: 8 word) = uint (word_of_int (of_char c) :: 8 word)"
      by (simp add: of_int_of_char)
    also have "\<dots> = of_char c" unfolding uint_word_of_int using r by simp
    finally show ?thesis by simp
  qed
  then show ?thesis by (simp add: text_of_bytes_def bytes_of_text_def comp_def map_idI)
qed

text \<open>Code points of a string, for \<open>ensure_ascii\<close>; lone surrogates have their three-byte form.\<close>

fun code_points :: "string \<Rightarrow> int list" where
  "code_points [] = []"
| "code_points (a # s) =
     (if a < CHR 0xC0 then of_char a # code_points s
      else if a < CHR 0xE0 then
        (case s of b # t \<Rightarrow> ((of_char a - 192) * 64 + (of_char b - 128)) # code_points t | _ \<Rightarrow> [])
      else if a < CHR 0xF0 then
        (case s of b # c # t \<Rightarrow>
          ((of_char a - 224) * 4096 + (of_char b - 128) * 64 + (of_char c - 128)) # code_points t | _ \<Rightarrow> [])
      else
        (case s of b # c # d # t \<Rightarrow>
          ((of_char a - 240) * 262144 + (of_char b - 128) * 4096 + (of_char c - 128) * 64
            + (of_char d - 128)) # code_points t | _ \<Rightarrow> []))"

fun utf8_of_code_point :: "int \<Rightarrow> string" where
  "utf8_of_code_point n =
     (if n < 128 then [char_of n]
      else if n < 2048 then [char_of (192 + n div 64), char_of (128 + n mod 64)]
      else if n < 65536 then
        [char_of (224 + n div 4096), char_of (128 + n div 64 mod 64), char_of (128 + n mod 64)]
      else [char_of (240 + n div 262144), char_of (128 + n div 4096 mod 64),
            char_of (128 + n div 64 mod 64), char_of (128 + n mod 64)])"

section \<open>json.dumps\<close>

definition hex4 :: "int \<Rightarrow> string" where
  "hex4 n = hex2 (n div 256) @ hex2 (n mod 256)"

definition u_escape :: "int \<Rightarrow> string" where
  "u_escape n = [CHR 0x5C, CHR ''u''] @ hex4 n"

text \<open>The characters with a two-character escape.\<close>

fun short_escape :: "char \<Rightarrow> char option" where
  "short_escape c =
     (if c = CHR 0x22 \<or> c = CHR 0x5C then Some c
      else if c = CHR 0x0A then Some (CHR ''n'') else if c = CHR 0x0D then Some (CHR ''r'')
      else if c = CHR 0x09 then Some (CHR ''t'') else if c = CHR 0x0C then Some (CHR ''f'')
      else if c = CHR 0x08 then Some (CHR ''b'') else None)"

definition escape_char :: "char \<Rightarrow> string" where
  "escape_char c =
     (case short_escape c of Some e \<Rightarrow> [CHR 0x5C, e]
      | None \<Rightarrow> if c < CHR '' '' then u_escape (of_char c) else [c])"

definition escape_code_point :: "int \<Rightarrow> string" where
  "escape_code_point n =
     (if n < 127 then escape_char (char_of n)
      else if n = 127 then [char_of n]
      else if n < 65536 then u_escape n
      else u_escape (55296 + (n - 65536) div 1024) @ u_escape (56320 + (n - 65536) mod 1024))"

definition json_string :: "bool \<Rightarrow> string \<Rightarrow> string" where
  "json_string ensure_ascii s =
     CHR 0x22 # (if ensure_ascii then concat (map escape_code_point (code_points s))
                 else concat (map escape_char s)) @ [CHR 0x22]"

fun json_float :: "pyfloat \<Rightarrow> string" where
  "json_float (FFin x) = float_repr (FFin x)"
| "json_float FPosInf = ''Infinity''"
| "json_float FNegInf = ''-Infinity''"
| "json_float FNaN = ''NaN''"

fun dumps :: "bool \<Rightarrow> pyval \<Rightarrow> string" where
  "dumps asc PNone = ''null''"
| "dumps asc (PBool b) = (if b then ''true'' else ''false'')"
| "dumps asc (PInt n) = show_int n"
| "dumps asc (PFloat x) = json_float x"
| "dumps asc (PStr s) = json_string asc s"
| "dumps asc (PList vs) = ''['' @ join '','' (map (dumps asc) vs) @ '']''"
| "dumps asc (PDict d) =
     ''{'' @ join '','' (map (\<lambda>(k, v). json_string asc k @ '':'' @ dumps asc v) d) @ ''}''"

section \<open>json.loads\<close>

definition json_ws :: "char \<Rightarrow> bool" where
  "json_ws c \<longleftrightarrow> c = CHR '' '' \<or> c = CHR 0x09 \<or> c = CHR 0x0A \<or> c = CHR 0x0D"

definition skip_ws :: "string \<Rightarrow> string" where
  "skip_ws = dropWhile json_ws"

definition hex_val :: "char \<Rightarrow> int option" where
  "hex_val c =
     (if CHR ''0'' \<le> c \<and> c \<le> CHR ''9'' then Some (of_char c - 48)
      else if CHR ''a'' \<le> c \<and> c \<le> CHR ''f'' then Some (of_char c - 87)
      else if CHR ''A'' \<le> c \<and> c \<le> CHR ''F'' then Some (of_char c - 55) else None)"

fun read_hex4 :: "string \<Rightarrow> (int \<times> string) option" where
  "read_hex4 (a # b # c # d # s) =
     (case (hex_val a, hex_val b, hex_val c, hex_val d) of
        (Some w, Some x, Some y, Some z) \<Rightarrow> Some (4096 * w + 256 * x + 16 * y + z, s)
      | _ \<Rightarrow> None)"
| "read_hex4 _ = None"

text \<open>After \<open>\u\<close>: one code unit, or two when a high surrogate is followed by a low one.\<close>

definition read_unicode :: "string \<Rightarrow> (string \<times> string) option" where
  "read_unicode s =
     (case read_hex4 s of None \<Rightarrow> None
      | Some (n, t) \<Rightarrow>
        (if 55296 \<le> n \<and> n \<le> 56319 \<and> take 2 t = [CHR 0x5C, CHR ''u''] then
           (case read_hex4 (drop 2 t) of
              Some (m, t2) \<Rightarrow>
                if 56320 \<le> m \<and> m \<le> 57343
                then Some (utf8_of_code_point (65536 + (n - 55296) * 1024 + (m - 56320)), t2)
                else Some (utf8_of_code_point n, t)
            | None \<Rightarrow> None)
         else Some (utf8_of_code_point n, t)))"

fun unescape :: "char \<Rightarrow> char option" where
  "unescape c =
     (if c = CHR 0x22 \<or> c = CHR 0x5C \<or> c = CHR ''/'' then Some c
      else if c = CHR ''n'' then Some (CHR 0x0A) else if c = CHR ''r'' then Some (CHR 0x0D)
      else if c = CHR ''t'' then Some (CHR 0x09) else if c = CHR ''f'' then Some (CHR 0x0C)
      else if c = CHR ''b'' then Some (CHR 0x08) else None)"

text \<open>The rest of a string literal after its opening quote; the fuel is the number of characters.\<close>

fun parse_string :: "nat \<Rightarrow> string \<Rightarrow> (string \<times> string) option" where
  "parse_string 0 s = None"
| "parse_string (Suc n) [] = None"
| "parse_string (Suc n) (c # s) =
     (if c = CHR 0x22 then Some ([], s)
      else if c < CHR '' '' then None
      else if c \<noteq> CHR 0x5C then map_option (\<lambda>(x, r). (c # x, r)) (parse_string n s)
      else case s of [] \<Rightarrow> None
           | e # t \<Rightarrow>
             if e = CHR ''u'' then
               (case read_unicode t of None \<Rightarrow> None
                | Some (u, t2) \<Rightarrow> map_option (\<lambda>(x, r). (u @ x, r)) (parse_string n t2))
             else (case unescape e of None \<Rightarrow> None
                   | Some y \<Rightarrow> map_option (\<lambda>(x, r). (y # x, r)) (parse_string n t)))"

definition is_digit :: "char \<Rightarrow> bool" where
  "is_digit c \<longleftrightarrow> CHR ''0'' \<le> c \<and> c \<le> CHR ''9''"

text \<open>
  \<open>-?(0|[1-9][0-9]*)(.[0-9]+)?([eE][-+]?[0-9]+)?\<close>; the optional parts are taken only when they are
  complete, and make the number a float.
\<close>

definition take_int :: "string \<Rightarrow> (string \<times> string) option" where
  "take_int s =
     (case s of [] \<Rightarrow> None
      | c # t \<Rightarrow> if c = CHR ''0'' then Some (''0'', t)
                else if is_digit c then Some (takeWhile is_digit s, dropWhile is_digit s) else None)"

definition take_frac :: "string \<Rightarrow> string \<times> string" where
  "take_frac s =
     (case s of c # t \<Rightarrow>
        if c = CHR ''.'' \<and> takeWhile is_digit t \<noteq> [] then (takeWhile is_digit t, dropWhile is_digit t)
        else ([], s)
      | [] \<Rightarrow> ([], s))"

definition take_exp :: "string \<Rightarrow> int option \<times> string" where
  "take_exp s =
     (case s of c # t \<Rightarrow>
        (if c = CHR ''e'' \<or> c = CHR ''E'' then
           let neg = (t \<noteq> [] \<and> hd t = CHR ''-'');
               u = (if t \<noteq> [] \<and> (hd t = CHR ''-'' \<or> hd t = CHR ''+'') then tl t else t);
               ds = takeWhile is_digit u
           in if ds = [] then (None, s)
              else (map_option (\<lambda>n. if neg then - n else n) (read_digits 0 ds), dropWhile is_digit u)
         else (None, s))
      | [] \<Rightarrow> (None, s))"

definition parse_number :: "string \<Rightarrow> (pyval \<times> string) option" where
  "parse_number s =
     (let neg = (s \<noteq> [] \<and> hd s = CHR ''-''); t = (if neg then tl s else s)
      in case take_int t of None \<Rightarrow> None
         | Some (ds, r1) \<Rightarrow>
           (let (fs, r2) = take_frac r1; (ex, r3) = take_exp r2; sg = (if neg then - 1 else 1)
            in if fs = [] \<and> ex = None then
                 map_option (\<lambda>n. (PInt (sg * n), r1)) (read_digits 0 ds)
               else
                 map_option (\<lambda>n. (PFloat (double_of_rat (of_int (sg * n) *
                     pow10 ((case ex of None \<Rightarrow> 0 | Some x \<Rightarrow> x) - int (length fs)))), r3))
                   (read_digits 0 (ds @ fs))))"

fun parse_literal :: "(string \<times> pyval) list \<Rightarrow> string \<Rightarrow> (pyval \<times> string) option" where
  "parse_literal [] s = None"
| "parse_literal ((w, v) # ws) s =
     (if take (length w) s = w then Some (v, drop (length w) s) else parse_literal ws s)"

definition literals :: "(string \<times> pyval) list" where
  "literals = [(''null'', PNone), (''true'', PBool True), (''false'', PBool False),
     (''NaN'', PFloat FNaN), (''Infinity'', PFloat FPosInf), (''-Infinity'', PFloat FNegInf)]"

fun parse_value :: "nat \<Rightarrow> string \<Rightarrow> (pyval \<times> string) option"
  and parse_elems :: "nat \<Rightarrow> string \<Rightarrow> (pyval list \<times> string) option"
  and parse_members :: "nat \<Rightarrow> string \<Rightarrow> (pydict \<times> string) option" where
  "parse_value 0 s = None"
| "parse_value (Suc n) s =
     (case s of [] \<Rightarrow> None
      | c # t \<Rightarrow>
        if c = CHR 0x22 then map_option (\<lambda>(x, r). (PStr x, r)) (parse_string (length t) t)
        else if c = CHR ''{'' then
          (let u = skip_ws t in
           if u \<noteq> [] \<and> hd u = CHR ''}'' then Some (PDict [], tl u)
           else map_option (\<lambda>(d, r). (PDict (dupdate [] d), r)) (parse_members n u))
        else if c = CHR ''['' then
          (let u = skip_ws t in
           if u \<noteq> [] \<and> hd u = CHR '']'' then Some (PList [], tl u)
           else map_option (\<lambda>(vs, r). (PList vs, r)) (parse_elems n u))
        else case parse_literal literals s of Some x \<Rightarrow> Some x | None \<Rightarrow> parse_number s)"
| "parse_elems 0 s = None"
| "parse_elems (Suc n) s =
     (case parse_value n s of None \<Rightarrow> None
      | Some (v, r) \<Rightarrow>
        (case skip_ws r of [] \<Rightarrow> None
         | c # t \<Rightarrow> if c = CHR '']'' then Some ([v], t)
                   else if c = CHR '','' then
                     map_option (\<lambda>(vs, r2). (v # vs, r2)) (parse_elems n (skip_ws t))
                   else None))"
| "parse_members 0 s = None"
| "parse_members (Suc n) s =
     (case s of [] \<Rightarrow> None
      | c # s1 \<Rightarrow>
        if c \<noteq> CHR 0x22 then None
        else case parse_string (length s1) s1 of None \<Rightarrow> None
        | Some (k, s2) \<Rightarrow>
          (case skip_ws s2 of [] \<Rightarrow> None
           | c2 # s3 \<Rightarrow>
             if c2 \<noteq> CHR '':'' then None
             else case parse_value n (skip_ws s3) of None \<Rightarrow> None
             | Some (v, r) \<Rightarrow>
               (case skip_ws r of [] \<Rightarrow> None
                | c3 # t \<Rightarrow> if c3 = CHR ''}'' then Some ([(k, v)], t)
                          else if c3 = CHR '','' then
                            map_option (\<lambda>(d, r2). ((k, v) # d, r2)) (parse_members n (skip_ws t))
                          else None)))"

definition loads :: "string \<Rightarrow> pyval result" where
  "loads s =
     (case parse_value (Suc (length s)) (skip_ws s) of
        Some (v, r) \<Rightarrow> if skip_ws r = [] then Inr v else Inl (Exn JSONDecodeError ''Extra data'')
      | None \<Rightarrow> Inl (Exn JSONDecodeError ''Expecting value''))"

section \<open>Printing and parsing strings\<close>

lemma hex_val_digit_char: "0 \<le> d \<Longrightarrow> d < 16 \<Longrightarrow> hex_val (digit_char d) = Some d"
  by (auto simp: hex_val_def digit_char_def less_eq_char_def nat_of_char_of_int le_nat_iff nat_le_iff
      of_char_of)

lemma nibbles:
  "q = 16 * w + x \<Longrightarrow> m = 16 * y + z \<Longrightarrow> n = 256 * q + m \<Longrightarrow> 4096 * w + 256 * x + 16 * y + z = (n :: int)"
  by simp

lemma read_hex4_hex4:
  assumes "0 \<le> n" "n < 65536"
  shows "read_hex4 (hex4 n @ r) = Some (n, r)"
proof -
  have "4096 * (n div 256 div 16 mod 16) + 256 * (n div 256 mod 16) + 16 * (n mod 256 div 16 mod 16)
        + n mod 256 mod 16 = n"
  proof -
    have "n div 256 div 16 < 16" "n mod 256 div 16 < 16" using assms by auto
    moreover have "0 \<le> n div 256 div 16" "0 \<le> n mod 256 div 16" using assms by auto
    ultimately have e: "n div 256 div 16 mod 16 = n div 256 div 16"
        "n mod 256 div 16 mod 16 = n mod 256 div 16"
      by simp_all
    show ?thesis unfolding e
      by (rule nibbles[of "n div 256" _ _ "n mod 256"]; rule mult_div_mod_eq[symmetric])
  qed
  moreover have "hex_val (digit_char (k mod 16)) = Some (k mod 16)" for k
    by (rule hex_val_digit_char) simp_all
  ultimately show ?thesis
    by (simp only: hex4_def hex2_def append.simps read_hex4.simps prod.case option.case)
qed

lemma read_control_escape:
  assumes "c < CHR '' ''"
  shows "read_unicode (hex4 (of_char c) @ r) = Some ([c], r)"
proof -
  have "of_char c < (32 :: nat)" using assms by (simp add: less_char_def)
  then have "(of_char c :: int) < 32" by (metis of_nat_less_numeral_iff of_nat_of_char)
  moreover have "0 \<le> (of_char c :: int)" by (metis of_nat_0_le_iff of_nat_of_char)
  ultimately show ?thesis by (simp add: read_unicode_def read_hex4_hex4)
qed

lemma unescape_short_escape: "short_escape c = Some e \<Longrightarrow> unescape e = Some c \<and> e \<noteq> CHR ''u''"
  by (auto split: if_splits)

lemma parse_string_escape_char:
  "parse_string (Suc n) (escape_char c @ s) = map_option (\<lambda>(x, r). (c # x, r)) (parse_string n s)"
proof (cases "short_escape c")
  case (Some e)
  have "(CHR 0x5C :: char) \<noteq> CHR 0x22" "\<not> CHR 0x5C < CHR '' ''" by (simp_all add: less_char_def)
  with Some unescape_short_escape[OF Some] show ?thesis
    by (simp add: escape_char_def del: short_escape.simps unescape.simps)
next
  case None
  then have ne: "c \<noteq> CHR 0x22" "c \<noteq> CHR 0x5C" by auto
  show ?thesis
  proof (cases "c < CHR '' ''")
    case True
    have "\<not> CHR 0x5C < CHR '' ''" by (simp add: less_char_def)
    with True None show ?thesis
      by (simp add: escape_char_def u_escape_def read_control_escape del: short_escape.simps)
  qed (use ne None in \<open>simp add: escape_char_def del: short_escape.simps\<close>)
qed

lemma parse_string_escaped:
  "length s < n \<Longrightarrow> parse_string n (concat (map escape_char s) @ CHR 0x22 # r) = Some (s, r)"
proof (induction s arbitrary: n)
  case Nil
  then show ?case by (cases n) auto
next
  case (Cons c s)
  then obtain m where "n = Suc m" by (cases n) auto
  with Cons show ?case by (simp add: parse_string_escape_char)
qed

lemma length_escaped: "length s \<le> length (concat (map escape_char s))"
proof (induction s)
  case (Cons c s)
  have "1 \<le> length (escape_char c)" by (simp add: escape_char_def u_escape_def split: option.splits)
  with Cons show ?case by simp
qed simp

lemma parse_json_string:
  "parse_string (length (concat (map escape_char s) @ CHR 0x22 # r))
     (concat (map escape_char s) @ CHR 0x22 # r) = Some (s, r)"
  using length_escaped[of s] by (intro parse_string_escaped) simp

end
