(* ===== verification/Float_Text.thy ===== *)
theory Float_Text
  imports PyValue
begin

text \<open>
  The text of a float: \<open>repr\<close> writes digits that denote a decimal number near the double, and the
  double nearest to this number is the one printed. At most 17 digits are needed, because they are
  finer than the spacing of the doubles.
\<close>

section \<open>Doubles\<close>

definition is_double :: "rat \<Rightarrow> bool" where
  "is_double a \<longleftrightarrow> double_of_rat a = FFin a"

lemma round_half_even_near: "\<bar>x - of_int j\<bar> < 1 / 2 \<Longrightarrow> round_half_even x = j"
proof -
  assume "\<bar>x - of_int j\<bar> < 1 / 2"
  with round_half_even_bounds[of x] have "\<bar>of_int (round_half_even x) - of_int j\<bar> < (1 :: rat)" by linarith
  then have "\<bar>of_int (round_half_even x - j)\<bar> < (1 :: rat)" by simp
  then have "of_int \<bar>round_half_even x - j\<bar> < (of_int 1 :: rat)" by simp
  then have "\<bar>round_half_even x - j\<bar> < 1" by (simp only: of_int_less_iff)
  then show ?thesis by linarith
qed

definition grid :: "rat \<Rightarrow> int" where
  "grid a = max (ilog2 a - 52) (- 1074)"

lemma double_of_rat_pos:
  assumes "0 < a"
  shows "double_of_rat a = (let r = of_int (round_half_even (a / pow2 (grid a))) * pow2 (grid a)
    in if pow2 1024 \<le> r then FPosInf else FFin r)"
  using assms by (simp add: double_of_rat_def grid_def Let_def)

lemma is_double_grid:
  assumes "is_double a" "0 < a"
  obtains j where "a = of_int j * pow2 (grid a)" "a < pow2 1024"
proof -
  have "of_int (round_half_even (a / pow2 (grid a))) * pow2 (grid a) = a" "a < pow2 1024"
    using assms by (auto simp: is_double_def double_of_rat_pos Let_def split: if_splits)
  then show ?thesis using that[OF sym] by blast
qed

lemma pow2_multiple: "q \<le> k \<Longrightarrow> pow2 k = of_int (2 ^ nat (k - q)) * pow2 q"
  using pow2_add[of "k - q" q] by (simp add: pow2_def[of "k - q"])

text \<open>Two multiples of \<open>2 ^ q\<close> that differ differ by at least that.\<close>

lemma grid_gap:
  assumes "a = of_int i * pow2 q" "b = of_int j * pow2 q" "a < b"
  shows "a + pow2 q \<le> b"
proof -
  have "i < j" using assms by (simp add: mult_less_cancel_right)
  then have "(of_int (i + 1) :: rat) \<le> of_int j" by (simp only: of_int_le_iff)
  then have "of_int (i + 1) * pow2 q \<le> of_int j * pow2 q" by (rule mult_right_mono) simp
  with assms show ?thesis by (simp add: distrib_right)
qed

lemma ilog2_unique: "pow2 k \<le> x \<Longrightarrow> x < pow2 (k + 1) \<Longrightarrow> ilog2 x = k"
proof -
  assume k: "pow2 k \<le> x" "x < pow2 (k + 1)"
  have "0 < x" using k(1) pow2_pos[of k] by linarith
  note b = ilog2_bounds[OF this]
  have "pow2 k < pow2 (ilog2 x + 1)" "pow2 (ilog2 x) < pow2 (k + 1)" using k b by linarith+
  then show ?thesis by (simp add: not_le[symmetric])
qed

text \<open>A number nearer to a double than a part in \<open>2 ^ 54\<close> of it rounds to it.\<close>

lemma double_of_near:
  assumes a: "is_double a" "0 < a" and near: "\<bar>y - a\<bar> < a * pow2 (- 54)"
  shows "double_of_rat y = FFin a"
proof -
  define k where "k = ilog2 a"
  have k: "pow2 k \<le> a" "a < pow2 (k + 1)" using ilog2_bounds[OF a(2)] by (simp_all add: k_def)
  obtain j where j: "a = of_int j * pow2 (grid a)" and lt: "a < pow2 1024" by (rule is_double_grid[OF a])
  have "a * pow2 (- 54) < pow2 (k + 1) * pow2 (- 54)" using k(2) by (intro mult_strict_right_mono) auto
  then have d: "\<bar>y - a\<bar> < pow2 (k - 53)" using near by (simp add: pow2_add[symmetric])
  have g: "k - 52 \<le> grid a" "- 1074 \<le> grid a" by (simp_all add: grid_def k_def)
  have gk: "grid a \<le> k"
  proof (cases "- 1074 \<le> k")
    case False
    then have "grid a = - 1074" by (simp add: grid_def k_def)
    moreover have "of_int 0 * pow2 (grid a) + pow2 (grid a) \<le> a" by (rule grid_gap[OF refl j]) (use a in simp)
    ultimately have "pow2 (- 1074) < pow2 (k + 1)" using k(2) by simp
    then show ?thesis using False by (simp add: not_le[symmetric])
  qed (simp add: grid_def k_def)
  have "a + pow2 (grid a) \<le> pow2 (k + 1)" using gk by (intro grid_gap[OF j pow2_multiple k(2)]) simp
  moreover have "pow2 (k - 53) \<le> pow2 (grid a)" using g by simp
  ultimately have up: "y < pow2 (k + 1)" using d by linarith
  have half: "pow2 k = pow2 (k - 1) + pow2 (k - 1)" using pow2_double[of "k - 1"] by simp
  have "pow2 (k - 53) \<le> pow2 (k - 1)" by simp
  with half k(1) d have lo: "pow2 (k - 1) \<le> y" by linarith
  then have y: "0 < y" using pow2_pos[of "k - 1"] by linarith
  have "\<exists>i. a = of_int i * pow2 (grid y) \<and> \<bar>y - a\<bar> < pow2 (grid y - 1)"
  proof (cases "pow2 k \<le> y")
    case True
    then have "grid y = grid a" using ilog2_unique[OF True up] by (simp add: grid_def k_def)
    moreover have "pow2 (k - 53) \<le> pow2 (grid a - 1)" using g by simp
    ultimately show ?thesis using j d by (intro exI[of _ j]) (metis less_le_trans)
  next
    case False
    have "a = pow2 k"
    proof (rule ccontr)
      assume "a \<noteq> pow2 k"
      then have "pow2 k + pow2 (grid a) \<le> a" using k(1) by (intro grid_gap[OF pow2_multiple[OF gk] j]) simp
      with False d \<open>pow2 (k - 53) \<le> pow2 (grid a)\<close> show False by linarith
    qed
    have "ilog2 y = k - 1" using ilog2_unique[of "k - 1" y] lo False by simp
    then have gy: "grid y = max (k - 53) (- 1074)" by (simp add: grid_def)
    with gk g have "a = of_int (2 ^ nat (k - grid y)) * pow2 (grid y)"
      unfolding \<open>a = pow2 k\<close> by (intro pow2_multiple) simp
    moreover have "\<bar>y - a\<bar> < pow2 (k - 54)" using near by (simp add: \<open>a = pow2 k\<close> pow2_add[symmetric])
    moreover have "pow2 (k - 54) \<le> pow2 (grid y - 1)" by (simp add: gy)
    ultimately show ?thesis by (intro exI[of _ "2 ^ nat (k - grid y)"] conjI) (assumption, rule less_le_trans)
  qed
  then obtain i where i: "a = of_int i * pow2 (grid y)" and di: "\<bar>y - a\<bar> < pow2 (grid y - 1)" by blast
  have "y / pow2 (grid y) - of_int i = (y - a) / pow2 (grid y)" using i by (simp add: diff_divide_distrib)
  then have "\<bar>y / pow2 (grid y) - of_int i\<bar> = \<bar>y - a\<bar> / pow2 (grid y)" by (simp add: abs_divide)
  also have "\<dots> < pow2 (grid y - 1) / pow2 (grid y)" using di by (intro divide_strict_right_mono) auto
  also have "\<dots> = 1 / 2" using pow2_double[of "grid y - 1"] by (simp add: field_simps)
  finally have "round_half_even (y / pow2 (grid y)) = i" by (rule round_half_even_near)
  then show ?thesis using lt by (simp add: double_of_rat_pos[OF y] i[symmetric])
qed

lemma double_of_rat_neg: "double_of_rat (- z) = fneg (double_of_rat z)"
  by (auto simp: double_of_rat_def Let_def sgn_if)

text \<open>What rounding gives is a double.\<close>

lemma double_idem:
  assumes "double_of_rat x = FFin y"
  shows "is_double y"
proof -
  have pos: "is_double y" if "0 < x" "double_of_rat x = FFin y" for x y
  proof -
    define q where "q = grid x"
    define m where "m = round_half_even (x / pow2 q)"
    have y: "y = of_int m * pow2 q" "y < pow2 1024"
      using that by (auto simp: double_of_rat_pos Let_def m_def q_def split: if_splits)
    have k: "pow2 (ilog2 x) \<le> x" "x < pow2 (ilog2 x + 1)" using ilog2_bounds[OF that(1)] by auto
    have le: "y \<le> pow2 (max (ilog2 x + 1) (- 1074))"
    proof -
      have "x \<le> pow2 (max (ilog2 x + 1) (- 1074))" using k(2) pow2_le_iff[of "ilog2 x + 1" "max (ilog2 x + 1) (- 1074)"] by linarith
      then show ?thesis unfolding y(1) m_def by (rule grid_bound) (simp add: q_def grid_def)
    qed
    show ?thesis
    proof (cases "y = 0")
      case False
      have m0: "0 \<le> m" using that(1) round_half_even_mono_int[of 0 "x / pow2 q"] by (simp add: m_def)
      then have y0: "0 < y" using False y(1) by (simp add: order_less_le)
      have "\<exists>i. y = of_int i * pow2 (grid y)"
      proof (cases "grid y \<le> q")
        case True
        have "y = of_int (m * 2 ^ nat (q - grid y)) * pow2 (grid y)"
          by (rule trans[OF y(1)]) (subst pow2_multiple[OF True], simp)
        then show ?thesis by blast
      next
        case False
        have "pow2 (ilog2 y) \<le> pow2 (max (ilog2 x + 1) (- 1074))" using ilog2_bounds(1)[OF y0] le by linarith
        then have "ilog2 y = ilog2 x + 1" "- 1074 \<le> ilog2 x + 1" using False by (auto simp: q_def grid_def split: if_splits)
        then have "max (ilog2 x + 1) (- 1074) = ilog2 y" by simp
        then have "y = pow2 (ilog2 y)" using ilog2_bounds(1)[OF y0] le by (intro antisym) simp_all
        moreover have "grid y \<le> ilog2 y" using False \<open>ilog2 y = ilog2 x + 1\<close> by (auto simp: q_def grid_def)
        ultimately have "y = of_int (2 ^ nat (ilog2 y - grid y)) * pow2 (grid y)"
          using pow2_multiple[of "grid y" "ilog2 y"] by (simp only:)
        then show ?thesis by blast
      qed
      then obtain i where i: "y = of_int i * pow2 (grid y)" by blast
      then have "y / pow2 (grid y) = of_int i" by (simp add: field_simps)
      then show ?thesis using y(2) i[symmetric] by (simp add: is_double_def double_of_rat_pos[OF y0])
    qed (simp add: is_double_def)
  qed
  note neg = double_of_rat_neg
  consider "x = 0" | "0 < x" | "0 < - x" by linarith
  then show ?thesis
  proof cases
    case 3
    have "double_of_rat (- x) = FFin (- y)" using neg[of x] assms by simp
    from pos[OF 3 this] have "double_of_rat (- y) = FFin (- y)" by (simp add: is_double_def)
    then show ?thesis using neg[of "- y"] by (simp add: is_double_def)
  qed (use assms pos in \<open>auto simp: is_double_def\<close>)
qed

section \<open>Decimal digits\<close>

lemma pow10_powi: "pow10 e = 10 powi e"
  by (simp add: pow10_def power_int_def inverse_eq_divide power_one_over)

lemma pow10_add: "pow10 (a + b) = pow10 a * pow10 b"
  unfolding pow10_powi by (rule power_int_add) simp

lemma pow10_pos [simp]: "0 < pow10 e"
  by (simp add: pow10_def)

lemma pow10_nonzero [simp]: "pow10 e \<noteq> 0"
  by (simp add: pow10_def)

lemma pow10_nat: "pow10 (int n) = 10 ^ n"
  by (simp add: pow10_def)

lemma show_base_bounds:
  "0 < n \<Longrightarrow> 10 ^ (length (show_base 10 n) - 1) \<le> n \<and> n < 10 ^ length (show_base 10 n)"
proof (induction "nat n" arbitrary: n rule: less_induct)
  case less
  show ?case
  proof (cases "n < 10")
    case False
    then have IH: "10 ^ (length (show_base 10 (n div 10)) - 1) \<le> n div 10 \<and> n div 10 < 10 ^ length (show_base 10 (n div 10))"
      using less by (intro less.hyps) auto
    obtain l where l: "length (show_base 10 (n div 10)) = Suc l" by (cases "show_base 10 (n div 10)") auto
    have "show_base 10 n = show_base 10 (n div 10) @ [digit_char (n mod 10)]" using False by (simp add: show_base.simps[of 10 n])
    with IH l show ?thesis by auto
  qed (use less in \<open>simp add: show_base.simps\<close>)
qed

lemma pow10_length:
  assumes "0 < n"
  shows "pow10 (int (length (show_int n)) - 1) \<le> of_int n" "of_int n < pow10 (int (length (show_int n)))"
proof -
  have e: "show_int n = show_base 10 n" using assms by (simp add: show_int_def)
  obtain l where l: "length (show_base 10 n) = Suc l" by (cases "show_base 10 n") auto
  have b: "10 ^ l \<le> n" "n < 10 ^ Suc l" using show_base_bounds[OF assms] l by simp_all
  have "(of_int (10 ^ l) :: rat) \<le> of_int n" "(of_int n :: rat) < of_int (10 ^ Suc l)"
    using b by (simp_all only: of_int_le_iff of_int_less_iff)
  then show "pow10 (int (length (show_int n)) - 1) \<le> of_int n" "of_int n < pow10 (int (length (show_int n)))"
    using pow10_nat[of l] pow10_nat[of "Suc l"] by (simp_all add: e l)
qed

lemma decimal_exp_le:
  assumes "0 < a"
  shows "pow10 (decimal_exp a) \<le> a"
proof -
  obtain p q where pq: "quotient_of a = (p, q)" by fastforce
  have q: "0 < q" using quotient_of_denom_pos[OF pq] .
  have a: "a = of_int p / of_int q" using quotient_of_div[OF pq] .
  with assms q have p: "0 < p" by (simp add: zero_less_divide_iff)
  let ?d = "int (length (show_int p)) - int (length (show_int q))"
  have "pow10 (?d - 1) * of_int q \<le> pow10 (?d - 1) * pow10 (int (length (show_int q)))"
    using pow10_length(2)[OF q] by (intro mult_left_mono) (auto intro: less_imp_le)
  also have "\<dots> = pow10 (int (length (show_int p)) - 1)" by (simp add: pow10_add[symmetric])
  finally have "pow10 (?d - 1) \<le> a" using pow10_length(1)[OF p] q by (simp add: a field_simps)
  then show ?thesis by (simp add: decimal_exp_def pq Let_def)
qed

lemma digits_positive:
  assumes "double_of_rat (of_int m * pow10 e) = FFin a" "0 < a" "0 \<le> m"
  shows "0 < m"
  using assms by (cases "m = 0") auto

text \<open>With 17 digits the decimal is within \<open>5 / 10 ^ 17\<close> of the double, relative to it.\<close>

lemma last_digits_read:
  assumes "is_double a" "0 < a" and e: "e = decimal_exp a - 16"
  shows "double_of_rat (of_int (round_half_even (a / pow10 e)) * pow10 e) = FFin a"
proof (rule double_of_near[OF assms(1,2)])
  let ?m = "round_half_even (a / pow10 e)"
  have "of_int ?m * pow10 e - a = (of_int ?m - a / pow10 e) * pow10 e" by (simp add: left_diff_distrib)
  then have "\<bar>of_int ?m * pow10 e - a\<bar> = \<bar>of_int ?m - a / pow10 e\<bar> * pow10 e" by (simp only: abs_mult abs_of_pos pow10_pos)
  also have "\<bar>of_int ?m - a / pow10 e\<bar> \<le> 1 / 2" using round_half_even_bounds[of "a / pow10 e"] by linarith
  then have "\<bar>of_int ?m - a / pow10 e\<bar> * pow10 e \<le> 1 / 2 * pow10 e" by (rule mult_right_mono) (simp add: less_imp_le)
  finally have d: "\<bar>of_int ?m * pow10 e - a\<bar> \<le> 1 / 2 * pow10 e" .
  have "pow10 e * 10 ^ 16 = pow10 (decimal_exp a)" using pow10_add[of e 16] by (simp add: e pow10_def[of 16])
  then have "pow10 e * 10000000000000000 \<le> a" using decimal_exp_le[OF assms(2)] by simp
  moreover have "0 < pow10 e" by simp
  moreover have "D < a / 18014398509481984" if "D \<le> 1 / 2 * p" "p * 10000000000000000 \<le> a" "0 < p" for D p :: rat
    using that by simp
  ultimately have "\<bar>of_int ?m * pow10 e - a\<bar> < a / 18014398509481984" using d by blast
  moreover have "pow2 (- 54) = 1 / 18014398509481984" by (simp add: pow2_def)
  ultimately show "\<bar>of_int ?m * pow10 e - a\<bar> < a * pow2 (- 54)" by (simp only: times_divide_eq_right mult_1_right)
qed

lemma shortest_digits_read:
  assumes "is_double a" "0 < a" "shortest_digits n k a = (m, e)"
  shows "double_of_rat (of_int m * pow10 e) = FFin a \<and> 0 < m"
  using assms
proof (induction n k a rule: shortest_digits.induct)
  case (1 n a)
  then have e: "e = decimal_exp a - 16" and m: "m = round_half_even (a / pow10 e)" by (auto simp: Let_def)
  have "0 \<le> a / pow10 e" using 1(2) by (simp add: less_imp_le)
  then have "0 \<le> m" unfolding m by (intro round_half_even_mono_int) simp
  with last_digits_read[OF 1(1,2) e] 1(2) show ?case unfolding m by (metis digits_positive)
next
  case (2 n k a)
  let ?x = "a / pow10 (decimal_exp a - int n)"
  have x: "0 \<le> ?x" using 2(3) by (simp add: less_imp_le)
  then have "0 \<le> round_half_even ?x" "0 \<le> \<lfloor>?x\<rfloor>" "0 \<le> \<lfloor>?x\<rfloor> + 1" by (auto intro!: round_half_even_mono_int)
  with 2 show ?case by (auto simp: Let_def split: if_splits intro: digits_positive)
qed

end
