(* ===== verification/Json_Roundtrip.thy ===== *)
theory Json_Roundtrip
  imports Json Float_Text
begin

text \<open>
  \<open>json.loads\<close> gives back what \<open>json.dumps\<close> wrote, for every value Python can have; and what
  \<open>json.dumps\<close> writes has no control characters, so that a message is one line.
\<close>

section \<open>Printing and parsing values\<close>

text \<open>
  The values Python can have: finite floats are doubles, and the keys of a dictionary are distinct.
\<close>

fun json_value :: "pyval \<Rightarrow> bool" where
  "json_value (PFloat x) = (case x of FFin a \<Rightarrow> is_double a | _ \<Rightarrow> True)"
| "json_value (PList vs) = list_all json_value vs"
| "json_value (PDict d) = (dict_ok d \<and> list_all (\<lambda>(k, v). json_value v) d)"
| "json_value _ = True"

text \<open>What may follow a value inside a document.\<close>

definition value_end :: "string \<Rightarrow> bool" where
  "value_end r \<longleftrightarrow> r = [] \<or> hd r \<in> {CHR '','', CHR '']'', CHR ''}'', CHR 0x0A}"

lemma is_digit_digit_char: "0 \<le> d \<Longrightarrow> d < 10 \<Longrightarrow> is_digit (digit_char d)"
  by (simp add: is_digit_def digit_char_def less_eq_char_def nat_of_char_of_int le_nat_iff nat_le_iff)

lemma digit_char_zero: "0 < d \<Longrightarrow> d < 10 \<Longrightarrow> digit_char d \<noteq> CHR ''0''"
proof
  assume "0 < d" "d < 10" "digit_char d = CHR ''0''"
  then have "digit_val (CHR ''0'') = Some d" using digit_val_digit_char[of d] by simp
  then show False using \<open>0 < d\<close> by (simp add: digit_val_def)
qed

lemma show_base_digits:
  "0 \<le> n \<Longrightarrow> list_all is_digit (show_base 10 n) \<and> (0 < n \<longrightarrow> hd (show_base 10 n) \<noteq> CHR ''0'')"
proof (induction "nat n" arbitrary: n rule: less_induct)
  case less
  show ?case
  proof (cases "n < 10")
    case True
    with less.prems show ?thesis
      by (auto simp: show_base.simps is_digit_digit_char digit_char_zero)
  next
    case False
    then have "list_all is_digit (show_base 10 (n div 10)) \<and>
        (0 < n div 10 \<longrightarrow> hd (show_base 10 (n div 10)) \<noteq> CHR ''0'')"
      by (intro less.hyps) auto
    with False show ?thesis
      by (simp add: show_base.simps[of 10 n] is_digit_digit_char pos_imp_zdiv_pos_iff)
  qed
qed

lemma take_int_show:
  assumes "0 \<le> n" "value_end r"
  shows "take_int (show_base 10 n @ r) = Some (show_base 10 n, r)"
proof (cases "n = 0")
  case True
  then show ?thesis by (simp add: show_base.simps take_int_def digit_char_def char_of_def)
next
  case False
  obtain c t where ct: "show_base 10 n = c # t" by (cases "show_base 10 n") auto
  have d: "list_all is_digit (c # t)" "c \<noteq> CHR ''0''"
    using show_base_digits[OF assms(1)] False assms(1) ct by auto
  have "takeWhile is_digit r = []" "dropWhile is_digit r = r"
    using assms(2) by (cases r; auto simp: value_end_def is_digit_def less_eq_char_def)+
  with d ct show ?thesis
    by (simp add: take_int_def takeWhile_append dropWhile_append list_all_iff)
qed

lemma parse_number_show:
  assumes "value_end r"
  shows "parse_number (show_int n @ r) = Some (PInt n, r)"
proof -
  have fe: "take_frac r = ([], r)" "take_exp r = (None, r)"
    using assms by (cases r; auto simp: value_end_def take_frac_def take_exp_def)+
  have minus: "hd (show_base 10 m @ r) \<noteq> CHR ''-''" if "0 \<le> m" for m
    using show_base_digits[OF that] by (cases "show_base 10 m") (auto simp: is_digit_def less_eq_char_def)
  show ?thesis
  proof (cases "n < 0")
    case True
    with fe assms show ?thesis
      by (simp add: parse_number_def show_int_def take_int_show read_show_base)
  next
    case False
    with fe assms minus[of n] show ?thesis
      by (simp add: parse_number_def show_int_def take_int_show read_show_base)
  qed
qed

section \<open>Printing and parsing floats\<close>

lemma value_end_digits:
  assumes "value_end r"
  shows "takeWhile is_digit (t @ r) = takeWhile is_digit t" "dropWhile is_digit (t @ r) = dropWhile is_digit t @ r"
proof -
  have "takeWhile is_digit r = []" "dropWhile is_digit r = r"
    using assms by (cases r; auto simp: value_end_def is_digit_def less_eq_char_def)+
  then show "takeWhile is_digit (t @ r) = takeWhile is_digit t" "dropWhile is_digit (t @ r) = dropWhile is_digit t @ r"
    by (induction t) simp_all
qed

lemma take_int_end: "value_end r \<Longrightarrow> s \<noteq> [] \<Longrightarrow> take_int (s @ r) = map_option (\<lambda>(d, t). (d, t @ r)) (take_int s)"
  using value_end_digits[of r "tl s"] by (cases s) (simp_all add: take_int_def)

lemma take_frac_end: "value_end r \<Longrightarrow> take_frac (s @ r) = (let (f, t) = take_frac s in (f, t @ r))"
  using value_end_digits[of r "tl s"] by (cases s; cases r) (auto simp: take_frac_def value_end_def)

lemma take_exp_end: "value_end r \<Longrightarrow> take_exp (s @ r) = (let (x, t) = take_exp s in (x, t @ r))"
proof (cases s)
  case Nil
  assume "value_end r"
  with Nil show ?thesis by (cases r) (auto simp: take_exp_def value_end_def)
next
  case (Cons c t)
  assume r: "value_end r"
  define u where "u = (\<lambda>t :: string. if t \<noteq> [] \<and> (hd t = CHR ''-'' \<or> hd t = CHR ''+'') then tl t else t)"
  have u: "u (t @ r) = u t @ r" "(t @ r \<noteq> [] \<and> hd (t @ r) = CHR ''-'') = (t \<noteq> [] \<and> hd t = CHR ''-'')"
    using r by (cases t; cases r; auto simp: u_def value_end_def)+
  show ?thesis
    unfolding Cons take_exp_def Let_def append_Cons list.case u_def[symmetric, THEN fun_cong, simplified] 
    using u value_end_digits[OF r, of "u t"] by (auto simp: u_def split: if_splits)
qed

lemma take_int_nonempty: "take_int s \<noteq> None \<Longrightarrow> s \<noteq> [] \<and> is_digit (hd s)"
  by (auto simp: take_int_def is_digit_def less_eq_char_def split: list.splits if_splits)

lemma parse_number_end:
  assumes "parse_number s = Some (PFloat x, [])" and "value_end r"
  shows "parse_number (s @ r) = Some (PFloat x, r)"
proof -
  define t where "t = (if s \<noteq> [] \<and> hd s = CHR ''-'' then tl s else s)"
  obtain ds r1 where i: "take_int t = Some (ds, r1)"
    using assms(1) by (auto simp: parse_number_def Let_def t_def[symmetric] split: option.splits)
  then have t: "t \<noteq> []" "is_digit (hd t)" using take_int_nonempty[of t] by auto
  have "s \<noteq> []" using t(1) by (auto simp: t_def)
  obtain fs r2 where f: "take_frac r1 = (fs, r2)" by fastforce
  obtain ex r3 where e: "take_exp r2 = (ex, r3)" by fastforce
  have "take_int (t @ r) = Some (ds, r1 @ r)" "take_frac (r1 @ r) = (fs, r2 @ r)" "take_exp (r2 @ r) = (ex, r3 @ r)"
    using take_int_end[OF assms(2) t(1)] take_frac_end[OF assms(2), of r1] take_exp_end[OF assms(2), of r2] i f e by auto
  with i f e \<open>s \<noteq> []\<close> assms(1) show ?thesis
    by (cases "hd s = CHR ''-''") (auto simp: parse_number_def Let_def t_def split: if_splits)
qed

lemma read_digits_total: "list_all is_digit s \<Longrightarrow> \<exists>n. read_digits acc s = Some n"
  by (induction acc s rule: read_digits.induct) (auto simp: is_digit_def digit_val_def)

lemma read_digits_zeros: "read_digits acc (replicate z (CHR ''0'')) = Some (acc * 10 ^ z)"
  by (induction z arbitrary: acc) (simp_all add: digit_val_def)

lemma digits_stop: "list_all is_digit s \<Longrightarrow> \<not> is_digit c \<Longrightarrow>
    takeWhile is_digit (s @ c # t) = s \<and> dropWhile is_digit (s @ c # t) = c # t"
  by (induction s) auto

lemma digits_all: "list_all is_digit s \<Longrightarrow> takeWhile is_digit s = s \<and> dropWhile is_digit s = []"
  by (induction s) auto

text \<open>The integral part of a number: no leading zero, unless it is zero.\<close>

definition integral :: "string \<Rightarrow> bool" where
  "integral s \<longleftrightarrow> s = ''0'' \<or> s \<noteq> [] \<and> list_all is_digit s \<and> hd s \<noteq> CHR ''0''"

lemma integral_unsigned: "integral s \<Longrightarrow> s \<noteq> [] \<and> hd s \<noteq> CHR ''-'' \<and> hd (s @ t) \<noteq> CHR ''-''"
  by (cases s) (auto simp: integral_def is_digit_def less_eq_char_def)

lemma take_int_integral: "integral s \<Longrightarrow> \<not> is_digit c \<Longrightarrow> take_int (s @ c # t) = Some (s, c # t)"
proof (cases "s = ''0''")
  case False
  assume "integral s" and c: "\<not> is_digit c"
  with False obtain d u where s: "s = d # u" "list_all is_digit s" "d \<noteq> CHR ''0''" by (cases s) (auto simp: integral_def)
  with digits_stop[OF s(2) c, of t] show ?thesis by (simp add: take_int_def)
qed (simp add: take_int_def)

lemma point_not_digit [simp]: "\<not> is_digit (CHR ''.'')" "\<not> is_digit (CHR ''e'')" "\<not> is_digit (CHR ''-'')" "\<not> is_digit (CHR ''+'')"
  by (simp_all add: is_digit_def less_eq_char_def)

lemma parse_fixed:
  assumes "integral s" "list_all is_digit fs" "fs \<noteq> []" "read_digits 0 (s @ fs) = Some n"
  shows "parse_number (s @ CHR ''.'' # fs) = Some (PFloat (double_of_rat (of_int n * pow10 (- int (length fs)))), [])"
proof -
  have "take_frac (CHR ''.'' # fs) = (fs, [])" using assms(3) by (simp add: take_frac_def digits_all[OF assms(2)])
  moreover have "take_exp [] = (None, [])" by (simp add: take_exp_def)
  ultimately show ?thesis using assms integral_unsigned[OF assms(1), of "CHR ''.'' # fs"] take_int_integral[OF assms(1), of "CHR ''.''" fs]
    by (simp add: parse_number_def Let_def)
qed

lemma parse_scientific:
  assumes "integral s" "list_all is_digit fs" "list_all is_digit xs" "xs \<noteq> []" "read_digits 0 (s @ fs) = Some n"
    and "read_digits 0 xs = Some x" "sg \<in> {CHR ''+'', CHR ''-''}"
  shows "parse_number (s @ (if fs = [] then [] else CHR ''.'' # fs) @ CHR ''e'' # sg # xs) =
    Some (PFloat (double_of_rat (of_int n * pow10 ((if sg = CHR ''-'' then - x else x) - int (length fs)))), [])"
proof -
  let ?t = "CHR ''e'' # sg # xs"
  have ex: "take_exp ?t = (Some (if sg = CHR ''-'' then - x else x), [])"
    using assms(3,4,6,7) by (auto simp: take_exp_def Let_def list_all_iff digits_all[OF assms(3)])
  show ?thesis
  proof (cases "fs = []")
    case True
    have "take_frac ?t = ([], ?t)" by (simp add: take_frac_def)
    then show ?thesis using assms(5) True ex integral_unsigned[OF assms(1), of ?t] take_int_integral[OF assms(1), of "CHR ''e''" "sg # xs"]
      by (simp add: parse_number_def Let_def)
  next
    case False
    have "take_frac (CHR ''.'' # fs @ ?t) = (fs, ?t)" using False digits_stop[OF assms(2), of "CHR ''e''" "sg # xs"] by (simp add: take_frac_def)
    then show ?thesis using assms(5) False ex integral_unsigned[OF assms(1), of "CHR ''.'' # fs @ ?t"]
        take_int_integral[OF assms(1), of "CHR ''.''" "fs @ ?t"]
      by (simp add: parse_number_def Let_def)
  qed
qed

lemma parse_negative:
  assumes "parse_number s = Some (PFloat x, [])" "s \<noteq> []" "hd s \<noteq> CHR ''-''"
  shows "parse_number (CHR ''-'' # s) = Some (PFloat (fneg x), [])"
  using assms by (auto simp: parse_number_def Let_def double_of_rat_neg[symmetric] split: option.splits prod.splits if_splits)

text \<open>The digits of a positive integer without its trailing zeros.\<close>

lemma stripped_digits:
  assumes "0 < m" and "ds = rev (dropWhile ((=) (CHR ''0'')) (rev (show_int m)))"
  obtains M z where "show_int m = ds @ replicate z (CHR ''0'')" "list_all is_digit ds" "ds \<noteq> []" "hd ds \<noteq> CHR ''0''"
    "read_digits 0 ds = Some M" "m = M * 10 ^ z"
proof -
  let ?s = "show_int m"
  define z where "z = length (takeWhile ((=) (CHR ''0'')) (rev ?s))"
  have s: "?s = show_base 10 m" using assms(1) by (simp add: show_int_def)
  have d: "list_all is_digit ?s" "hd ?s \<noteq> CHR ''0''" using show_base_digits[of m] assms(1) by (simp_all add: s)
  have "takeWhile ((=) (CHR ''0'')) (rev ?s) = replicate z (CHR ''0'')"
    unfolding z_def by (rule replicate_length_same[symmetric]) (auto dest: set_takeWhileD)
  then have split: "?s = ds @ replicate z (CHR ''0'')"
    using takeWhile_dropWhile_id[of "(=) (CHR ''0'')" "rev ?s"] unfolding assms(2) by (metis rev_append rev_replicate rev_rev_ident)
  have ne: "ds \<noteq> []"
  proof
    assume "ds = []"
    with split have "?s = replicate z (CHR ''0'')" by simp
    with d(2) show False using show_base_nonempty[of 10 m] by (cases z) (auto simp: s)
  qed
  have dd: "list_all is_digit ds" using d(1) split by (metis list_all_append)
  obtain M where M: "read_digits 0 ds = Some M" using read_digits_total[OF dd] by blast
  have "read_digits 0 ?s = Some m" using assms(1) by (simp add: s read_show_base)
  then have "m = M * 10 ^ z" unfolding split by (simp add: read_digits_append M read_digits_zeros)
  moreover have "hd ds \<noteq> CHR ''0''" using d(2) split ne by (metis hd_append2)
  ultimately show ?thesis using that[OF split dd ne _ M] by blast
qed

lemma scaled: "of_int (M * 10 ^ z) * pow10 e = of_int M * pow10 (int z + e)"
  by (simp add: pow10_add pow10_nat)

lemma parse_float_repr_pos:
  assumes "is_double a" "0 < a"
  shows "parse_number (float_repr_pos a) = Some (PFloat (FFin a), []) \<and> float_repr_pos a \<noteq> [] \<and> hd (float_repr_pos a) \<noteq> CHR ''-''"
proof -
  obtain m e where me: "shortest_digits 0 16 a = (m, e)" by fastforce
  have read: "double_of_rat (of_int m * pow10 e) = FFin a" and m: "0 < m" using shortest_digits_read[OF assms me] by auto
  define ds where "ds = rev (dropWhile ((=) (CHR ''0'')) (rev (show_int m)))"
  obtain M z where ds: "show_int m = ds @ replicate z (CHR ''0'')" "list_all is_digit ds" "ds \<noteq> []" "hd ds \<noteq> CHR ''0''"
    and M: "read_digits 0 ds = Some M" "m = M * 10 ^ z" by (rule stripped_digits[OF m ds_def])
  define n where "n = int (length ds)"
  define pt where "pt = n + int z + e"
  have val: "double_of_rat (of_int M * pow10 (pt - n)) = FFin a" using read unfolding M(2) scaled by (simp add: pt_def)
  have len: "int (length (show_int m)) + e = pt" by (simp add: ds(1) pt_def n_def)
  have n: "0 < n" using ds(3) by (simp add: n_def)
  have int_ds: "integral ds" using ds by (simp add: integral_def)
  note repr = float_repr_pos_def[of a, unfolded me Let_def fst_conv snd_conv, folded ds_def, unfolded len, folded n_def]
  consider (small) "- 4 < pt" "pt \<le> 0" | (whole) "- 4 < pt" "0 < pt" "pt \<le> 16" "n \<le> pt"
    | (mixed) "- 4 < pt" "0 < pt" "pt \<le> 16" "pt < n" | (sci) "\<not> (- 4 < pt \<and> pt \<le> 16)" by linarith
  then show ?thesis
  proof cases
    case small
    let ?fs = "replicate (nat (- pt)) (CHR ''0'') @ ds"
    have eq: "float_repr_pos a = ''0'' @ CHR ''.'' # ?fs" using small by (simp add: repr)
    have "read_digits 0 (''0'' @ ?fs) = Some M" by (simp add: read_digits_append read_digits_zeros M(1) digit_val_def)
    moreover have "list_all is_digit ?fs" using ds(2) by (auto simp: list_all_iff is_digit_def less_eq_char_def)
    ultimately have "parse_number (float_repr_pos a) = Some (PFloat (double_of_rat (of_int M * pow10 (- int (length ?fs)))), [])"
      unfolding eq using ds(3) by (intro parse_fixed) (simp_all add: integral_def)
    moreover have "- int (length ?fs) = pt - n" using small by (simp add: n_def)
    ultimately show ?thesis using val eq by (simp only:) simp
  next
    case whole
    let ?is = "ds @ replicate (nat (pt - n)) (CHR ''0'')"
    have eq: "float_repr_pos a = ?is @ CHR ''.'' # ''0''" using whole by (simp add: repr)
    have i: "integral ?is" using ds by (auto simp: integral_def list_all_iff is_digit_def less_eq_char_def)
    have "read_digits 0 (?is @ ''0'') = Some (M * 10 ^ nat (pt - n) * 10)"
      by (simp add: read_digits_append read_digits_zeros M(1) digit_val_def)
    from parse_fixed[OF i _ _ this] have "parse_number (float_repr_pos a) =
        Some (PFloat (double_of_rat (of_int (M * 10 ^ nat (pt - n) * 10) * pow10 (- 1))), [])"
      unfolding eq by (simp add: is_digit_def less_eq_char_def)
    moreover have "of_int (M * 10 ^ nat (pt - n) * 10) * pow10 (- 1) = of_int M * pow10 (pt - n)"
      using whole(4) by (simp add: pow10_def)
    ultimately have "parse_number (float_repr_pos a) = Some (PFloat (FFin a), [])" by (simp only: val)
    then show ?thesis using eq integral_unsigned[OF i] by simp
  next
    case mixed
    let ?is = "take (nat pt) ds" and ?fs = "drop (nat pt) ds"
    have eq: "float_repr_pos a = ?is @ CHR ''.'' # ?fs" using mixed by (simp add: repr)
    have l: "list_all is_digit ?is" "list_all is_digit ?fs" using ds(2) by (metis append_take_drop_id list_all_append)+
    have i: "integral ?is" using l(1) ds mixed by (cases ds) (auto simp: integral_def take_Cons' n_def)
    have "parse_number (float_repr_pos a) = Some (PFloat (double_of_rat (of_int M * pow10 (- int (length ?fs)))), [])"
      unfolding eq using i l(2) mixed M(1) by (intro parse_fixed) (simp_all add: n_def)
    moreover have "- int (length ?fs) = pt - n" using mixed by (simp add: n_def)
    ultimately show ?thesis using val eq integral_unsigned[OF i] by simp
  next
    case sci
    let ?fs = "drop 1 ds" and ?sg = "if pt - 1 < 0 then CHR ''-'' else CHR ''+''" and ?x = "show_int \<bar>pt - 1\<bar>"
    let ?xs = "if length ?x < 2 then ''0'' @ ?x else ?x"
    have eq: "float_repr_pos a = take 1 ds @ (if ?fs = [] then [] else CHR ''.'' # ?fs) @ CHR ''e'' # ?sg # ?xs"
      using sci n ds(3) by (cases ds) (auto simp: repr n_def)
    have l: "list_all is_digit ?fs" using ds(2) by (metis append_take_drop_id list_all_append)
    have i: "integral (take 1 ds)" using ds by (cases ds) (auto simp: integral_def)
    have x: "list_all is_digit ?xs" "?xs \<noteq> []" "read_digits 0 ?xs = Some \<bar>pt - 1\<bar>"
      using show_base_digits[of "\<bar>pt - 1\<bar>"] read_show_base[of "\<bar>pt - 1\<bar>"]
      by (auto simp: show_int_def is_digit_def less_eq_char_def digit_val_def)
    have rd: "read_digits 0 (take 1 ds @ ?fs) = Some M" using M(1) by simp
    have "(if ?sg = CHR ''-'' then - \<bar>pt - 1\<bar> else \<bar>pt - 1\<bar>) - int (length ?fs) = pt - n" using ds(3) by (cases ds) (auto simp: n_def)
    with parse_scientific[OF i l x(1,2) rd x(3), of ?sg] val have "parse_number (float_repr_pos a) = Some (PFloat (FFin a), [])"
      unfolding eq by (simp split: if_splits)
    then show ?thesis using eq integral_unsigned[OF i] by simp
  qed
qed

lemma float_number:
  assumes "is_double a"
  shows "parse_number (json_float (FFin a)) = Some (PFloat (FFin a), [])"
proof -
  have zero: "parse_number ''0.0'' = Some (PFloat (FFin 0), [])"
    using parse_fixed[of "''0''" "''0''" 0] by (simp add: integral_def is_digit_def less_eq_char_def digit_val_def)
  have "is_double (- a)" using assms by (simp add: is_double_def double_of_rat_neg)
  then show ?thesis using assms zero parse_float_repr_pos[of a] parse_float_repr_pos[of "- a"]
      parse_negative[of "float_repr_pos (- a)" "FFin (- a)"] by auto
qed

lemma number_shape:
  assumes "parse_number s = Some (PFloat x, [])"
  obtains d t where "s = d # t" "is_digit d" | d t where "s = CHR ''-'' # d # t" "is_digit d"
proof (cases "s \<noteq> [] \<and> hd s = CHR ''-''")
  case True
  then have "take_int (tl s) \<noteq> None" using assms by (auto simp: parse_number_def split: option.splits)
  then have "tl s \<noteq> []" "is_digit (hd (tl s))" using take_int_nonempty by auto
  with True that(2) show ?thesis by (metis list.collapse)
next
  case False
  then have "take_int s \<noteq> None" using assms by (auto simp: parse_number_def split: option.splits)
  then have "s \<noteq> []" "is_digit (hd s)" using take_int_nonempty by auto
  with that(1) show ?thesis by (metis list.collapse)
qed

lemma parse_value_float:
  assumes "json_value (PFloat x)" "value_end r"
  shows "parse_value (Suc m) (json_float x @ r) = Some (PFloat x, r)"
proof (cases x)
  case (FFin a)
  then have num: "parse_number (json_float x) = Some (PFloat x, [])" using assms(1) float_number by simp
  note full = parse_number_end[OF num assms(2)]
  from num show ?thesis
  proof (cases rule: number_shape)
    case (1 d t)
    then have "d \<noteq> CHR 0x22" "d \<noteq> CHR ''{''" "d \<noteq> CHR ''[''" "d \<noteq> CHR ''n''" "d \<noteq> CHR ''t''"
        "d \<noteq> CHR ''f''" "d \<noteq> CHR ''N''" "d \<noteq> CHR ''I''" "d \<noteq> CHR ''-''"
      by (auto simp: is_digit_def less_eq_char_def)
    with full 1(1) show ?thesis by (simp add: literals_def)
  next
    case (2 d t)
    then have "d \<noteq> CHR ''I''" by (auto simp: is_digit_def less_eq_char_def)
    with full 2(1) show ?thesis by (simp add: literals_def)
  qed
qed (simp_all add: literals_def)

lemma json_float_start:
  assumes "json_value (PFloat x)"
  obtains c t where "json_float x = c # t" "is_digit c \<or> c \<in> {CHR ''-'', CHR ''I'', CHR ''N''}"
proof (cases x)
  case (FFin a)
  then have "parse_number (json_float x) = Some (PFloat x, [])" using assms float_number by simp
  then show ?thesis by (rule number_shape) (use that in auto)
qed (use that in auto)

section \<open>Values\<close>

lemma show_int_shape:
  obtains d t where "show_int n = d # t" "is_digit d"
  | d t where "show_int n = CHR ''-'' # d # t" "is_digit d"
proof (cases "n < 0")
  case True
  then have "list_all is_digit (show_base 10 (- n))" using show_base_digits[of "- n"] by simp
  with True that(2) show ?thesis
    by (cases "show_base 10 (- n)") (auto simp: show_int_def)
next
  case False
  then have "list_all is_digit (show_base 10 n)" using show_base_digits[of n] by simp
  with False that(1) show ?thesis
    by (cases "show_base 10 n") (auto simp: show_int_def)
qed

lemma parse_value_int:
  assumes "value_end r"
  shows "parse_value (Suc m) (show_int n @ r) = Some (PInt n, r)"
proof (cases n rule: show_int_shape)
  case (1 d t)
  then have "d \<noteq> CHR 0x22" "d \<noteq> CHR ''{''" "d \<noteq> CHR ''[''" "d \<noteq> CHR ''n''" "d \<noteq> CHR ''t''"
      "d \<noteq> CHR ''f''" "d \<noteq> CHR ''N''" "d \<noteq> CHR ''I''" "d \<noteq> CHR ''-''"
    by (auto simp: is_digit_def less_eq_char_def)
  with parse_number_show[OF assms, of n] 1(1) show ?thesis by (simp add: literals_def)
next
  case (2 d t)
  then have "d \<noteq> CHR ''I''" by (auto simp: is_digit_def less_eq_char_def)
  with parse_number_show[OF assms, of n] 2(1) show ?thesis by (simp add: literals_def)
qed

definition value_start :: "char \<Rightarrow> bool" where
  "value_start c \<longleftrightarrow> \<not> json_ws c \<and> c \<noteq> CHR '']'' \<and> c \<noteq> CHR ''}''"

lemma dumps_start:
  assumes "json_value v"
  obtains c t where "dumps asc v = c # t" "value_start c"
proof (cases v)
  case (PInt n)
  have "value_start c" if "is_digit c" for c
    using that by (auto simp: value_start_def json_ws_def is_digit_def less_eq_char_def)
  moreover have "value_start (CHR ''-'')" by (simp add: value_start_def json_ws_def)
  ultimately show ?thesis using PInt that by (cases n rule: show_int_shape) auto
next
  case (PFloat x)
  have "value_start c" if "is_digit c \<or> c \<in> {CHR ''-'', CHR ''I'', CHR ''N''}" for c
    using that by (auto simp: value_start_def json_ws_def is_digit_def less_eq_char_def)
  moreover have "json_value (PFloat x)" using assms PFloat by simp
  ultimately show ?thesis using that PFloat by (elim json_float_start) auto
next
  case (PBool b)
  with that show ?thesis by (cases b) (auto simp: value_start_def json_ws_def)
qed (use that assms in \<open>auto simp: value_start_def json_ws_def json_string_def split: if_splits\<close>)

lemma skip_ws_start: "value_start c \<Longrightarrow> skip_ws (c # t) = c # t"
  by (simp add: skip_ws_def value_start_def)

lemma skip_ws_dumps: "json_value v \<Longrightarrow> skip_ws (dumps asc v @ r) = dumps asc v @ r"
  by (rule dumps_start[of v asc]) (auto simp: skip_ws_start)

lemma skip_ws_punct [simp]:
  "skip_ws (CHR '','' # r) = CHR '','' # r" "skip_ws (CHR '']'' # r) = CHR '']'' # r"
  "skip_ws (CHR ''}'' # r) = CHR ''}'' # r" "skip_ws (CHR '':'' # r) = CHR '':'' # r"
  "skip_ws (CHR 0x22 # r) = CHR 0x22 # r"
  by (simp_all add: skip_ws_def json_ws_def)

lemma value_end_punct [simp]:
  "value_end []" "value_end (CHR '','' # r)" "value_end (CHR '']'' # r)" "value_end (CHR ''}'' # r)"
  "value_end [CHR 0x0A]"
  by (simp_all add: value_end_def)

definition prints_back :: "pyval \<Rightarrow> bool" where
  "prints_back v \<longleftrightarrow> (\<forall>n r. length (dumps False v) \<le> n \<longrightarrow> value_end r \<longrightarrow>
     parse_value n (dumps False v @ r) = Some (v, r))"

lemma prints_backD:
  "prints_back v \<Longrightarrow> length (dumps False v) \<le> n \<Longrightarrow> value_end r \<Longrightarrow>
   parse_value n (dumps False v @ r) = Some (v, r)"
  by (simp add: prints_back_def)

lemma parse_elems_dumps:
  assumes "vs \<noteq> []" "\<And>v. v \<in> set vs \<Longrightarrow> prints_back v \<and> json_value v"
    and "length (join '','' (map (dumps False) vs)) < n"
  shows "parse_elems n (join '','' (map (dumps False) vs) @ CHR '']'' # r) = Some (vs, r)"
  using assms
proof (induction vs arbitrary: n)
  case (Cons v vs)
  then obtain m where n: "n = Suc m" by (cases n) auto
  show ?case
  proof (cases vs)
    case Nil
    with Cons.prems n show ?thesis by (simp add: prints_backD)
  next
    case (Cons w ws)
    have "parse_elems m (join '','' (map (dumps False) vs) @ CHR '']'' # r) = Some (vs, r)"
      using Cons Cons.IH Cons.prems n by simp
    moreover have "parse_value m (dumps False v @ CHR '','' # (join '','' (map (dumps False) vs) @ CHR '']'' # r))
        = Some (v, CHR '','' # (join '','' (map (dumps False) vs) @ CHR '']'' # r))"
      using Cons Cons.prems n by (intro prints_backD) auto
    moreover have "skip_ws (join '','' (map (dumps False) vs) @ CHR '']'' # r) =
        join '','' (map (dumps False) vs) @ CHR '']'' # r"
      using Cons Cons.prems skip_ws_dumps[of w False] by (cases ws) auto
    ultimately show ?thesis using Cons n by simp
  qed
qed simp

definition member_text :: "string \<times> pyval \<Rightarrow> string" where
  "member_text kv = (case kv of (k, v) \<Rightarrow> json_string False k @ '':'' @ dumps False v)"

lemma dumps_dict: "dumps False (PDict d) = ''{'' @ join '','' (map member_text d) @ ''}''"
  by (simp add: member_text_def[abs_def])

lemma parse_member_head:
  assumes "prints_back v" "json_value v" "length (dumps False v) \<le> m" "value_end r"
  shows "parse_members (Suc m) (member_text (k, v) @ r) =
     (case skip_ws r of [] \<Rightarrow> None
      | c3 # t \<Rightarrow> if c3 = CHR ''}'' then Some ([(k, v)], t)
                else if c3 = CHR '','' then
                  map_option (\<lambda>(d, r2). ((k, v) # d, r2)) (parse_members m (skip_ws t))
                else None)"
  using parse_json_string[of k "CHR '':'' # dumps False v @ r"] assms
  by (simp add: member_text_def json_string_def prints_backD skip_ws_dumps)

lemma join_members_start: "join '','' (map member_text (kv # d)) @ r = CHR 0x22 # tl (join '','' (map member_text (kv # d)) @ r)"
  by (cases kv; cases d) (simp_all add: member_text_def json_string_def)

lemma parse_members_dumps:
  assumes "d \<noteq> []" "\<And>k v. (k, v) \<in> set d \<Longrightarrow> prints_back v \<and> json_value v"
    and "length (join '','' (map member_text d)) < n"
  shows "parse_members n (join '','' (map member_text d) @ CHR ''}'' # r) = Some (d, r)"
  using assms
proof (induction d arbitrary: n)
  case (Cons kv d)
  obtain k v where kv: "kv = (k, v)" by fastforce
  from Cons.prems obtain m where n: "n = Suc m" by (cases n) auto
  have v: "prints_back v" "json_value v" using Cons.prems kv by auto
  have vlen: "length (dumps False v) \<le> length (member_text kv)" by (simp add: kv member_text_def)
  show ?case
  proof (cases d)
    case Nil
    with Cons.prems n vlen v show ?thesis by (simp add: kv parse_member_head del: parse_members.simps)
  next
    case (Cons w ws)
    have rest: "parse_members m (join '','' (map member_text d) @ CHR ''}'' # r) = Some (d, r)"
    proof (rule Cons.IH)
      show "prints_back u \<and> json_value u" if "(j, u) \<in> set d" for j u
        using that Cons.prems(2) by auto
    qed (use Cons Cons.prems n in auto)
    have ws: "skip_ws (join '','' (map member_text d) @ CHR ''}'' # r) =
        join '','' (map member_text d) @ CHR ''}'' # r"
      unfolding Cons by (subst (1 2) join_members_start) simp
    have "length (dumps False v) \<le> m" using Cons Cons.prems n vlen by simp
    with v rest ws show ?thesis by (simp add: n kv Cons parse_member_head del: parse_members.simps)
  qed
qed simp

lemma dupdate_fresh: "dict_ok (d @ e) \<Longrightarrow> dupdate d e = d @ e"
proof (induction e arbitrary: d)
  case (Cons kv e)
  obtain k v where kv: "kv = (k, v)" by fastforce
  have "k \<notin> set (map fst d)" using Cons.prems by (auto simp: kv dict_ok_def)
  then have "dset d k v = d @ [(k, v)]" by (induction d k v rule: dset.induct) auto
  with Cons.IH[of "d @ [(k, v)]"] Cons.prems show ?case by (simp add: kv dupdate_def)
qed (simp add: dupdate_def)

lemma prints_backI:
  assumes "dumps False v \<noteq> []"
    and "\<And>m r. length (dumps False v) \<le> Suc m \<Longrightarrow> value_end r \<Longrightarrow>
           parse_value (Suc m) (dumps False v @ r) = Some (v, r)"
  shows "prints_back v"
  unfolding prints_back_def
proof (intro allI impI)
  fix n r assume n: "length (dumps False v) \<le> n" and r: "value_end r"
  then obtain m where "n = Suc m" using assms(1) by (cases n) auto
  with n r assms(2)[of m r] show "parse_value n (dumps False v @ r) = Some (v, r)"
    by (simp del: parse_value.simps)
qed

lemma prints_back_list:
  assumes "\<And>v. v \<in> set vs \<Longrightarrow> prints_back v \<and> json_value v"
  shows "prints_back (PList vs)"
proof (rule prints_backI)
  fix m r assume n: "length (dumps False (PList vs)) \<le> Suc m"
  show "parse_value (Suc m) (dumps False (PList vs) @ r) = Some (PList vs, r)"
  proof (cases vs)
    case (Cons w ws)
    then obtain c t where ct: "dumps False w = c # t" "value_start c"
      using assms dumps_start[of w False] by auto
    have st: "\<exists>t. join '','' (map (dumps False) vs) @ CHR '']'' # r = c # t"
      using ct Cons by (cases ws) auto
    have "parse_elems m (join '','' (map (dumps False) vs) @ CHR '']'' # r) = Some (vs, r)"
      using assms n Cons by (intro parse_elems_dumps) auto
    with st ct(2) show ?thesis by (auto simp: skip_ws_start value_start_def)
  qed simp
qed simp

lemma prints_back_dict:
  assumes "dict_ok d" "\<And>k v. (k, v) \<in> set d \<Longrightarrow> prints_back v \<and> json_value v"
  shows "prints_back (PDict d)"
proof (rule prints_backI)
  fix m r assume n: "length (dumps False (PDict d)) \<le> Suc m"
  show "parse_value (Suc m) (dumps False (PDict d) @ r) = Some (PDict d, r)"
  proof (cases d)
    case (Cons w ws)
    have st: "\<exists>t. join '','' (map member_text d) @ CHR ''}'' # r = CHR 0x22 # t"
      unfolding Cons by (subst join_members_start) blast
    have "parse_members m (join '','' (map member_text d) @ CHR ''}'' # r) = Some (d, r)"
      by (rule parse_members_dumps[OF _ assms(2)])
         (use Cons n in \<open>auto simp: dumps_dict simp del: dumps.simps\<close>)
    moreover have "dupdate [] d = d" using assms(1) dupdate_fresh[of "[]" d] by simp
    ultimately show ?thesis using st by (auto simp: dumps_dict simp del: dumps.simps)
  qed simp
qed simp

lemma prints_back_plain: "json_value v \<Longrightarrow> prints_back v"
proof (induction v)
  case (PList vs)
  then show ?case by (intro prints_back_list) (auto simp: list_all_iff)
next
  case (PDict d)
  show ?case
  proof (rule prints_back_dict)
    fix k u assume ku: "(k, u) \<in> set d"
    with PDict.prems have "json_value u" by (auto simp: list_all_iff)
    with PDict.IH[OF ku, of u] show "prints_back u \<and> json_value u" by simp
  qed (use PDict.prems in simp)
next
  case (PInt n)
  have "show_int n \<noteq> []" by (simp add: show_int_def)
  then show ?case by (intro prints_backI) (simp_all add: parse_value_int del: parse_value.simps)
next
  case (PFloat x)
  have "json_float x \<noteq> []" by (rule json_float_start[OF PFloat]) simp
  then show ?case using parse_value_float[OF PFloat] by (intro prints_backI) (simp_all del: parse_value.simps)
next
  case (PStr s)
  show ?case
    by (rule prints_backI) (use parse_json_string[of s] in \<open>simp_all add: json_string_def\<close>)
next
  case (PBool b)
  show ?case by (rule prints_backI) (cases b; simp add: literals_def)+
qed (auto intro!: prints_backI simp: literals_def)

lemma loads_dumps:
  assumes "json_value v" "value_end w" "skip_ws w = []"
  shows "loads (dumps False v @ w) = Inr v"
proof -
  have "parse_value (Suc (length (dumps False v @ w))) (dumps False v @ w) = Some (v, w)"
    by (rule prints_backD[OF prints_back_plain[OF assms(1)] _ assms(2)]) simp
  with assms(1,3) show ?thesis by (simp add: loads_def skip_ws_dumps del: parse_value.simps)
qed

text \<open>Whatever \<open>loads\<close> returns is such a value.\<close>

lemma json_value_dupdate:
  "list_all (\<lambda>(k, v). json_value v) d \<Longrightarrow> json_value (PDict (dupdate [] d))"
  by (simp add: list_all_dupdate dict_ok_def[of "[]"])

lemma json_value_double: "json_value (PFloat (double_of_rat x))"
  using double_idem[of x] by (cases "double_of_rat x") auto

lemma parse_number_value: "parse_number s = Some (v, r) \<Longrightarrow> json_value v"
  using json_value_double
  by (auto simp: parse_number_def Let_def simp del: json_value.simps(1) split: option.splits prod.splits if_splits)

lemma parse_literal_value: "parse_literal literals s = Some (v, r) \<Longrightarrow> json_value v"
  by (auto simp: literals_def split: if_splits)

lemma parse_values:
  "parse_value n s = Some (v, r) \<Longrightarrow> json_value v"
  "parse_elems n s = Some (vs, r) \<Longrightarrow> list_all json_value vs"
  "parse_members n s = Some (d, r) \<Longrightarrow> list_all (\<lambda>(k, v). json_value v) d"
proof (induction n s and n s and n s arbitrary: v r and vs r and d r rule: parse_value_parse_elems_parse_members.induct)
  case (2 n s)
  then show ?case
    by (auto simp: Let_def json_value_dupdate[simplified] dict_ok_def[of "[]"] split: list.splits if_splits option.splits
        dest: parse_number_value parse_literal_value)
next
  case (4 n s)
  then show ?case by (auto split: list.splits if_splits option.splits)
next
  case (6 n s)
  then show ?case by (fastforce split: list.splits if_splits option.splits)
qed auto

lemma loads_value: "loads s = Inr v \<Longrightarrow> json_value v"
  by (auto simp: loads_def simp del: parse_value.simps split: option.splits if_splits dest: parse_values(1))

section \<open>Printed text has no control characters\<close>

definition printable :: "string \<Rightarrow> bool" where
  "printable s \<longleftrightarrow> (\<forall>c \<in> set s. \<not> c < CHR '' '')"

lemma printable_simps [simp]:
  "printable []" "printable (c # s) \<longleftrightarrow> \<not> c < CHR '' '' \<and> printable s"
  "printable (s @ t) \<longleftrightarrow> printable s \<and> printable t"
  by (auto simp: printable_def)

lemma printable_sub: "set s \<subseteq> set t \<Longrightarrow> printable t \<Longrightarrow> printable s"
  by (auto simp: printable_def)

lemma printable_concat: "(\<And>s. s \<in> set ss \<Longrightarrow> printable s) \<Longrightarrow> printable (concat ss)"
  by (auto simp: printable_def)

lemma printable_join:
  "printable sep \<Longrightarrow> (\<And>s. s \<in> set ss \<Longrightarrow> printable s) \<Longrightarrow> printable (join sep ss)"
  by (induction sep ss rule: join.induct) auto

lemma printable_show_int [simp]: "printable (show_int n)"
proof -
  have "printable (show_base 10 m)" if "0 \<le> m" for m
    using show_base_digits[OF that]
    by (auto simp: printable_def list_all_iff is_digit_def less_eq_char_def less_char_def)
  then show ?thesis by (simp add: show_int_def less_char_def)
qed

lemma printable_replicate [simp]: "\<not> c < CHR '' '' \<Longrightarrow> printable (replicate n c)"
  by (simp add: printable_def)

lemma printable_float_repr_pos: "printable (float_repr_pos a)"
proof -
  define ds where "ds = rev (dropWhile ((=) (CHR ''0'')) (rev (show_int (fst (shortest_digits 0 16 a)))))"
  have ds: "printable ds" unfolding ds_def
    by (rule printable_sub[OF _ printable_show_int[of "fst (shortest_digits 0 16 a)"]])
       (auto dest: set_dropWhileD)
  have "printable (take k ds)" "printable (drop k ds)" for k
    using ds by (auto intro: printable_sub dest: in_set_takeD in_set_dropD)
  with ds show ?thesis
    by (simp add: float_repr_pos_def Let_def ds_def[symmetric] less_char_def)
qed

lemma printable_json_float: "printable (json_float x)"
  by (cases x) (simp_all add: printable_float_repr_pos less_char_def)

lemma digit_char_printable: "0 \<le> d \<Longrightarrow> d < 16 \<Longrightarrow> \<not> digit_char d < CHR '' ''"
  by (simp add: digit_char_def less_char_def nat_of_char_of_int nat_less_iff)

lemma printable_escape_char: "printable (escape_char c)"
proof (cases "short_escape c")
  case None
  have "\<not> CHR 0x5C < CHR '' ''" "\<not> CHR ''u'' < CHR '' ''" by (simp_all add: less_char_def)
  with None show ?thesis
    by (simp add: escape_char_def u_escape_def hex4_def hex2_def digit_char_printable
        del: short_escape.simps)
next
  case (Some e)
  then have "\<not> e < CHR '' ''" by (auto simp: less_char_def split: if_splits)
  with Some show ?thesis by (simp add: escape_char_def less_char_def del: short_escape.simps)
qed

lemma printable_json_string: "printable (json_string False s)"
  by (auto simp: json_string_def less_char_def printable_escape_char intro!: printable_concat)

lemma printable_dumps: "printable (dumps False v)"
proof (induction v)
  case (PDict d)
  have "printable (member_text (k, u))" if "(k, u) \<in> set d" for k u
    using PDict[OF that, of u] by (simp add: member_text_def printable_json_string less_char_def)
  then show ?case unfolding dumps_dict
    by (auto simp: less_char_def intro!: printable_join)
qed (auto simp: printable_json_float printable_json_string less_char_def intro!: printable_join)

end
