(* ===== verification/Control.thy ===== *)
theory Control
  imports Json_Roundtrip
begin

text \<open>
  \<^verbatim>\<open>common/protocol/control.py\<close>: the JSON Lines control protocol. A message is a dictionary, a
  line its compact JSON text and a newline. \<open>decode_json_line\<close> takes the bytes of a line;
  \<open>decode_json_text\<close> is its part after the decoding of the bytes, the path of a \<open>str\<close> argument.
  \<open>readline\<close> is what \<open>StreamReader.readline\<close> returns of the bytes received, without its limit on
  the length of a line.

  Shown here: what is encoded decodes to the same message, a newline occurs only
  at the end of an encoded line, so that a stream of messages is cut back into the same
  messages, and the shape of requests, responses and errors.
\<close>

section \<open>Operations\<close>

definition ERROR_CODES :: "string list" where
  "ERROR_CODES = [''invalid_json'', ''unsupported_version'', ''invalid_command'', ''invalid_field'',
     ''out_of_range'', ''busy'', ''hardware_fault'', ''timeout'', ''internal_error'']"

definition encode_json_line :: "pydict \<Rightarrow> bytes result" where
  "encode_json_line message = utf8_encode (dumps False (PDict message) @ [CHR 0x0A])"

definition decode_json_text :: "string \<Rightarrow> pydict result" where
  "decode_json_text line =
     (case loads line of
        Inl e \<Rightarrow> (if subclass_of (exn_cls e) JSONDecodeError
                  then Inl (Exn JsonLineError ''invalid JSON line'') else Inl e)
      | Inr value \<Rightarrow>
          (case value of PDict d \<Rightarrow> Inr d
           | _ \<Rightarrow> Inl (Exn JsonLineError ''JSON line must contain an object'')))"

definition decode_json_line :: "bytes \<Rightarrow> pydict result" where
  "decode_json_line line = rbind (utf8_decode line) decode_json_text"

definition build_request :: "int \<Rightarrow> string \<Rightarrow> pydict \<Rightarrow> pydict" where
  "build_request request_id cmd fields =
     dupdate [(''request_id'', PInt request_id), (''cmd'', PStr cmd)] fields"

text \<open>
  The request identifier a handler echoes is the object the client sent, an \<open>int\<close> or a \<open>bool\<close>;
  \<open>None\<close> is the absent identifier of a request that could not be read.
\<close>

definition build_response :: "pyval \<Rightarrow> bool \<Rightarrow> pydict \<Rightarrow> pydict" where
  "build_response request_id ok fields =
     (let message = dupdate [(''ok'', PBool ok)] fields
      in if request_id \<noteq> PNone then dupdate [(''request_id'', request_id)] message else message)"

definition build_error :: "pyval \<Rightarrow> string \<Rightarrow> string \<Rightarrow> pydict \<Rightarrow> pydict" where
  "build_error request_id code message fields =
     (let code = (if code \<notin> set ERROR_CODES then ''internal_error'' else code)
      in build_response request_id False
           [(''error'', PDict (dupdate [(''code'', PStr code), (''message'', PStr message)] fields))])"

section \<open>Lines of a byte stream\<close>

definition newline :: "8 word" where "newline = 10"

definition readline :: "bytes \<Rightarrow> bytes \<times> bytes" where
  "readline bs = (let l = takeWhile ((\<noteq>) newline) bs
                  in (take (Suc (length l)) bs, drop (Suc (length l)) bs))"

text \<open>All the lines of a finished stream, as the loop of \<open>_handle_client\<close> reads them.\<close>

function read_lines :: "bytes \<Rightarrow> bytes list" where
  "read_lines bs = (if bs = [] then [] else fst (readline bs) # read_lines (snd (readline bs)))"
  by pat_completeness auto
termination
  by (relation "measure length") (auto simp: readline_def Let_def)

declare read_lines.simps [simp del]

lemma readline_line:
  assumes "newline \<notin> set l"
  shows "readline (l @ newline # rest) = (l @ [newline], rest)"
proof -
  have "takeWhile ((\<noteq>) newline) (l @ newline # rest) = l"
    using assms by (subst takeWhile_append2) auto
  then show ?thesis by (simp add: readline_def Let_def)
qed

lemma read_lines_concat:
  "(\<And>l. l \<in> set ls \<Longrightarrow> \<exists>m. l = m @ [newline] \<and> newline \<notin> set m) \<Longrightarrow> read_lines (concat ls) = ls"
proof (induction ls)
  case (Cons l ls)
  obtain m where m: "l = m @ [newline]" "newline \<notin> set m" using Cons.prems[of l] by auto
  have "read_lines (concat ls) = ls" using Cons by auto
  with m show ?case by (subst read_lines.simps) (simp add: readline_line)
qed (simp add: read_lines.simps)

section \<open>Encoding and decoding\<close>

lemma newline_not_printable: "printable s \<Longrightarrow> newline \<notin> set (bytes_of_text s)"
proof
  assume p: "printable s" and "newline \<in> set (bytes_of_text s)"
  then obtain c where c: "c \<in> set s" "newline = of_char c" by (auto simp: bytes_of_text_def)
  then have "(char_of (uint newline) :: char) = c"
    using text_of_bytes_of_text[of "[c]"] by (simp add: text_of_bytes_def bytes_of_text_def)
  then have "c = CHR 0x0A" by (simp add: newline_def char_of_def)
  with p c show False by (auto simp: printable_def less_char_def)
qed

lemma encode_line_shape:
  assumes "encode_json_line m = Inr bs"
  shows "\<exists>l. bs = l @ [newline] \<and> newline \<notin> set l"
proof -
  have "bs = bytes_of_text (dumps False (PDict m)) @ [newline]"
    using assms by (auto simp: encode_json_line_def utf8_encode_def bytes_of_text_def newline_def
        of_char_def split: if_splits)
  then show ?thesis using newline_not_printable[OF printable_dumps] by blast
qed

lemma decode_encode:
  assumes "encode_json_line m = Inr bs" "json_value (PDict m)"
  shows "decode_json_line bs = Inr m"
proof -
  have bs: "bs = bytes_of_text (dumps False (PDict m) @ [CHR 0x0A])"
    and valid: "utf8_valid (dumps False (PDict m) @ [CHR 0x0A])"
    using assms(1) by (auto simp: encode_json_line_def utf8_encode_def split: if_splits)
  have "loads (dumps False (PDict m) @ [CHR 0x0A]) = Inr (PDict m)"
    by (rule loads_dumps[OF assms(2)]) (simp_all add: skip_ws_def json_ws_def)
  with bs valid show ?thesis by (simp add: decode_json_line_def utf8_decode_def decode_json_text_def)
qed

lemma decode_json_line_errors:
  "decode_json_line line = Inl e \<Longrightarrow> exn_cls e = JsonLineError \<or> exn_cls e = UnicodeDecodeError"
  by (auto simp: decode_json_line_def decode_json_text_def rbind_eq_Inl utf8_decode_def Let_def
      loads_def subclass_of_def split: if_splits sum.splits option.splits pyval.splits)

section \<open>Shape of the messages\<close>

lemma build_response_eq:
  assumes "dict_ok fields" "''ok'' \<notin> fst ` set fields" "''request_id'' \<notin> fst ` set fields"
  shows "build_response i ok fields =
     (if i \<noteq> PNone then [(''request_id'', i)] else []) @ (''ok'', PBool ok) # fields"
proof -
  have "dupdate [(''ok'', PBool ok)] fields = (''ok'', PBool ok) # fields"
    using assms by (subst dupdate_fresh) (auto simp: dict_ok_def)
  moreover have "dupdate [(''request_id'', i)] ((''ok'', PBool ok) # fields) =
      (''request_id'', i) # (''ok'', PBool ok) # fields"
    using assms by (subst dupdate_fresh) (auto simp: dict_ok_def)
  ultimately show ?thesis by (simp add: build_response_def Let_def)
qed

lemma build_error_eq:
  "build_error i code msg [] =
     (if i \<noteq> PNone then [(''request_id'', i)] else []) @
     [(''ok'', PBool False),
      (''error'', PDict [(''code'', PStr (if code \<in> set ERROR_CODES then code else ''internal_error'')),
         (''message'', PStr msg)])]"
  by (simp add: build_error_def Let_def build_response_eq dict_ok_def dupdate_def)

section \<open>Properties\<close>

text \<open>
  C18 (round trip of the control stream). Messages, encoded one after the other on
  a connection, are recovered in order by reading the stream line by line and decoding each line:
  no message is split, merged or altered, whatever text its strings hold.
\<close>

theorem control_stream_roundtrip:
  assumes "list_all2 (\<lambda>m l. encode_json_line m = Inr l \<and> json_value (PDict m)) ms lines"
  shows "rmap decode_json_line (read_lines (concat lines)) = Inr ms"
proof -
  have "read_lines (concat lines) = lines"
    using assms by (intro read_lines_concat) (auto simp: list_all2_conv_all_nth in_set_conv_nth
        dest!: encode_line_shape)
  moreover have "rmap decode_json_line lines = Inr ms"
    using assms by (induction rule: list_all2_induct) (auto simp: decode_encode)
  ultimately show ?thesis by simp
qed

theorem control_stream_roundtrip_witness:
  "let m1 = [(''request_id'', PInt 7), (''cmd'', PStr [CHR ''a'', CHR 0x0A, CHR 0x22])];
       m2 = [(''ok'', PBool True), (''applied'', PDict [(''lna'', PStr ''on''), (''x'', PList [PNone, PInt (- 5)])])]
   in \<exists>l1 l2. encode_json_line m1 = Inr l1 \<and> encode_json_line m2 = Inr l2
        \<and> rmap decode_json_line (read_lines (concat [l1, l2])) = Inr [m1, m2]"
proof -
  define m1 where "m1 = [(''request_id'', PInt 7), (''cmd'', PStr [CHR ''a'', CHR 0x0A, CHR 0x22])]"
  define m2 where "m2 = [(''ok'', PBool True),
     (''applied'', PDict [(''lna'', PStr ''on''), (''x'', PList [PNone, PInt (- 5)])])]"
  have "utf8_valid (dumps False (PDict m1) @ [CHR 0x0A])" "utf8_valid (dumps False (PDict m2) @ [CHR 0x0A])"
    unfolding m1_def m2_def by code_simp+
  then have "\<exists>l. encode_json_line m1 = Inr l" "\<exists>l. encode_json_line m2 = Inr l"
    by (simp_all add: encode_json_line_def utf8_encode_def)
  then obtain l1 l2 where l: "encode_json_line m1 = Inr l1" "encode_json_line m2 = Inr l2" by blast
  moreover have "json_value (PDict m1)" "json_value (PDict m2)"
    by (simp_all add: m1_def m2_def dict_ok_def)
  ultimately have "list_all2 (\<lambda>m l. encode_json_line m = Inr l \<and> json_value (PDict m)) [m1, m2] [l1, l2]"
    by simp
  from control_stream_roundtrip[OF this] l show ?thesis
    unfolding Let_def m1_def[symmetric] m2_def[symmetric] by blast
qed

text \<open>
  Errors of the decoder. Decoding a line raises a subclass of \<open>ValueError\<close> only: a
  \<open>JsonLineError\<close> for text that is not JSON or not an object, a \<open>UnicodeDecodeError\<close> for bytes
  that are not UTF-8; the latter is not wrapped.
\<close>

theorem decode_json_line_raises:
  "(case decode_json_line line of
      Inl e \<Rightarrow> subclass_of (exn_cls e) ValueError \<and>
        (exn_cls e = UnicodeDecodeError \<longleftrightarrow> \<not> utf8_valid (text_of_bytes line)) \<and>
        (exn_cls e = JsonLineError \<longleftrightarrow> utf8_valid (text_of_bytes line))
    | Inr d \<Rightarrow> utf8_valid (text_of_bytes line) \<and> loads (text_of_bytes line) = Inr (PDict d))"
  by (auto simp: decode_json_line_def decode_json_text_def utf8_decode_def Let_def loads_def
      subclass_of_def split: if_splits sum.splits option.splits pyval.splits)

end
