(* ===== verification/Signal_Gen.thy ===== *)
theory Signal_Gen
  imports Struct_Codec
begin

text \<open>
  \<^verbatim>\<open>simulator/fake_ac920/signal_gen.py\<close>: the synthetic IQ source of the simulated device.
  \<open>math.sin\<close> and \<open>math.cos\<close> are fields of the record \<open>libm\<close>; the code relies on them returning a
  finite number of magnitude at most one for a finite argument (\<open>libm_ok\<close>). The results of the
  successive calls of \<open>random.uniform(-0.25, 0.25)\<close> are an argument. A complex number is the
  pair of its parts.

  Shown here: every scenario produces exactly the number of samples asked for and the payload
  has four bytes per sample; on the sample rates the device accepts no operation of the
  generator raises, and its phases stay bounded, so it can run for ever.
\<close>

section \<open>Oscillator\<close>

record libm =
  lm_sin :: "pyfloat \<Rightarrow> pyfloat"
  lm_cos :: "pyfloat \<Rightarrow> pyfloat"

record ComplexOscillator =
  osc_sample_rate_hz :: int
  osc_phase :: pyfloat
  osc_audio_phase :: pyfloat

type_synonym pycomplex = "pyfloat \<times> pyfloat"

definition oscillator_init :: "int \<Rightarrow> ComplexOscillator" where
  "oscillator_init rate = \<lparr>osc_sample_rate_hz = rate, osc_phase = FFin 0, osc_audio_phase = FFin 0\<rparr>"

definition math_pi :: pyfloat where
  "math_pi = FFin (884279719003555 / 281474976710656)"

definition math_tau :: pyfloat where
  "math_tau = FFin (884279719003555 / 140737488355328)"

text \<open>A decimal literal of the source.\<close>

definition lit :: "rat \<Rightarrow> pyfloat" where
  "lit x = double_of_rat x"

text \<open>The functions of \<open>math\<close> raise on an infinite argument.\<close>

fun math_call :: "(pyfloat \<Rightarrow> pyfloat) \<Rightarrow> pyfloat \<Rightarrow> pyfloat result" where
  "math_call f FPosInf = Inl (Exn ValueError ''math domain error'')"
| "math_call f FNegInf = Inl (Exn ValueError ''math domain error'')"
| "math_call f x = Inr (f x)"

definition phase_step :: "pyfloat \<Rightarrow> int \<Rightarrow> pyfloat result" where
  "phase_step freq_hz rate =
     rbind (float_of_int rate) (\<lambda>r. fdiv (fmul (fmul (FFin 2) math_pi) freq_hz) r)"

definition wrap_phase :: "pyfloat \<Rightarrow> pyfloat" where
  "wrap_phase phase = (if flt math_tau phase then fsub phase math_tau else phase)"

fun audio_loop :: "libm \<Rightarrow> pyfloat \<Rightarrow> nat \<Rightarrow> pyfloat \<Rightarrow> (pyfloat list \<times> pyfloat) result" where
  "audio_loop m step 0 phase = Inr ([], phase)"
| "audio_loop m step (Suc n) phase =
     rbind (math_call (lm_sin m) phase) (\<lambda>v.
     rbind (audio_loop m step n (wrap_phase (fadd phase step))) (\<lambda>(vs, p). Inr (v # vs, p)))"

definition step_audio ::
    "libm \<Rightarrow> pyfloat \<Rightarrow> int \<Rightarrow> ComplexOscillator \<Rightarrow> ComplexOscillator \<times> pyfloat list result" where
  "step_audio m freq_hz count osc =
     (case rbind (phase_step freq_hz (osc_sample_rate_hz osc)) (\<lambda>step.
             audio_loop m step (nat count) (osc_audio_phase osc)) of
        Inl e \<Rightarrow> (osc, Inl e)
      | Inr (values, phase) \<Rightarrow> (osc\<lparr>osc_audio_phase := phase\<rparr>, Inr values))"

definition phasor :: "libm \<Rightarrow> pyfloat \<Rightarrow> pyfloat \<Rightarrow> pycomplex result" where
  "phasor m phase amplitude =
     rbind (math_call (lm_cos m) phase) (\<lambda>c.
     rbind (math_call (lm_sin m) phase) (\<lambda>s. Inr (fmul c amplitude, fmul s amplitude)))"

fun tone_loop :: "libm \<Rightarrow> pyfloat \<Rightarrow> pyfloat \<Rightarrow> nat \<Rightarrow> pyfloat \<Rightarrow> (pycomplex list \<times> pyfloat) result" where
  "tone_loop m step amplitude 0 phase = Inr ([], phase)"
| "tone_loop m step amplitude (Suc n) phase =
     rbind (phasor m phase amplitude) (\<lambda>z.
     rbind (tone_loop m step amplitude n (wrap_phase (fadd phase step))) (\<lambda>(zs, p). Inr (z # zs, p)))"

definition complex_tone ::
    "libm \<Rightarrow> pyfloat \<Rightarrow> int \<Rightarrow> pyfloat \<Rightarrow> ComplexOscillator \<Rightarrow> ComplexOscillator \<times> pycomplex list result" where
  "complex_tone m freq_hz count amplitude osc =
     (case rbind (phase_step freq_hz (osc_sample_rate_hz osc)) (\<lambda>step.
             tone_loop m step amplitude (nat count) (osc_phase osc)) of
        Inl e \<Rightarrow> (osc, Inl e)
      | Inr (out, phase) \<Rightarrow> (osc\<lparr>osc_phase := phase\<rparr>, Inr out))"

definition wrap_both :: "pyfloat \<Rightarrow> pyfloat" where
  "wrap_both phase =
     (if flt math_tau phase then fsub phase math_tau
      else if flt phase (fneg math_tau) then fadd phase math_tau else phase)"

definition modulation_step :: "int \<Rightarrow> pyfloat \<Rightarrow> pyfloat \<Rightarrow> pyfloat result" where
  "modulation_step rate beta value =
     rbind (float_of_int rate) (\<lambda>r.
     rbind (fdiv r (FFin 48000)) (\<lambda>q. fdiv (fmul beta value) (fmax q (FFin 1))))"

fun modulate_loop ::
    "libm \<Rightarrow> int \<Rightarrow> pyfloat \<Rightarrow> pyfloat list \<Rightarrow> pyfloat \<Rightarrow> (pycomplex list \<times> pyfloat) result" where
  "modulate_loop m rate beta [] phase = Inr ([], phase)"
| "modulate_loop m rate beta (v # vs) phase =
     rbind (modulation_step rate beta v) (\<lambda>d.
     let phase1 = wrap_both (fadd phase d) in
     rbind (phasor m phase1 (lit (55 / 100))) (\<lambda>z.
     rbind (modulate_loop m rate beta vs phase1) (\<lambda>(zs, p). Inr (z # zs, p))))"

definition phase_modulated ::
    "libm \<Rightarrow> pyfloat list \<Rightarrow> pyfloat \<Rightarrow> ComplexOscillator \<Rightarrow> ComplexOscillator \<times> pycomplex list result" where
  "phase_modulated m audio beta osc =
     (case modulate_loop m (osc_sample_rate_hz osc) beta audio (osc_phase osc) of
        Inl e \<Rightarrow> (osc, Inl e)
      | Inr (out, phase) \<Rightarrow> (osc\<lparr>osc_phase := phase\<rparr>, Inr out))"

definition am_sample :: "pyfloat \<Rightarrow> pycomplex" where
  "am_sample x = (fadd (lit (25 / 100)) (fmul (lit (45 / 100)) (fadd (lit (5 / 10)) (fmul (lit (5 / 10)) x))), FFin 0)"

text \<open>\<open>draws n\<close> is the result of the \<open>n\<close>-th call of \<open>random.uniform(-0.25, 0.25)\<close>.\<close>

definition make_iq ::
    "libm \<Rightarrow> (nat \<Rightarrow> pyfloat) \<Rightarrow> string \<Rightarrow> int \<Rightarrow> ComplexOscillator \<Rightarrow> ComplexOscillator \<times> pycomplex list result" where
  "make_iq m draws scenario count osc =
     (let scenario = py_lower scenario in
      if scenario = ''noise'' then (osc, Inr (map (\<lambda>i. (draws (2 * i), draws (2 * i + 1))) [0..<nat count]))
      else if scenario = ''tone'' then complex_tone m (FFin 10000) count (lit (55 / 100)) osc
      else case step_audio m (FFin 1000) count osc of
        (osc1, Inl e) \<Rightarrow> (osc1, Inl e)
      | (osc1, Inr tone) \<Rightarrow>
          (if scenario = ''am_tone'' then (osc1, Inr (map am_sample tone))
           else if scenario = ''ssb_tone'' then complex_tone m (FFin 1000) count (lit (55 / 100)) osc1
           else if scenario = ''nfm_tone'' then phase_modulated m tone (lit (8 / 10)) osc1
           else if scenario = ''wfm_tone'' then phase_modulated m tone (FFin 5) osc1
           else complex_tone m (FFin 1000) count (lit (4 / 10)) osc1))"

section \<open>Conversion to sample bytes\<close>

definition clamp16 :: "int \<Rightarrow> int" where
  "clamp16 x = max (- 32768) (min 32767 x)"

definition complex_to_sc16 :: "pycomplex list \<Rightarrow> bytes result" where
  "complex_to_sc16 iq =
     rbind (rmap (\<lambda>(re, im). rbind (int_of_float (fmul re (FFin 32767))) (\<lambda>i_val.
                   rbind (int_of_float (fmul im (FFin 32767))) (\<lambda>q_val.
                   rbind (to_bytes_signed 2 (clamp16 i_val)) (\<lambda>i_bytes.
                   rbind (to_bytes_signed 2 (clamp16 q_val)) (\<lambda>q_bytes.
                   Inr (i_bytes @ q_bytes)))))) iq)
           (\<lambda>bss. Inr (concat bss))"

section \<open>Sample counts\<close>

lemma audio_loop_length: "audio_loop m step n phase = Inr (vs, p) \<Longrightarrow> length vs = n"
  by (induction n arbitrary: phase vs p) (auto simp: rbind_eq_Inr)

lemma tone_loop_length: "tone_loop m step amplitude n phase = Inr (zs, p) \<Longrightarrow> length zs = n"
  by (induction n arbitrary: phase zs p) (auto simp: rbind_eq_Inr)

lemma modulate_loop_length: "modulate_loop m rate beta vs phase = Inr (zs, p) \<Longrightarrow> length zs = length vs"
  by (induction vs arbitrary: phase zs p) (auto simp: rbind_eq_Inr Let_def)

lemma step_audio_length: "step_audio m f count osc = (osc', Inr vs) \<Longrightarrow> length vs = nat count"
  by (auto simp: step_audio_def rbind_eq_Inr split: sum.splits dest: audio_loop_length)

lemma complex_tone_length: "complex_tone m f count a osc = (osc', Inr zs) \<Longrightarrow> length zs = nat count"
  by (auto simp: complex_tone_def rbind_eq_Inr split: sum.splits dest: tone_loop_length)

lemma phase_modulated_length: "phase_modulated m audio beta osc = (osc', Inr zs) \<Longrightarrow> length zs = length audio"
  by (auto simp: phase_modulated_def split: sum.splits dest: modulate_loop_length)

lemma make_iq_length: "make_iq m draws scenario count osc = (osc', Inr zs) \<Longrightarrow> length zs = nat count"
  by (auto simp: make_iq_def Let_def split: if_splits prod.splits sum.splits
      dest!: step_audio_length complex_tone_length phase_modulated_length)

lemma clamp16_range: "- 32768 \<le> clamp16 x" "clamp16 x \<le> 32767"
  by (simp_all add: clamp16_def)

lemma to_bytes_clamp16: "to_bytes_signed 2 (clamp16 x) = Inr (le_bytes 2 (clamp16 x))"
  using clamp16_range[of x] by (simp add: to_bytes_signed_def power2_eq_square)

lemma complex_to_sc16_length: "complex_to_sc16 iq = Inr bs \<Longrightarrow> length bs = 4 * length iq"
proof (induction iq arbitrary: bs)
  case (Cons z iq)
  then show ?case
    by (cases z) (fastforce simp: complex_to_sc16_def rbind_eq_Inr to_bytes_clamp16)
qed (simp add: complex_to_sc16_def)

section \<open>Bounded phases\<close>

definition RATES :: "int list" where
  "RATES = [125000, 250000, 500000, 1000000]"

definition libm_ok :: "libm \<Rightarrow> bool" where
  "libm_ok m \<longleftrightarrow> (\<forall>x. bnd 0 (lm_sin m (FFin x)) \<and> bnd 0 (lm_cos m (FFin x)))"

definition draws_ok :: "(nat \<Rightarrow> pyfloat) \<Rightarrow> bool" where
  "draws_ok draws \<longleftrightarrow> (\<forall>n. bnd 0 (draws n))"

definition phase_ok :: "pyfloat \<Rightarrow> bool" where
  "phase_ok p \<longleftrightarrow> (\<exists>q. p = FFin q \<and> - 16 \<le> q \<and> q \<le> 7)"

definition osc_ok :: "ComplexOscillator \<Rightarrow> bool" where
  "osc_ok osc \<longleftrightarrow> osc_sample_rate_hz osc \<in> set RATES \<and> phase_ok (osc_phase osc) \<and> phase_ok (osc_audio_phase osc)"

lemma rates_bounds: "rate \<in> set RATES \<Longrightarrow> 125000 \<le> rate \<and> rate \<le> 1000000"
  by (auto simp: RATES_def)

lemma rate_exact: "rate \<in> set RATES \<Longrightarrow> float_of_int rate = Inr (FFin (of_int rate))"
  using rates_bounds[of rate] by (intro float_of_int_exact) auto

lemma phase_steps:
  assumes f: "0 \<le> f" "f \<le> 10000" and rate: "rate \<in> set RATES"
  shows "\<exists>s. phase_step (FFin f) rate = Inr (FFin s) \<and> 0 \<le> s \<and> s \<le> 2"
proof -
  have r: "125000 \<le> (of_int rate :: rat)"
    using rates_bounds[OF rate] of_int_le_iff[of 125000 rate, where 'a = rat] by simp
  obtain a where a: "double_of_rat (2 * (884279719003555 / 281474976710656)) = FFin a" "0 \<le> a" "a \<le> 8"
    by (rule double_near[of "2 * (884279719003555 / 281474976710656)" 3]) (auto simp: pow2_def)
  have af: "0 \<le> a * f" "a * f \<le> 8 * 10000" using a f mult_mono[of a 8 f 10000] by simp_all
  then obtain b where b: "double_of_rat (a * f) = FFin b" "0 \<le> b" "b \<le> 131072"
    by (auto simp: pow2_def abs_le_iff intro: double_near[of "a * f" 17])
  have "0 \<le> b / of_int rate" "b / of_int rate \<le> 2" using b r by (auto simp: divide_le_eq)
  then obtain s where "double_of_rat (b / of_int rate) = FFin s" "0 \<le> s" "s \<le> 2"
    by (auto simp: pow2_def abs_le_iff intro: double_near[of "b / of_int rate" 1])
  with a b r show ?thesis by (auto simp: phase_step_def rate_exact[OF rate] math_pi_def)
qed

lemma rate_ratio:
  assumes rate: "rate \<in> set RATES"
  shows "\<exists>q. fdiv (FFin (of_int rate)) (FFin 48000) = Inr (FFin q) \<and> 2 \<le> q"
proof -
  have r: "125000 \<le> (of_int rate :: rat)" "(of_int rate :: rat) \<le> 1000000"
    using rates_bounds[OF rate] of_int_le_iff[of 125000 rate, where 'a = rat]
      of_int_le_iff[of rate 1000000, where 'a = rat] by simp_all
  have "\<bar>of_int rate / 48000\<bar> \<le> pow2 5" using r by (simp add: pow2_def)
  then obtain q where q: "double_of_rat (of_int rate / 48000) = FFin q" "of_int rate / 48000 - 1 / 1000 \<le> q"
    by (rule double_near) auto
  have "2 + 1 / 1000 \<le> (of_int rate / 48000 :: rat)" using r(1) by simp
  with q show ?thesis by auto
qed

lemma wrap_phase_ok:
  assumes "phase_ok p" "0 \<le> s" "s \<le> 2"
  shows "phase_ok (wrap_phase (fadd p (FFin s)))"
proof -
  let ?tau = "884279719003555 / 140737488355328 :: rat"
  obtain q where q: "p = FFin q" "- 16 \<le> q" "q \<le> 7" using assms(1) by (auto simp: phase_ok_def)
  have "\<bar>q + s\<bar> \<le> pow2 4" using q assms by (auto simp: pow2_def abs_le_iff)
  then obtain y where y: "double_of_rat (q + s) = FFin y" "\<bar>y\<bar> \<le> pow2 4" "y \<le> q + s + 1 / 1000"
    by (rule double_near) auto
  show ?thesis
  proof (cases "?tau < y")
    case True
    have "\<bar>y - ?tau\<bar> \<le> pow2 2" using True y(3) q assms(3) by (simp add: pow2_def abs_le_iff)
    then obtain w where "double_of_rat (y - ?tau) = FFin w" "\<bar>w\<bar> \<le> pow2 2" by (rule double_near) auto
    with True y q show ?thesis
      by (simp add: wrap_phase_def math_tau_def fsub_def phase_ok_def pow2_def abs_le_iff)
  qed (use y q in \<open>simp add: wrap_phase_def math_tau_def phase_ok_def pow2_def abs_le_iff\<close>)
qed

lemma wrap_both_ok:
  assumes "phase_ok p" "bnd 2 d"
  shows "phase_ok (wrap_both (fadd p d))"
proof -
  let ?tau = "884279719003555 / 140737488355328 :: rat"
  obtain q e where q: "p = FFin q" "- 16 \<le> q" "q \<le> 7" and e: "d = FFin e" "\<bar>e\<bar> \<le> 4"
    using assms by (auto simp: phase_ok_def bnd_def pow2_def)
  have "\<bar>q + e\<bar> \<le> pow2 5" using q e by (auto simp: pow2_def abs_le_iff)
  then obtain y where y: "double_of_rat (q + e) = FFin y" "q + e - 1 / 1000 \<le> y" "y \<le> q + e + 1 / 1000"
    by (rule double_near) auto
  then have yb: "- 21 \<le> y" "y \<le> 12" using q e by (auto simp: abs_le_iff)
  consider "?tau < y" | "y < - ?tau" "\<not> ?tau < y" | "- ?tau \<le> y" "y \<le> ?tau" by linarith
  then show ?thesis
  proof cases
    case 1
    have "\<bar>y - ?tau\<bar> \<le> pow2 3" using 1 yb by (simp add: pow2_def abs_le_iff)
    then obtain w where "double_of_rat (y - ?tau) = FFin w" "\<bar>w\<bar> \<le> pow2 3" "w \<le> y - ?tau + 1 / 1000"
      by (rule double_near) auto
    with 1 y q e yb show ?thesis
      by (simp add: wrap_both_def math_tau_def fsub_def phase_ok_def pow2_def abs_le_iff)
  next
    case 2
    have "\<bar>y + ?tau\<bar> \<le> pow2 4" using 2 yb by (simp add: pow2_def abs_le_iff)
    then obtain w where "double_of_rat (y + ?tau) = FFin w" "\<bar>w\<bar> \<le> pow2 4" "w \<le> y + ?tau + 1 / 1000"
      by (rule double_near) auto
    with 2 y q e yb show ?thesis
      by (simp add: wrap_both_def math_tau_def phase_ok_def pow2_def abs_le_iff)
  next
    case 3
    with y q e show ?thesis by (simp add: wrap_both_def math_tau_def phase_ok_def)
  qed
qed

section \<open>The loops cannot raise\<close>

definition small :: "pycomplex \<Rightarrow> bool" where
  "small z \<longleftrightarrow> bnd 2 (fst z) \<and> bnd 2 (snd z)"

lemma phasor_small:
  assumes "libm_ok m" "phase_ok p" "bnd 0 a"
  shows "\<exists>z. phasor m p a = Inr z \<and> small z"
proof -
  obtain q where "p = FFin q" using assms(2) by (auto simp: phase_ok_def)
  moreover have "bnd (0 + 0) (fmul (lm_cos m (FFin q)) a)" "bnd (0 + 0) (fmul (lm_sin m (FFin q)) a)"
    using assms by (intro bnd_fmul; simp add: libm_ok_def)+
  ultimately show ?thesis by (auto simp: phasor_def small_def intro: bnd_mono)
qed

lemma audio_loop_total:
  assumes "libm_ok m" "0 \<le> s" "s \<le> 2"
  shows "phase_ok p \<Longrightarrow> \<exists>vs p'. audio_loop m (FFin s) n p = Inr (vs, p') \<and> phase_ok p' \<and> list_all (bnd 0) vs"
proof (induction n arbitrary: p)
  case (Suc n)
  obtain q where q: "p = FFin q" using Suc.prems by (auto simp: phase_ok_def)
  have "bnd 0 (lm_sin m (FFin q))" using assms(1) by (simp add: libm_ok_def)
  with Suc.IH[OF wrap_phase_ok[OF Suc.prems assms(2,3)]] q show ?case by auto
qed simp

lemma tone_loop_total:
  assumes "libm_ok m" "0 \<le> s" "s \<le> 2" "bnd 0 a"
  shows "phase_ok p \<Longrightarrow> \<exists>zs p'. tone_loop m (FFin s) a n p = Inr (zs, p') \<and> phase_ok p' \<and> list_all small zs"
proof (induction n arbitrary: p)
  case (Suc n)
  from phasor_small[OF assms(1) Suc.prems assms(4)] obtain z where "phasor m p a = Inr z" "small z" by blast
  with Suc.IH[OF wrap_phase_ok[OF Suc.prems assms(2,3)]] show ?case by auto
qed simp

lemma lit_bnd: "\<bar>x\<bar> \<le> 1 \<Longrightarrow> bnd 0 (lit x)"
  by (simp add: lit_def bnd_double pow2_def)

lemma modulation_step_bnd:
  assumes "rate \<in> set RATES" "bnd 3 beta" "bnd 0 v"
  shows "\<exists>d. modulation_step rate beta v = Inr d \<and> bnd 2 d"
proof -
  obtain q where q: "fdiv (FFin (of_int rate)) (FFin 48000) = Inr (FFin q)" "2 \<le> q"
    using rate_ratio[OF assms(1)] by blast
  have "bnd (3 + 0) (fmul beta v)" using assms(2,3) by (rule bnd_fmul) auto
  then have "bnd (3 - 1) (fquot (fmul beta v) q)" using q(2) by (intro bnd_fquot) (auto simp: pow2_def)
  with q show ?thesis by (simp add: modulation_step_def rate_exact[OF assms(1)] fmax_def)
qed

lemma modulate_loop_total:
  assumes "libm_ok m" "rate \<in> set RATES" "bnd 3 beta"
  shows "phase_ok p \<Longrightarrow> list_all (bnd 0) vs \<Longrightarrow>
    \<exists>zs p'. modulate_loop m rate beta vs p = Inr (zs, p') \<and> phase_ok p' \<and> list_all small zs"
proof (induction vs arbitrary: p)
  case (Cons v vs)
  obtain d where d: "modulation_step rate beta v = Inr d" "bnd 2 d"
    using modulation_step_bnd[OF assms(2,3), of v] Cons.prems by auto
  have p1: "phase_ok (wrap_both (fadd p d))" by (rule wrap_both_ok[OF Cons.prems(1) d(2)])
  obtain z where "phasor m (wrap_both (fadd p d)) (lit (55 / 100)) = Inr z" "small z"
    using phasor_small[OF assms(1) p1, of "lit (55 / 100)"] by (auto simp: lit_bnd)
  with Cons.IH[OF p1] Cons.prems d show ?case by auto
qed simp

lemma step_audio_total:
  assumes "libm_ok m" "osc_ok osc"
  shows "\<exists>osc' vs. step_audio m (FFin 1000) count osc = (osc', Inr vs) \<and> osc_ok osc' \<and> list_all (bnd 0) vs
    \<and> osc_sample_rate_hz osc' = osc_sample_rate_hz osc"
proof -
  obtain s where s: "phase_step (FFin 1000) (osc_sample_rate_hz osc) = Inr (FFin s)" "0 \<le> s" "s \<le> 2"
    using phase_steps[of 1000] assms(2) by (auto simp: osc_ok_def)
  have "phase_ok (osc_audio_phase osc)" using assms(2) by (simp add: osc_ok_def)
  from audio_loop_total[OF assms(1) s(2,3) this, of "nat count"] s(1) assms(2) show ?thesis
    by (auto simp: step_audio_def osc_ok_def)
qed

lemma complex_tone_total:
  assumes "libm_ok m" "osc_ok osc" "0 \<le> f" "f \<le> 10000" "bnd 0 a"
  shows "\<exists>osc' zs. complex_tone m (FFin f) count a osc = (osc', Inr zs) \<and> osc_ok osc' \<and> list_all small zs
    \<and> osc_sample_rate_hz osc' = osc_sample_rate_hz osc"
proof -
  obtain s where s: "phase_step (FFin f) (osc_sample_rate_hz osc) = Inr (FFin s)" "0 \<le> s" "s \<le> 2"
    using phase_steps[OF assms(3,4)] assms(2) by (auto simp: osc_ok_def)
  have "phase_ok (osc_phase osc)" using assms(2) by (simp add: osc_ok_def)
  from tone_loop_total[OF assms(1) s(2,3) assms(5) this, of "nat count"] s(1) assms(2) show ?thesis
    by (auto simp: complex_tone_def osc_ok_def)
qed

lemma phase_modulated_total:
  assumes "libm_ok m" "osc_ok osc" "bnd 3 beta" "list_all (bnd 0) vs"
  shows "\<exists>osc' zs. phase_modulated m vs beta osc = (osc', Inr zs) \<and> osc_ok osc' \<and> list_all small zs
    \<and> osc_sample_rate_hz osc' = osc_sample_rate_hz osc"
proof -
  have "osc_sample_rate_hz osc \<in> set RATES" "phase_ok (osc_phase osc)" using assms(2) by (auto simp: osc_ok_def)
  from modulate_loop_total[OF assms(1) this(1) assms(3) this(2) assms(4)] assms(2) show ?thesis
    by (auto simp: phase_modulated_def osc_ok_def)
qed

lemma am_sample_small: "bnd 0 x \<Longrightarrow> small (am_sample x)"
proof -
  assume x: "bnd 0 x"
  have "bnd 0 (fmul (lit (5 / 10)) x)" using bnd_fmul[of 0 "lit (5 / 10)" 0 x] x by (simp add: lit_bnd)
  then have "bnd 1 (fadd (lit (5 / 10)) (fmul (lit (5 / 10)) x))"
    using bnd_fadd[of 0 "lit (5 / 10)"] by (simp add: lit_bnd)
  then have "bnd 1 (fmul (lit (45 / 100)) (fadd (lit (5 / 10)) (fmul (lit (5 / 10)) x)))"
    using bnd_fmul[of 0 "lit (45 / 100)" 1] by (simp add: lit_bnd)
  moreover have "bnd 1 (lit (25 / 100))" by (rule bnd_mono[OF lit_bnd]) auto
  ultimately have "bnd 2 (fst (am_sample x))" using bnd_fadd[of 1 "lit (25 / 100)"] by (simp add: am_sample_def)
  then show ?thesis by (simp add: small_def am_sample_def)
qed

lemma make_iq_total:
  assumes m: "libm_ok m" and osc: "osc_ok osc" and draws: "draws_ok draws"
  shows "\<exists>osc' zs. make_iq m draws scenario count osc = (osc', Inr zs) \<and> osc_ok osc' \<and> list_all small zs
    \<and> osc_sample_rate_hz osc' = osc_sample_rate_hz osc"
proof -
  obtain osc1 vs where au: "step_audio m (FFin 1000) count osc = (osc1, Inr vs)" "osc_ok osc1" "list_all (bnd 0) vs"
      "osc_sample_rate_hz osc1 = osc_sample_rate_hz osc"
    using step_audio_total[OF m osc] by blast
  have am: "list_all small (map am_sample vs)" using au(3) by (auto simp: list_all_iff am_sample_small)
  have noise: "list_all small (map (\<lambda>i. (draws (2 * i), draws (2 * i + 1))) [0..<nat count])"
    using draws by (auto simp: list_all_iff small_def draws_ok_def intro: bnd_mono[of 0])
  have "bnd 3 (lit (8 / 10))" by (rule bnd_mono[OF lit_bnd]) auto
  then show ?thesis
    using au am noise osc complex_tone_total[OF m osc, of 10000 "lit (55 / 100)" count]
      complex_tone_total[OF m au(2), of 1000 "lit (55 / 100)" count]
      complex_tone_total[OF m au(2), of 1000 "lit (4 / 10)" count]
      phase_modulated_total[OF m au(2) _ au(3), of "lit (8 / 10)"]
      phase_modulated_total[OF m au(2) _ au(3), of "FFin 5"]
    by (simp add: make_iq_def Let_def lit_bnd pow2_def)
qed

lemma complex_to_sc16_total: "list_all small iq \<Longrightarrow> \<exists>bs. complex_to_sc16 iq = Inr bs"
proof (induction iq)
  case (Cons z iq)
  obtain re im where z: "z = (re, im)" by fastforce
  have "bnd (2 + 15) (fmul re (FFin 32767))" "bnd (2 + 15) (fmul im (FFin 32767))"
    using Cons.prems by (intro bnd_fmul; simp add: z small_def pow2_def)+
  then obtain a b where "int_of_float (fmul re (FFin 32767)) = Inr a" "int_of_float (fmul im (FFin 32767)) = Inr b"
    using bnd_int_of_float by blast
  with Cons z show ?case by (auto simp: complex_to_sc16_def to_bytes_clamp16 rbind_eq_Inr)
qed (simp add: complex_to_sc16_def)

section \<open>Properties\<close>

text \<open>
  C22 (the IQ source never fails). On the sample rates the device accepts, with sine and cosine
  finite and at most one in magnitude, every scenario produces a payload of exactly four bytes per
  sample and leaves the oscillator in a state from which the same holds again, however long the
  stream runs: the phases stay bounded and no conversion overflows.
\<close>

theorem iq_source_never_fails:
  assumes "libm_ok m" and "osc_ok osc" and "draws_ok draws"
  shows "\<exists>osc' zs payload. make_iq m draws scenario count osc = (osc', Inr zs)
      \<and> complex_to_sc16 zs = Inr payload \<and> length payload = 4 * nat count
      \<and> osc_ok osc' \<and> osc_sample_rate_hz osc' = osc_sample_rate_hz osc"
proof -
  obtain osc' zs where iq: "make_iq m draws scenario count osc = (osc', Inr zs)" "osc_ok osc'" "list_all small zs"
      "osc_sample_rate_hz osc' = osc_sample_rate_hz osc"
    using make_iq_total[OF assms] by blast
  obtain payload where "complex_to_sc16 zs = Inr payload" using complex_to_sc16_total[OF iq(3)] by blast
  with iq complex_to_sc16_length make_iq_length[OF iq(1)] show ?thesis by auto
qed

definition flat_libm :: libm where
  "flat_libm = \<lparr>lm_sin = (\<lambda>x. FFin 0), lm_cos = (\<lambda>x. FFin 1)\<rparr>"

lemma flat_libm_ok: "libm_ok flat_libm"
  by (simp add: libm_ok_def flat_libm_def pow2_def)

lemma oscillator_init_ok: "rate \<in> set RATES \<Longrightarrow> osc_ok (oscillator_init rate)"
  by (simp add: osc_ok_def oscillator_init_def phase_ok_def)

theorem iq_source_never_fails_witness:
  "\<exists>osc' zs payload. make_iq flat_libm (\<lambda>n. FFin 0) ''WFM_tone'' 256 (oscillator_init 1000000) = (osc', Inr zs)
      \<and> complex_to_sc16 zs = Inr payload \<and> length payload = 1024 \<and> osc_ok osc'"
proof -
  have "osc_ok (oscillator_init 1000000)" by (rule oscillator_init_ok) (simp add: RATES_def)
  from iq_source_never_fails[OF flat_libm_ok this, of "\<lambda>n. FFin 0" "''WFM_tone''" 256] show ?thesis
    by (auto simp: draws_ok_def)
qed

end
