(* ===== verification/Fake_Server.thy ===== *)
theory Fake_Server
  imports Packets Control Signal_Gen
begin

text \<open>
  \<^verbatim>\<open>simulator/fake_ac920/server.py\<close>: the simulated AC920 device. \<open>FakeServer\<close> is the object's
  state; the two dictionaries with fixed keys (\<open>_frontend\<close>, \<open>_psd_config\<close>) are records, turned back
  into dictionaries where the code answers with them. \<open>sv_wire\<close> logs the datagrams handed to the
  UDP socket and \<open>sv_replies\<close> the lines written to control connections. A coroutine runs without
  interruption between two suspensions, so one control line, one iteration of a transmit loop, one
  connection attempt and one disconnection are each one event of \<open>server_step\<close>.

  Outside the model are arguments: the C library's sine and cosine (\<open>libm\<close>), the draws of
  \<open>random.uniform\<close>, readings of \<open>_device_time_ms()\<close>, and the answer of the operating system
  to \<open>sendto\<close> (\<open>net\<close>, \<open>Some e\<close> when it raises).

  Handlers return the server and either the response or the exception that leaves them; what was
  assigned before an exception stays assigned.
\<close>

section \<open>State\<close>

record FakeAc920Config =
  cfg_bind_host :: string
  cfg_control_port :: int
  cfg_scenario :: string
  cfg_sample_count :: int
  cfg_drop_every :: int
  cfg_inject_adc_or :: bool
  cfg_inject_fifo_overflow :: bool
  cfg_status_interval_active_s :: pyfloat
  cfg_status_interval_idle_s :: pyfloat

definition fake_config_default :: FakeAc920Config where
  "fake_config_default = \<lparr>cfg_bind_host = ''127.0.0.1'', cfg_control_port = 9000,
     cfg_scenario = ''wfm_tone'', cfg_sample_count = 256, cfg_drop_every = 0,
     cfg_inject_adc_or = False, cfg_inject_fifo_overflow = False,
     cfg_status_interval_active_s = lit (2 / 10), cfg_status_interval_idle_s = FFin 1\<rparr>"

record StreamState =
  st_stream_id :: int
  st_adc_channel :: int
  st_frequency_hz :: int
  st_mode :: string
  st_iq_sample_rate_hz :: int
  st_bandwidth_hz :: int
  st_enabled :: bool
  st_seq :: int
  st_adc_timestamp :: int
  st_first_packet :: bool
  st_fifo_overflow_count :: int
  st_oscillator :: ComplexOscillator

definition stream_state_init :: "int \<Rightarrow> StreamState" where
  "stream_state_init i = \<lparr>st_stream_id = i, st_adc_channel = 0, st_frequency_hz = 98500000,
     st_mode = ''WFM'', st_iq_sample_rate_hz = 1000000, st_bandwidth_hz = 250000,
     st_enabled = False, st_seq = 0, st_adc_timestamp = 0, st_first_packet = True,
     st_fifo_overflow_count = 0, st_oscillator = oscillator_init 1000000\<rparr>"

definition decimation :: "StreamState \<Rightarrow> int result" where
  "decimation s =
     (if st_iq_sample_rate_hz s = 0 then Inl (Exn ZeroDivisionError ''integer division or modulo by zero'')
      else Inr (250000000 div st_iq_sample_rate_hz s))"

definition reset_for_enable :: "StreamState \<Rightarrow> StreamState" where
  "reset_for_enable s = s\<lparr>st_seq := 0, st_adc_timestamp := 0, st_first_packet := True,
     st_oscillator := oscillator_init (st_iq_sample_rate_hz s)\<rparr>"

record PsdSettings =
  pc_psd_id :: int
  pc_source :: string
  pc_enable :: bool
  pc_enabled :: bool
  pc_start_frequency_hz :: int
  pc_stop_frequency_hz :: int
  pc_fft_size :: int
  pc_output_bins :: int
  pc_fps :: int
  pc_sample_format :: string

record Frontend =
  fe_attenuator_db :: int
  fe_lna :: string
  fe_filter :: string

datatype task = NoTask | Running | Finished

type_synonym conn = nat
type_synonym dest = "string \<times> int"

record FakeServer =
  sv_config :: FakeAc920Config
  sv_owner :: "conn option"
  sv_udp_dest :: "dest option"
  sv_udp_psd_dest :: "dest option"
  sv_udp_status_dest :: "dest option"
  sv_tx_task :: task
  sv_psd_task :: task
  sv_status_task :: task
  sv_status_seq :: int
  sv_psd_config :: PsdSettings
  sv_psd_frame_seq :: int
  sv_psd_first_frame :: bool
  sv_frontend :: Frontend
  sv_streams :: "(int \<times> StreamState) list"
  sv_iq_packets_sent :: int
  sv_psd_packets_sent :: int
  sv_wire :: "(dest \<times> bytes) list"
  sv_replies :: "(conn \<times> bytes) list"
  sv_handlers :: "(conn \<times> string) list"
  sv_closing :: "conn list"

definition psd_settings_init :: PsdSettings where
  "psd_settings_init = \<lparr>pc_psd_id = 0, pc_source = ''adc0'', pc_enable = False, pc_enabled = False,
     pc_start_frequency_hz = 500000, pc_stop_frequency_hz = 108000000, pc_fft_size = 16384,
     pc_output_bins = 4096, pc_fps = 10, pc_sample_format = ''I16_DBFS_Q8''\<rparr>"

text \<open>The server after \<open>__init__\<close> and \<open>start\<close>.\<close>

definition server_init :: "FakeAc920Config \<Rightarrow> FakeServer" where
  "server_init config = \<lparr>sv_config = config, sv_owner = None, sv_udp_dest = None, sv_udp_psd_dest = None,
     sv_udp_status_dest = None, sv_tx_task = NoTask, sv_psd_task = NoTask, sv_status_task = NoTask,
     sv_status_seq = 0, sv_psd_config = psd_settings_init, sv_psd_frame_seq = 0, sv_psd_first_frame = True,
     sv_frontend = \<lparr>fe_attenuator_db = 10, fe_lna = ''bypass'', fe_filter = ''LPF_108M''\<rparr>,
     sv_streams = [(0, stream_state_init 0), (1, stream_state_init 1)], sv_iq_packets_sent = 0,
     sv_psd_packets_sent = 0, sv_wire = [], sv_replies = [], sv_handlers = [], sv_closing = []\<rparr>"

definition server_start :: "FakeServer \<Rightarrow> FakeServer" where
  "server_start sv = sv\<lparr>sv_status_task := Running\<rparr>"

definition cancel_task :: "task \<Rightarrow> task" where
  "cancel_task t = (if t = Running then Finished else t)"

definition server_stop :: "FakeServer \<Rightarrow> FakeServer" where
  "server_stop sv = sv\<lparr>sv_tx_task := cancel_task (sv_tx_task sv),
     sv_psd_task := cancel_task (sv_psd_task sv), sv_status_task := cancel_task (sv_status_task sv)\<rparr>"

definition put_stream :: "int \<Rightarrow> StreamState \<Rightarrow> FakeServer \<Rightarrow> FakeServer" where
  "put_stream i s sv = sv\<lparr>sv_streams := dset (sv_streams sv) i s\<rparr>"

section \<open>Views of the state as dictionaries\<close>

definition psd_config_dict :: "PsdSettings \<Rightarrow> pydict" where
  "psd_config_dict c =
     [(''psd_id'', PInt (pc_psd_id c)), (''source'', PStr (pc_source c)),
      (''enable'', PBool (pc_enable c)), (''enabled'', PBool (pc_enabled c)),
      (''start_frequency_hz'', PInt (pc_start_frequency_hz c)),
      (''stop_frequency_hz'', PInt (pc_stop_frequency_hz c)), (''fft_size'', PInt (pc_fft_size c)),
      (''output_bins'', PInt (pc_output_bins c)), (''fps'', PInt (pc_fps c)),
      (''sample_format'', PStr (pc_sample_format c))]"

definition frontend_dict :: "Frontend \<Rightarrow> pydict" where
  "frontend_dict f = [(''attenuator_db'', PInt (fe_attenuator_db f)), (''lna'', PStr (fe_lna f)),
     (''filter'', PStr (fe_filter f))]"

definition stream_status :: "StreamState \<Rightarrow> pydict" where
  "stream_status s =
     [(''stream_id'', PInt (st_stream_id s)), (''adc_channel'', PInt (st_adc_channel s)),
      (''enabled'', PBool (st_enabled s)), (''frequency_hz'', PInt (st_frequency_hz s)),
      (''mode'', PStr (st_mode s)), (''iq_sample_rate_hz'', PInt (st_iq_sample_rate_hz s)),
      (''bandwidth_hz'', PInt (st_bandwidth_hz s)), (''sample_format'', PStr ''SC16_LE''),
      (''seq'', PInt (st_seq s)), (''fifo_overflow_count'', PInt (st_fifo_overflow_count s))]"

definition enabled_streams :: "FakeServer \<Rightarrow> StreamState list" where
  "enabled_streams sv = filter st_enabled (map snd (sv_streams sv))"

text \<open>\<open>t\<close> is the reading of \<open>_device_time_ms()\<close>.\<close>

definition status_object :: "int \<Rightarrow> FakeServer \<Rightarrow> FakeServer \<times> pydict" where
  "status_object t sv =
     (let sv1 = sv\<lparr>sv_status_seq := sv_status_seq sv + 1\<rparr>; c = sv_psd_config sv1
      in (sv1,
        [(''type'', PStr ''status''), (''protocol_version'', PInt 1), (''seq'', PInt (sv_status_seq sv1)),
         (''device_time_ms'', PInt t), (''adc_sample_rate_hz'', PInt 250000000),
         (''adc'', PDict
           [(''channel'', PInt 0), (''peak_dbfs'', PFloat (lit (- 145 / 10))),
            (''rms_dbfs'', PFloat (lit (- 312 / 10))),
            (''or_count'', PInt (if cfg_inject_adc_or (sv_config sv1) then sv_iq_packets_sent sv1 else 0)),
            (''clip_count'', PInt 0)]),
         (''frontend'', PDict (frontend_dict (sv_frontend sv1))),
         (''streams'', PList (map (\<lambda>s. PDict (stream_status s)) (enabled_streams sv1))),
         (''psd'', PList [PDict
           [(''psd_id'', PInt (pc_psd_id c)), (''enabled'', PBool (pc_enable c)),
            (''source'', PStr (pc_source c)), (''start_frequency_hz'', PInt (pc_start_frequency_hz c)),
            (''stop_frequency_hz'', PInt (pc_stop_frequency_hz c)), (''fft_size'', PInt (pc_fft_size c)),
            (''output_bins'', PInt (pc_output_bins c)), (''fps'', PInt (pc_fps c)),
            (''frame_seq'', PInt (sv_psd_frame_seq sv1)), (''dropped_frame_count'', PInt 0),
            (''missing_segment_count'', PInt 0), (''overflow_count'', PInt 0)]]),
         (''network'', PDict
           [(''iq_packets_sent'', PInt (sv_iq_packets_sent sv1)),
            (''psd_packets_sent'', PInt (sv_psd_packets_sent sv1)),
            (''status_packets_sent'', PInt (sv_status_seq sv1)),
            (''iq_fifo_overflow_count'', PInt (sum_list (map (st_fifo_overflow_count \<circ> snd) (sv_streams sv1)))),
            (''psd_fifo_overflow_count'', PInt 0)])]))"

section \<open>Commands\<close>

definition hello_limits :: pydict where
  "hello_limits =
     [(''adc_sample_rate_hz'', PInt 250000000), (''min_frequency_hz'', PInt 500000),
      (''max_frequency_hz'', PInt 108000000), (''max_iq_streams'', PInt 2),
      (''supported_iq_sample_rates_hz'', PList [PInt 125000, PInt 250000, PInt 500000, PInt 1000000]),
      (''supported_sample_formats'', PList [PStr ''SC16_LE'']),
      (''supported_psd_sources'', PList [PStr ''adc0'']), (''supported_psd_output_bins'', PList [PInt 4096]),
      (''supported_psd_fps'', PList [PInt 10]),
      (''supported_psd_sample_formats'', PList [PStr ''I16_DBFS_Q8'']),
      (''max_psd_segments_per_frame'', PInt 8), (''max_psd_bins_per_segment'', PInt 512),
      (''min_psd_span_hz'', PInt 100000), (''max_psd_span_hz'', PInt 107500000),
      (''max_udp_payload_bytes'', PInt 1200)]"

definition hello_device :: pydict where
  "hello_device = [(''name'', PStr ''fake-AC920-ACFL3432''), (''serial'', PStr ''fake''),
     (''firmware_version'', PStr ''0.1.0''), (''fpga_build_id'', PStr ''fake'')]"

definition port_of :: "pydict \<Rightarrow> string \<Rightarrow> int result" where
  "port_of udp k = rbind (dgetitem udp k) py_int"

definition cmd_hello ::
    "pyval \<Rightarrow> pydict \<Rightarrow> string \<Rightarrow> FakeServer \<Rightarrow> FakeServer \<times> pydict result" where
  "cmd_hello request_id request peer_ip sv =
     (if \<not> py_eq_int (dget request ''protocol_version'' PNone) 1
      then (sv, Inr (build_error request_id ''unsupported_version'' ''protocol_version must be 1'' []))
      else case dget request ''udp'' PNone of
        PDict udp \<Rightarrow>
          (let ip = dget udp ''destination_ip'' PNone;
               dest_ip = (if py_bool ip then py_str ip else peer_ip)
           in assign (port_of udp ''iq_port'') (\<lambda>p sv. sv\<lparr>sv_udp_dest := Some (dest_ip, p)\<rparr>)
             (assign (port_of udp ''psd_port'') (\<lambda>p sv. sv\<lparr>sv_udp_psd_dest := Some (dest_ip, p)\<rparr>)
             (assign (port_of udp ''status_port'') (\<lambda>p sv. sv\<lparr>sv_udp_status_dest := Some (dest_ip, p)\<rparr>)
             (\<lambda>sv. (sv, Inr (build_response request_id True
                [(''protocol_version'', PInt 1), (''device'', PDict hello_device),
                 (''limits'', PDict hello_limits)]))))) sv)
      | _ \<Rightarrow> (sv, Inr (build_error request_id ''invalid_field'' ''udp is required'' [])))"

definition set_attenuator :: "pyval \<Rightarrow> pydict \<Rightarrow> (FakeServer \<Rightarrow> FakeServer \<times> pydict result) \<Rightarrow>
    FakeServer \<Rightarrow> FakeServer \<times> pydict result" where
  "set_attenuator request_id request k sv =
     (case map_of request ''attenuator_db'' of None \<Rightarrow> k sv
      | Some v \<Rightarrow>
        (case py_int v of Inl e \<Rightarrow> (sv, Inl e)
         | Inr a \<Rightarrow>
           if a \<notin> {0, 10, 20, 30}
           then (sv, Inr (build_error request_id ''out_of_range'' ''attenuator_db must be 0/10/20/30'' []))
           else k (sv\<lparr>sv_frontend := (sv_frontend sv)\<lparr>fe_attenuator_db := a\<rparr>\<rparr>)))"

definition set_lna :: "pyval \<Rightarrow> pydict \<Rightarrow> (FakeServer \<Rightarrow> FakeServer \<times> pydict result) \<Rightarrow>
    FakeServer \<Rightarrow> FakeServer \<times> pydict result" where
  "set_lna request_id request k sv =
     (case map_of request ''lna'' of None \<Rightarrow> k sv
      | Some v \<Rightarrow>
        if py_str v \<notin> {''on'', ''bypass''}
        then (sv, Inr (build_error request_id ''invalid_field'' ''lna must be on or bypass'' []))
        else k (sv\<lparr>sv_frontend := (sv_frontend sv)\<lparr>fe_lna := py_str v\<rparr>\<rparr>))"

definition set_filter :: "pydict \<Rightarrow> FakeServer \<Rightarrow> FakeServer" where
  "set_filter request sv =
     (case map_of request ''filter'' of None \<Rightarrow> sv
      | Some v \<Rightarrow> sv\<lparr>sv_frontend := (sv_frontend sv)\<lparr>fe_filter := py_str v\<rparr>\<rparr>)"

definition cmd_set_frontend :: "pyval \<Rightarrow> pydict \<Rightarrow> FakeServer \<Rightarrow> FakeServer \<times> pydict result" where
  "cmd_set_frontend request_id request =
     set_attenuator request_id request (set_lna request_id request (\<lambda>sv.
       let sv1 = set_filter request sv
       in (sv1, Inr (build_response request_id True
             [(''applied'', PDict (frontend_dict (sv_frontend sv1)))]))))"

text \<open>The five assignments of \<open>_cmd_set_rx\<close>, in order; each keeps the current value by default.\<close>

definition configure_stream :: "pydict \<Rightarrow> StreamState \<Rightarrow> StreamState \<times> unit result" where
  "configure_stream request s =
     assign (py_int (dget request ''adc_channel'' (PInt (st_adc_channel s))))
       (\<lambda>v s. s\<lparr>st_adc_channel := v\<rparr>)
    (assign (py_int (dget request ''frequency_hz'' (PInt (st_frequency_hz s))))
       (\<lambda>v s. s\<lparr>st_frequency_hz := v\<rparr>)
    (assign (Inr (py_str (dget request ''mode'' (PStr (st_mode s)))))
       (\<lambda>v s. s\<lparr>st_mode := v\<rparr>)
    (assign (py_int (dget request ''iq_sample_rate_hz'' (PInt (st_iq_sample_rate_hz s))))
       (\<lambda>v s. s\<lparr>st_iq_sample_rate_hz := v\<rparr>)
    (assign (py_int (dget request ''bandwidth_hz'' (PInt (st_bandwidth_hz s))))
       (\<lambda>v s. s\<lparr>st_bandwidth_hz := v\<rparr>)
    (\<lambda>s. (s, Inr ())))))) s"

definition applied_rx :: "StreamState \<Rightarrow> int \<Rightarrow> pydict" where
  "applied_rx s d =
     [(''stream_id'', PInt (st_stream_id s)), (''adc_channel'', PInt (st_adc_channel s)),
      (''frequency_hz'', PInt (st_frequency_hz s)), (''mode'', PStr (st_mode s)),
      (''iq_sample_rate_hz'', PInt (st_iq_sample_rate_hz s)), (''bandwidth_hz'', PInt (st_bandwidth_hz s)),
      (''sample_format'', PStr ''SC16_LE''), (''decimation'', PInt d), (''enable'', PBool True)]"

definition start_task :: "task \<Rightarrow> task" where
  "start_task t = (if t = NoTask \<or> t = Finished then Running else t)"

definition cmd_set_rx :: "pyval \<Rightarrow> pydict \<Rightarrow> FakeServer \<Rightarrow> FakeServer \<times> pydict result" where
  "cmd_set_rx request_id request sv =
     (case py_int (dget request ''stream_id'' (PInt 0)) of Inl e \<Rightarrow> (sv, Inl e)
      | Inr stream_id \<Rightarrow>
        (case map_of (sv_streams sv) stream_id of
           None \<Rightarrow> (sv, Inr (build_error request_id ''out_of_range'' ''unsupported stream_id'' []))
         | Some stream \<Rightarrow>
           if \<not> py_bool (dget request ''enable'' (PBool (st_enabled stream))) then
             (put_stream stream_id (stream\<lparr>st_enabled := False\<rparr>) sv,
              Inr (build_response request_id True
                [(''applied'', PDict [(''stream_id'', PInt stream_id), (''enable'', PBool False)])]))
           else
             (let (stream1, r) = configure_stream request stream;
                  sv1 = put_stream stream_id stream1 sv
              in case r of Inl e \<Rightarrow> (sv1, Inl e)
                 | Inr _ \<Rightarrow>
                   if st_iq_sample_rate_hz stream1 \<notin> set RATES then
                     (sv1, Inr (build_error request_id ''out_of_range'' ''unsupported iq_sample_rate_hz'' []))
                   else
                     (let stream2 = reset_for_enable (stream1\<lparr>st_enabled := True\<rparr>);
                          sv2 = (put_stream stream_id stream2 sv1)\<lparr>sv_tx_task := start_task (sv_tx_task sv1)\<rparr>
                      in (sv2, rbind (decimation stream2) (\<lambda>d.
                            Inr (build_response request_id True
                              [(''applied'', PDict (applied_rx stream2 d))])))))))"

text \<open>The dictionary \<open>applied\<close> of \<open>_cmd_set_psd\<close>, its conversions in order.\<close>

definition requested_psd :: "pydict \<Rightarrow> PsdSettings result" where
  "requested_psd request =
     rbind (py_int (dget request ''psd_id'' (PInt 0))) (\<lambda>psd_id.
     rbind (py_int (dget request ''start_frequency_hz'' (PInt 500000))) (\<lambda>start.
     rbind (py_int (dget request ''stop_frequency_hz'' (PInt 108000000))) (\<lambda>stop.
     rbind (py_int (dget request ''fft_size'' (PInt 16384))) (\<lambda>fft_size.
     rbind (py_int (dget request ''output_bins'' (PInt 4096))) (\<lambda>output_bins.
     rbind (py_int (dget request ''fps'' (PInt 10))) (\<lambda>fps.
     Inr \<lparr>pc_psd_id = psd_id, pc_source = py_str (dget request ''source'' (PStr ''adc0'')),
          pc_enable = True, pc_enabled = True, pc_start_frequency_hz = start, pc_stop_frequency_hz = stop,
          pc_fft_size = fft_size, pc_output_bins = output_bins, pc_fps = fps,
          pc_sample_format = py_str (dget request ''sample_format'' (PStr ''I16_DBFS_Q8''))\<rparr>))))))"

definition cmd_set_psd :: "pyval \<Rightarrow> pydict \<Rightarrow> FakeServer \<Rightarrow> FakeServer \<times> pydict result" where
  "cmd_set_psd request_id request sv =
     (if \<not> py_bool (dget request ''enable'' (dget request ''enabled'' (PBool False))) then
        (let c = (sv_psd_config sv)\<lparr>pc_enable := False, pc_enabled := False\<rparr>
         in (sv\<lparr>sv_psd_config := c\<rparr>,
             Inr (build_response request_id True [(''applied'', PDict (psd_config_dict c))])))
      else case requested_psd request of Inl e \<Rightarrow> (sv, Inl e)
      | Inr applied \<Rightarrow>
        if pc_source applied \<noteq> ''adc0'' then
          (sv, Inr (build_error request_id ''out_of_range'' ''fake AC920 only supports adc0 PSD'' []))
        else if pc_start_frequency_hz applied < 500000 \<or> pc_stop_frequency_hz applied > 108000000 then
          (sv, Inr (build_error request_id ''out_of_range'' ''PSD range must stay within 0.5-108 MHz'' []))
        else if pc_stop_frequency_hz applied - pc_start_frequency_hz applied < 100000 then
          (sv, Inr (build_error request_id ''out_of_range'' ''PSD span must be at least 100 kHz'' []))
        else if pc_output_bins applied \<noteq> 4096 then
          (sv, Inr (build_error request_id ''out_of_range'' ''fake AC920 only supports 4096 PSD bins'' []))
        else if pc_fps applied \<noteq> 10 then
          (sv, Inr (build_error request_id ''out_of_range'' ''fake AC920 only supports 10 fps PSD'' []))
        else
          (sv\<lparr>sv_psd_config := applied, sv_psd_frame_seq := 0, sv_psd_first_frame := True,
              sv_psd_task := start_task (sv_psd_task sv)\<rparr>,
           Inr (build_response request_id True [(''applied'', PDict (psd_config_dict applied))])))"

definition stop_all :: "FakeServer \<Rightarrow> FakeServer" where
  "stop_all sv = sv\<lparr>sv_streams := map (\<lambda>(i, s). (i, s\<lparr>st_enabled := False\<rparr>)) (sv_streams sv),
     sv_psd_config := (sv_psd_config sv)\<lparr>pc_enable := False, pc_enabled := False\<rparr>\<rparr>"

section \<open>Dispatch\<close>

text \<open>\<open>except (TypeError, ValueError)\<close>\<close>

definition catch_field_errors :: "pyval \<Rightarrow> FakeServer \<times> pydict result \<Rightarrow> FakeServer \<times> pydict result" where
  "catch_field_errors request_id r =
     (case r of (sv, Inr resp) \<Rightarrow> (sv, Inr resp)
      | (sv, Inl e) \<Rightarrow>
          if subclass_of (exn_cls e) TypeError \<or> subclass_of (exn_cls e) ValueError
          then (sv, Inr (build_error request_id ''invalid_field'' (exn_str e) []))
          else (sv, Inl e))"

definition run_command ::
    "pyval \<Rightarrow> string \<Rightarrow> pydict \<Rightarrow> string \<Rightarrow> int \<Rightarrow> FakeServer \<Rightarrow> FakeServer \<times> pydict result" where
  "run_command request_id cmd request peer_ip t sv =
     (if cmd = ''hello'' then cmd_hello request_id request peer_ip sv
      else if cmd = ''ping'' then
        (sv, Inr (build_response request_id True
          [(''client_time_ms'', dget request ''client_time_ms'' PNone), (''device_time_ms'', PInt t)]))
      else if cmd = ''get_status'' then
        (let (sv1, status) = status_object t sv
         in (sv1, Inr (build_response request_id True [(''status'', PDict status)])))
      else if cmd = ''set_frontend'' then cmd_set_frontend request_id request sv
      else if cmd = ''set_rx'' then cmd_set_rx request_id request sv
      else if cmd = ''stop_all'' then (stop_all sv, Inr (build_response request_id True []))
      else if cmd = ''set_psd'' then cmd_set_psd request_id request sv
      else (sv, Inr (build_error request_id ''invalid_command'' (''unknown command '' @ cmd) [])))"

definition dispatch :: "bytes \<Rightarrow> string \<Rightarrow> int \<Rightarrow> FakeServer \<Rightarrow> FakeServer \<times> pydict result" where
  "dispatch line peer_ip t sv =
     (case decode_json_line line of
        Inl e \<Rightarrow> (sv, Inr (build_error PNone ''invalid_json'' ''request is not valid JSON'' []))
      | Inr request \<Rightarrow>
          (let request_id = dget request ''request_id'' PNone in
           if \<not> is_int_instance request_id
           then (sv, Inr (build_error PNone ''invalid_field'' ''request_id is required'' []))
           else case dget request ''cmd'' PNone of
             PStr cmd \<Rightarrow> catch_field_errors request_id (run_command request_id cmd request peer_ip t sv)
           | _ \<Rightarrow> (sv, Inr (build_error request_id ''invalid_field'' ''cmd is required'' []))))"

section \<open>IQ transmission\<close>

text \<open>\<open>sendto\<close>: the operating system takes the datagram or raises.\<close>

definition sendto :: "(dest \<Rightarrow> exn option) \<Rightarrow> dest \<Rightarrow> bytes \<Rightarrow> FakeServer \<Rightarrow> FakeServer \<times> unit result" where
  "sendto net dest data sv =
     (case net dest of Some e \<Rightarrow> (sv, Inl e) | None \<Rightarrow> (sv\<lparr>sv_wire := sv_wire sv @ [(dest, data)]\<rparr>, Inr ()))"

definition iq_header :: "FakeAc920Config \<Rightarrow> StreamState \<Rightarrow> int \<Rightarrow> int \<Rightarrow> bytes \<Rightarrow> SdrIqHeader" where
  "iq_header config s flags d payload = iq_default\<lparr>
     iq_stream_id := st_stream_id s, iq_seq := st_seq s, iq_adc_timestamp := st_adc_timestamp s,
     iq_frequency_hz := st_frequency_hz s, iq_iq_sample_rate_hz := st_iq_sample_rate_hz s,
     iq_bandwidth_hz := st_bandwidth_hz s, iq_sample_count := cfg_sample_count config, iq_flags := flags,
     iq_decimation := d, iq_payload_bytes := int (length payload)\<rparr>"

definition iq_packet_flags :: "FakeAc920Config \<Rightarrow> StreamState \<Rightarrow> int" where
  "iq_packet_flags config s =
     or (or (if st_first_packet s then or SDR_IQ_FLAG_DISCONTINUITY SDR_IQ_FLAG_CONFIG_CHANGED else 0)
            (if cfg_inject_adc_or config then SDR_IQ_FLAG_ADC_OR else 0))
        (if cfg_inject_fifo_overflow config then SDR_IQ_FLAG_FIFO_OVERFLOW else 0)"

text \<open>What building the packet leaves in the stream before the header exists.\<close>

definition mark_packet :: "FakeAc920Config \<Rightarrow> StreamState \<Rightarrow> StreamState" where
  "mark_packet config s =
     (let s1 = s\<lparr>st_first_packet := False\<rparr>
      in if cfg_inject_fifo_overflow config
         then s1\<lparr>st_fifo_overflow_count := st_fifo_overflow_count s1 + 1\<rparr> else s1)"

definition advance_stream :: "SdrIqHeader \<Rightarrow> StreamState \<Rightarrow> StreamState" where
  "advance_stream header s = s\<lparr>st_seq := mask32 (st_seq s + 1),
     st_adc_timestamp := mask64 (st_adc_timestamp s + iq_next_timestamp_delta header)\<rparr>"

definition should_drop :: "FakeServer \<Rightarrow> bool" where
  "should_drop sv \<longleftrightarrow> 0 < cfg_drop_every (sv_config sv)
     \<and> sv_iq_packets_sent sv mod cfg_drop_every (sv_config sv) = 0"

definition send_iq_packet ::
    "libm \<Rightarrow> (nat \<Rightarrow> pyfloat) \<Rightarrow> (dest \<Rightarrow> exn option) \<Rightarrow> int \<Rightarrow> StreamState \<Rightarrow>
     FakeServer \<Rightarrow> FakeServer \<times> unit result" where
  "send_iq_packet m draws net i stream sv =
     (let config = sv_config sv;
          (osc, made) = make_iq m draws (cfg_scenario config) (cfg_sample_count config) (st_oscillator stream);
          stream1 = stream\<lparr>st_oscillator := osc\<rparr>
      in case rbind made complex_to_sc16 of
           Inl e \<Rightarrow> (put_stream i stream1 sv, Inl e)
         | Inr payload \<Rightarrow>
           (let flags = iq_packet_flags config stream1;
                stream2 = mark_packet config stream1;
                sv1 = put_stream i stream2 sv
            in case decimation stream2 of Inl e \<Rightarrow> (sv1, Inl e)
               | Inr d \<Rightarrow>
                 (let header = iq_header config stream2 flags d payload;
                      sv2 = sv1\<lparr>sv_iq_packets_sent := sv_iq_packets_sent sv1 + 1\<rparr>;
                      (sv3, sent) =
                        (case sv_udp_dest sv2 of
                           Some dest \<Rightarrow>
                             if should_drop sv2 then (sv2, Inr ())
                             else (case iq_pack header of Inl e \<Rightarrow> (sv2, Inl e)
                                   | Inr bs \<Rightarrow> sendto net dest (bs @ payload) sv2)
                         | None \<Rightarrow> (sv2, Inr ()))
                  in case sent of Inl e \<Rightarrow> (sv3, Inl e)
                     | Inr _ \<Rightarrow> (put_stream i (advance_stream header stream2) sv3, Inr ()))))"

text \<open>The inner \<open>for\<close> of \<open>_iq_loop\<close>: the streams of \<open>active\<close> in turn, the first exception ends it.\<close>

fun send_active ::
    "libm \<Rightarrow> (int \<Rightarrow> nat \<Rightarrow> pyfloat) \<Rightarrow> (dest \<Rightarrow> exn option) \<Rightarrow> (int \<times> StreamState) list \<Rightarrow>
     FakeServer \<Rightarrow> FakeServer \<times> unit result" where
  "send_active m draws net [] sv = (sv, Inr ())"
| "send_active m draws net ((i, s) # rest) sv =
     (case send_iq_packet m (draws i) net i s sv of
        (sv1, Inl e) \<Rightarrow> (sv1, Inl e)
      | (sv1, Inr _) \<Rightarrow> send_active m draws net rest sv1)"

definition active_streams :: "FakeServer \<Rightarrow> (int \<times> StreamState) list" where
  "active_streams sv = filter (\<lambda>(i, s). st_enabled s) (sv_streams sv)"

text \<open>
  One iteration of \<open>_iq_loop\<close>. An exception ends the task; the pause at the end of an iteration is
  computed by a division that may raise too.
\<close>

definition iq_tick ::
    "libm \<Rightarrow> (int \<Rightarrow> nat \<Rightarrow> pyfloat) \<Rightarrow> (dest \<Rightarrow> exn option) \<Rightarrow> FakeServer \<Rightarrow> FakeServer" where
  "iq_tick m draws net sv =
     (let active = active_streams sv in
      if sv_tx_task sv \<noteq> Running \<or> active = [] \<or> sv_udp_dest sv = None then sv
      else case send_active m draws net active sv of
        (sv1, Inl e) \<Rightarrow> sv1\<lparr>sv_tx_task := Finished\<rparr>
      | (sv1, Inr _) \<Rightarrow>
          (case int_truediv (cfg_sample_count (sv_config sv1))
                  (Max (set (map (st_iq_sample_rate_hz \<circ> snd) active))) of
             Inl e \<Rightarrow> sv1\<lparr>sv_tx_task := Finished\<rparr> | Inr _ \<Rightarrow> sv1))"

section \<open>PSD transmission\<close>

definition carriers :: "int list" where
  "carriers = [1000000, 7100000, 14200000, 27000000, 88500000, 98500000]"

fun carrier_loop :: "int \<Rightarrow> int \<Rightarrow> pyfloat \<Rightarrow> int list \<Rightarrow> pyfloat \<Rightarrow> pyfloat result" where
  "carrier_loop span_hz total_bins freq [] db = Inr db"
| "carrier_loop span_hz total_bins freq (c # cs) db =
     rbind (float_of_int c) (\<lambda>carrier.
     rbind (int_truediv span_hz total_bins) (\<lambda>width.
     rbind (fdiv (fabs (fsub freq carrier)) width) (\<lambda>distance.
     carrier_loop span_hz total_bins freq cs
       (if flt distance (FFin 5) then fmax db (fsub (FFin (- 38)) (fmul distance (FFin (9 / 2)))) else db))))"

definition make_psd_bin :: "int \<Rightarrow> int \<Rightarrow> int \<Rightarrow> int \<Rightarrow> int result" where
  "make_psd_bin total_bins start_hz stop_hz index =
     (let span_hz = stop_hz - start_hz in
      rbind (float_of_int index) (\<lambda>i.
      rbind (float_of_int span_hz) (\<lambda>s.
      rbind (float_of_int total_bins) (\<lambda>n.
      rbind (fdiv (fmul (fadd i (FFin (1 / 2))) s) n) (\<lambda>off.
      rbind (float_of_int start_hz) (\<lambda>st.
      let freq = fadd st off in
      rbind (float_of_int (index * 17 mod 31)) (\<lambda>k.
      rbind (fdiv (fmul (FFin 4) k) (FFin 31)) (\<lambda>noise.
      rbind (carrier_loop span_hz total_bins freq carriers (fadd (FFin (- 96)) noise)) (\<lambda>db.
      rbind (round_float (fmul db (FFin 256))) (\<lambda>q. Inr (clamp16 q)))))))))))"

definition make_psd_bins_q8 :: "int \<Rightarrow> int \<Rightarrow> int \<Rightarrow> int list result" where
  "make_psd_bins_q8 total_bins start_hz stop_hz =
     rmap (make_psd_bin total_bins start_hz stop_hz) (map int [0..<nat total_bins])"

definition psd_header ::
    "PsdSettings \<Rightarrow> int \<Rightarrow> int \<Rightarrow> int \<Rightarrow> int \<Rightarrow> int \<Rightarrow> int \<Rightarrow> bytes \<Rightarrow> SdrPsdHeader" where
  "psd_header c frame_seq t spacing segment_count flags segment_index payload = psd_default\<lparr>
     psd_psd_id := pc_psd_id c, psd_frame_seq := frame_seq, psd_adc_timestamp := t * 250000,
     psd_start_frequency_hz := pc_start_frequency_hz c, psd_bin_spacing_millihz := spacing,
     psd_fft_size := pc_fft_size c, psd_total_bins := pc_output_bins c,
     psd_segment_index := segment_index, psd_segment_count := segment_count,
     psd_bin_start := segment_index * 512, psd_bin_count := 512, psd_flags := flags,
     psd_averaging_count := 4, psd_payload_bytes := int (length payload),
     psd_stop_frequency_hz := pc_stop_frequency_hz c\<rparr>"

definition segment_payload :: "int list \<Rightarrow> int \<Rightarrow> bytes result" where
  "segment_payload bins segment_index =
     rbind (rmap (to_bytes_signed 2) (take 512 (drop (nat (segment_index * 512)) bins))) (\<lambda>bss. Inr (concat bss))"

text \<open>\<open>clock i\<close> is the reading of \<open>_device_time_ms()\<close> for segment \<open>i\<close>.\<close>

fun send_segments ::
    "(int \<Rightarrow> int) \<Rightarrow> (dest \<Rightarrow> exn option) \<Rightarrow> int \<Rightarrow> int \<Rightarrow> int \<Rightarrow> int list \<Rightarrow> int list \<Rightarrow>
     FakeServer \<Rightarrow> FakeServer \<times> unit result" where
  "send_segments clock net spacing segment_count flags bins [] sv = (sv, Inr ())"
| "send_segments clock net spacing segment_count flags bins (i # is) sv =
     (case segment_payload bins i of Inl e \<Rightarrow> (sv, Inl e)
      | Inr payload \<Rightarrow>
        (let header = psd_header (sv_psd_config sv) (sv_psd_frame_seq sv) (clock i) spacing
                        segment_count flags i payload;
             (sv1, sent) =
               (case sv_udp_psd_dest sv of None \<Rightarrow> (sv, Inr ())
                | Some dest \<Rightarrow>
                  (case psd_pack header of Inl e \<Rightarrow> (sv, Inl e)
                   | Inr bs \<Rightarrow>
                     (case sendto net dest (bs @ payload) sv of (sv1, Inl e) \<Rightarrow> (sv1, Inl e)
                      | (sv1, Inr _) \<Rightarrow> (sv1\<lparr>sv_psd_packets_sent := sv_psd_packets_sent sv1 + 1\<rparr>, Inr ()))))
         in case sent of Inl e \<Rightarrow> (sv1, Inl e)
            | Inr _ \<Rightarrow> send_segments clock net spacing segment_count flags bins is sv1))"

definition send_psd_frame ::
    "(int \<Rightarrow> int) \<Rightarrow> (dest \<Rightarrow> exn option) \<Rightarrow> FakeServer \<Rightarrow> FakeServer \<times> unit result" where
  "send_psd_frame clock net sv =
     (let c = sv_psd_config sv; total_bins = pc_output_bins c; segment_count = total_bins div 512;
          start_hz = pc_start_frequency_hz c; stop_hz = pc_stop_frequency_hz c
      in case rbind (rbind (int_truediv ((stop_hz - start_hz) * 1000) total_bins) round_float) (\<lambda>spacing.
                rbind (make_psd_bins_q8 total_bins start_hz stop_hz) (\<lambda>bins. Inr (spacing, bins))) of
           Inl e \<Rightarrow> (sv, Inl e)
         | Inr (spacing, bins) \<Rightarrow>
           (let flags = (if sv_psd_first_frame sv then SDR_PSD_FLAG_CONFIG_CHANGED else 0);
                sv1 = sv\<lparr>sv_psd_first_frame := False\<rparr>
            in case send_segments clock net spacing segment_count flags bins
                      (map int [0..<nat segment_count]) sv1 of
                 (sv2, Inl e) \<Rightarrow> (sv2, Inl e)
               | (sv2, Inr _) \<Rightarrow> (sv2\<lparr>sv_psd_frame_seq := mask32 (sv_psd_frame_seq sv2 + 1)\<rparr>, Inr ())))"

definition psd_tick :: "(int \<Rightarrow> int) \<Rightarrow> (dest \<Rightarrow> exn option) \<Rightarrow> FakeServer \<Rightarrow> FakeServer" where
  "psd_tick clock net sv =
     (if sv_psd_task sv \<noteq> Running \<or> \<not> pc_enable (sv_psd_config sv) \<or> sv_udp_psd_dest sv = None then sv
      else case send_psd_frame clock net sv of
        (sv1, Inl e) \<Rightarrow> sv1\<lparr>sv_psd_task := Finished\<rparr> | (sv1, Inr _) \<Rightarrow> sv1)"

definition status_tick :: "int \<Rightarrow> (dest \<Rightarrow> exn option) \<Rightarrow> FakeServer \<Rightarrow> FakeServer" where
  "status_tick t net sv =
     (if sv_status_task sv \<noteq> Running then sv
      else case sv_udp_status_dest sv of None \<Rightarrow> sv
      | Some dest \<Rightarrow>
        (let (sv1, status) = status_object t sv
         in case utf8_encode (dumps True (PDict status)) of
              Inl e \<Rightarrow> sv1\<lparr>sv_status_task := Finished\<rparr>
            | Inr payload \<Rightarrow>
              (case sendto net dest payload sv1 of (sv2, Inl e) \<Rightarrow> sv2\<lparr>sv_status_task := Finished\<rparr>
               | (sv2, Inr _) \<Rightarrow> sv2)))"

definition status_interval :: "FakeServer \<Rightarrow> pyfloat" where
  "status_interval sv =
     (if (\<exists>s \<in> set (map snd (sv_streams sv)). st_enabled s) \<or> pc_enable (sv_psd_config sv)
      then cfg_status_interval_active_s (sv_config sv) else cfg_status_interval_idle_s (sv_config sv))"

section \<open>Connections\<close>

definition write_reply :: "conn \<Rightarrow> bytes \<Rightarrow> FakeServer \<Rightarrow> FakeServer" where
  "write_reply c line sv = sv\<lparr>sv_replies := sv_replies sv @ [(c, line)]\<rparr>"

definition busy_line :: "bytes result" where
  "busy_line = encode_json_line (build_error PNone ''busy'' ''device already has an owner'' [])"

text \<open>The head of \<open>_handle_client\<close>: refuse a second client, otherwise become the owner.\<close>

definition accept_client :: "conn \<Rightarrow> string \<Rightarrow> FakeServer \<Rightarrow> FakeServer" where
  "accept_client c peer_ip sv =
     (case sv_owner sv of
        Some o' \<Rightarrow>
          if o' \<notin> set (sv_closing sv)
          then (case busy_line of Inr line \<Rightarrow> write_reply c line sv | Inl e \<Rightarrow> sv)
          else sv\<lparr>sv_owner := Some c, sv_handlers := sv_handlers sv @ [(c, peer_ip)]\<rparr>
      | None \<Rightarrow> sv\<lparr>sv_owner := Some c, sv_handlers := sv_handlers sv @ [(c, peer_ip)]\<rparr>)"

text \<open>The \<open>finally\<close> of \<open>_handle_client\<close>.\<close>

definition leave_client :: "conn \<Rightarrow> FakeServer \<Rightarrow> FakeServer" where
  "leave_client c sv =
     (let sv1 = (if sv_owner sv = Some c
                 then (stop_all sv)\<lparr>sv_owner := None, sv_udp_dest := None, sv_udp_psd_dest := None,
                        sv_udp_status_dest := None\<rparr>
                 else sv)
      in sv1\<lparr>sv_handlers := ddel (sv_handlers sv1) c\<rparr>)"

text \<open>
  One round of the loop of \<open>_handle_client\<close>: an exception of \<open>_dispatch\<close>, of encoding the response,
  or of \<open>drain\<close> on a lost connection ends the handler.
\<close>

definition handle_line :: "conn \<Rightarrow> bytes \<Rightarrow> int \<Rightarrow> FakeServer \<Rightarrow> FakeServer" where
  "handle_line c line t sv =
     (case map_of (sv_handlers sv) c of None \<Rightarrow> sv
      | Some peer_ip \<Rightarrow>
        (case dispatch line peer_ip t sv of
           (sv1, Inl e) \<Rightarrow> leave_client c sv1
         | (sv1, Inr response) \<Rightarrow>
           (case encode_json_line response of
              Inl e \<Rightarrow> leave_client c sv1
            | Inr reply \<Rightarrow>
              if c \<in> set (sv_closing sv1) then leave_client c sv1 else write_reply c reply sv1)))"

definition handle_eof :: "conn \<Rightarrow> FakeServer \<Rightarrow> FakeServer" where
  "handle_eof c sv = (case map_of (sv_handlers sv) c of None \<Rightarrow> sv | Some _ \<Rightarrow> leave_client c sv)"

datatype event =
    Connect conn string | Line conn bytes int | Eof conn | TransportLost conn
  | IqTick "int \<Rightarrow> nat \<Rightarrow> pyfloat" | PsdTick "int \<Rightarrow> int" | StatusTick int

fun server_step :: "libm \<Rightarrow> (dest \<Rightarrow> exn option) \<Rightarrow> FakeServer \<Rightarrow> event \<Rightarrow> FakeServer" where
  "server_step m net sv (Connect c ip) = accept_client c ip sv"
| "server_step m net sv (Line c line t) = handle_line c line t sv"
| "server_step m net sv (Eof c) = handle_eof c sv"
| "server_step m net sv (TransportLost c) = sv\<lparr>sv_closing := c # sv_closing sv\<rparr>"
| "server_step m net sv (IqTick draws) = iq_tick m draws net sv"
| "server_step m net sv (PsdTick clock) = psd_tick clock net sv"
| "server_step m net sv (StatusTick t) = status_tick t net sv"

end
