(* ===== verification/Server_Control.thy ===== *)
theory Server_Control
  imports Fake_Server
begin

text \<open>
  The control plane of the simulated device: what a request line does and answers, which
  exceptions leave \<open>_dispatch\<close>, the invariant every event keeps, and who may control the device.
\<close>

section \<open>Answers\<close>

text \<open>
  A well-formed answer to the request identified by \<open>i\<close> (\<open>PNone\<close> when it could not be read): it
  echoes the identifier and either reports success or an error with one of the protocol's codes.
\<close>

definition reply_for :: "pyval \<Rightarrow> pydict \<Rightarrow> bool" where
  "reply_for i resp \<longleftrightarrow>
     map_of resp ''request_id'' = (if i = PNone then None else Some i) \<and>
     (map_of resp ''ok'' = Some (PBool True) \<or>
      (\<exists>code msg. map_of resp ''ok'' = Some (PBool False) \<and> code \<in> set ERROR_CODES
         \<and> map_of resp ''error'' = Some (PDict [(''code'', PStr code), (''message'', PStr msg)])))"

lemma reply_for_error [simp]: "reply_for i (build_error i code msg [])"
  by (auto simp: reply_for_def build_error_eq ERROR_CODES_def)

lemma reply_for_response [simp]:
  assumes "dict_ok fs" "''ok'' \<notin> fst ` set fs" "''request_id'' \<notin> fst ` set fs"
  shows "reply_for i (build_response i True fs)"
proof -
  have "map_of fs ''request_id'' = None" using assms(3) by (simp add: map_of_eq_None_iff)
  with assms show ?thesis by (auto simp: reply_for_def build_response_eq)
qed

section \<open>Exceptions of the commands\<close>

definition field_exn :: "exn \<Rightarrow> bool" where
  "field_exn e \<longleftrightarrow> exn_cls e \<in> {TypeError, ValueError, OverflowError}"

lemma py_int_field_exn: "py_int v = Inl e \<Longrightarrow> field_exn e"
  using py_int_error_class[of v e] by (auto simp: field_exn_def)

lemma port_of_exn: "port_of udp k = Inl e \<Longrightarrow> field_exn e \<or> exn_cls e = KeyError"
  by (auto simp: port_of_def rbind_eq_Inl dgetitem_def dest: py_int_field_exn split: option.splits)

lemma decimation_ok: "st_iq_sample_rate_hz s \<in> set RATES \<Longrightarrow>
    \<exists>d. decimation s = Inr d \<and> d * st_iq_sample_rate_hz s = 250000000 \<and> 250 \<le> d \<and> d \<le> 2000"
  by (auto simp: RATES_def decimation_def)

lemma assign_Inl: "assign r upd k s = (s', Inl e) \<longleftrightarrow>
    r = Inl e \<and> s' = s \<or> (\<exists>v. r = Inr v \<and> k (upd v s) = (s', Inl e))"
  by (cases r) auto

lemma assign_Inr: "assign r upd k s = (s', Inr y) \<longleftrightarrow> (\<exists>v. r = Inr v \<and> k (upd v s) = (s', Inr y))"
  by (cases r) auto

lemma configure_stream_exn: "configure_stream request s = (s', Inl e) \<Longrightarrow> field_exn e"
  by (auto simp: configure_stream_def assign_Inl dest: py_int_field_exn)

lemma requested_psd_exn: "requested_psd request = Inl e \<Longrightarrow> field_exn e"
  by (auto simp: requested_psd_def rbind_eq_Inl dest: py_int_field_exn)

lemma cmd_hello_exn: "cmd_hello i request ip sv = (sv', Inl e) \<Longrightarrow> field_exn e \<or> exn_cls e = KeyError"
  by (auto simp: cmd_hello_def Let_def assign_Inl dest: port_of_exn split: if_splits pyval.splits)

lemma cmd_set_frontend_exn: "cmd_set_frontend i request sv = (sv', Inl e) \<Longrightarrow> field_exn e"
  by (auto simp: cmd_set_frontend_def set_attenuator_def set_lna_def Let_def dest: py_int_field_exn
      split: if_splits option.splits sum.splits)

lemma cmd_set_rx_exn:
  assumes "cmd_set_rx i request sv = (sv', Inl e)"
  shows "field_exn e"
proof -
  have "False" if "st_iq_sample_rate_hz s \<in> set RATES" "decimation (reset_for_enable (s\<lparr>st_enabled := True\<rparr>)) = Inl e" for s
    using decimation_ok[of "reset_for_enable (s\<lparr>st_enabled := True\<rparr>)"] that by (auto simp: reset_for_enable_def)
  with assms show ?thesis
    by (auto simp: cmd_set_rx_def Let_def rbind_eq_Inl dest: py_int_field_exn configure_stream_exn
        split: if_splits option.splits sum.splits prod.splits)
qed

lemma cmd_set_psd_exn: "cmd_set_psd i request sv = (sv', Inl e) \<Longrightarrow> field_exn e"
  by (auto simp: cmd_set_psd_def Let_def dest: requested_psd_exn split: if_splits sum.splits)

lemmas command_exns = cmd_hello_exn cmd_set_frontend_exn cmd_set_rx_exn cmd_set_psd_exn

lemma run_command_exn: "run_command i cmd request ip t sv = (sv', Inl e) \<Longrightarrow> field_exn e \<or> exn_cls e = KeyError"
  by (auto simp: run_command_def dest: command_exns split: if_splits prod.splits)

section \<open>Replies of the commands\<close>

lemma cmd_hello_reply: "cmd_hello i request ip sv = (sv', Inr resp) \<Longrightarrow> reply_for i resp"
  by (auto simp: cmd_hello_def Let_def assign_Inr dict_ok_def split: if_splits pyval.splits)

lemma cmd_set_frontend_reply: "cmd_set_frontend i request sv = (sv', Inr resp) \<Longrightarrow> reply_for i resp"
  by (auto simp: cmd_set_frontend_def set_attenuator_def set_lna_def Let_def dict_ok_def
      split: if_splits option.splits sum.splits)

lemma cmd_set_rx_reply: "cmd_set_rx i request sv = (sv', Inr resp) \<Longrightarrow> reply_for i resp"
  by (auto simp: cmd_set_rx_def Let_def rbind_eq_Inr dict_ok_def
      split: if_splits option.splits sum.splits prod.splits)

lemma cmd_set_psd_reply: "cmd_set_psd i request sv = (sv', Inr resp) \<Longrightarrow> reply_for i resp"
  by (auto simp: cmd_set_psd_def Let_def dict_ok_def split: if_splits sum.splits)

lemmas command_replies = cmd_hello_reply cmd_set_frontend_reply cmd_set_rx_reply cmd_set_psd_reply

lemma run_command_reply: "run_command i cmd request ip t sv = (sv', Inr resp) \<Longrightarrow> reply_for i resp"
  by (auto simp: run_command_def dict_ok_def dest: command_replies split: if_splits prod.splits)

text \<open>The identifier a line asks to be answered with.\<close>

definition asked_id :: "bytes \<Rightarrow> pyval" where
  "asked_id line = (case decode_json_line line of Inl e \<Rightarrow> PNone
     | Inr request \<Rightarrow> (let i = dget request ''request_id'' PNone in if is_int_instance i then i else PNone))"

lemma dispatch_cases:
  obtains (refused) code msg where "dispatch line ip t sv = (sv, Inr (build_error (asked_id line) code msg []))"
  | (command) request cmd where "decode_json_line line = Inr request" "dget request ''cmd'' PNone = PStr cmd"
      "asked_id line = dget request ''request_id'' PNone" "is_int_instance (asked_id line)"
      "dispatch line ip t sv = catch_field_errors (asked_id line) (run_command (asked_id line) cmd request ip t sv)"
proof (cases "decode_json_line line")
  case (Inl e)
  then show ?thesis using refused by (simp add: dispatch_def asked_id_def)
next
  case (Inr request)
  show ?thesis
  proof (cases "is_int_instance (dget request ''request_id'' PNone)")
    case False
    with Inr show ?thesis using refused by (simp add: dispatch_def asked_id_def)
  next
    case True
    with Inr show ?thesis using refused command[of request]
      by (cases "dget request ''cmd'' PNone") (simp_all add: dispatch_def asked_id_def Let_def)
  qed
qed

lemma dispatch_reply:
  assumes "dispatch line ip t sv = (sv', Inr resp)"
  shows "reply_for (asked_id line) resp"
proof (cases rule: dispatch_cases[of line ip t sv])
  case refused
  with assms show ?thesis by auto
next
  case (command request cmd)
  with assms show ?thesis
    by (auto simp: catch_field_errors_def split: prod.splits sum.splits if_splits dest: run_command_reply)
qed

lemma dispatch_exn:
  assumes "dispatch line ip t sv = (sv', Inl e)"
  shows "exn_cls e = KeyError \<or> exn_cls e = OverflowError"
proof (cases rule: dispatch_cases[of line ip t sv])
  case refused
  with assms show ?thesis by simp
next
  case (command request cmd)
  with assms show ?thesis
    by (auto simp: catch_field_errors_def subclass_of_def field_exn_def split: prod.splits sum.splits if_splits
        dest!: run_command_exn)
qed

section \<open>Silence\<close>

definition quiet :: "FakeServer \<Rightarrow> bool" where
  "quiet sv \<longleftrightarrow> (\<forall>s \<in> set (map snd (sv_streams sv)). \<not> st_enabled s) \<and> \<not> pc_enable (sv_psd_config sv)"

lemma quiet_stop_all: "quiet (stop_all sv)"
  by (auto simp: quiet_def stop_all_def)

lemma quiet_iq_tick: "quiet sv \<Longrightarrow> iq_tick m draws net sv = sv"
  by (auto simp: quiet_def iq_tick_def active_streams_def Let_def filter_empty_conv)

lemma quiet_psd_tick: "quiet sv \<Longrightarrow> psd_tick clock net sv = sv"
  by (simp add: quiet_def psd_tick_def)

text \<open>A status tick touches its counter, its task and the log of the socket only.\<close>

lemma status_tick_frame:
  "\<exists>n tk ds. status_tick t net sv = sv\<lparr>sv_status_seq := n, sv_status_task := tk, sv_wire := sv_wire sv @ ds\<rparr>
     \<and> (\<forall>d \<in> set ds. Some (fst d) = sv_udp_status_dest sv)"
proof -
  have same: "sv = sv\<lparr>sv_status_seq := sv_status_seq sv, sv_status_task := sv_status_task sv, sv_wire := sv_wire sv @ []\<rparr>"
    by simp
  show ?thesis
  proof (cases "sv_status_task sv = Running \<and> sv_udp_status_dest sv \<noteq> None")
    case True
    then obtain dest where dest: "sv_udp_status_dest sv = Some dest" and run: "sv_status_task sv = Running" by auto
    obtain sv1 status where so: "status_object t sv = (sv1, status)" by fastforce
    then have sv1: "sv1 = sv\<lparr>sv_status_seq := sv_status_seq sv + 1\<rparr>" by (simp add: status_object_def Let_def)
    show ?thesis
    proof (cases "\<exists>payload. utf8_encode (dumps True (PDict status)) = Inr payload \<and> net dest = None")
      case True
      then obtain payload where "utf8_encode (dumps True (PDict status)) = Inr payload" "net dest = None" by blast
      then have "status_tick t net sv = sv\<lparr>sv_status_seq := sv_status_seq sv + 1, sv_status_task := Running,
          sv_wire := sv_wire sv @ [(dest, payload)]\<rparr>"
        using run dest so by (simp add: status_tick_def sendto_def sv1)
      with dest show ?thesis by fastforce
    next
      case False
      then have "status_tick t net sv = sv\<lparr>sv_status_seq := sv_status_seq sv + 1, sv_status_task := Finished,
          sv_wire := sv_wire sv @ []\<rparr>"
        using run dest so by (auto simp: status_tick_def sendto_def sv1 split: sum.splits option.splits)
      then show ?thesis by fastforce
    qed
  next
    case False
    then have "status_tick t net sv = sv" by (cases "sv_udp_status_dest sv") (auto simp: status_tick_def)
    with same show ?thesis by (metis empty_iff list.set(1))
  qed
qed

fun is_tick :: "event \<Rightarrow> bool" where
  "is_tick (IqTick d) = True"
| "is_tick (PsdTick c) = True"
| "is_tick (StatusTick t) = True"
| "is_tick _ = False"

definition hushed :: "FakeServer \<Rightarrow> FakeServer \<Rightarrow> bool" where
  "hushed sv sv' \<longleftrightarrow> quiet sv' \<and> sv_iq_packets_sent sv' = sv_iq_packets_sent sv
     \<and> sv_psd_packets_sent sv' = sv_psd_packets_sent sv \<and> sv_udp_status_dest sv' = sv_udp_status_dest sv
     \<and> (\<exists>ds. sv_wire sv' = sv_wire sv @ ds \<and> (\<forall>d \<in> set ds. Some (fst d) = sv_udp_status_dest sv))"

lemma hushed_status_tick:
  assumes "hushed sv sv'"
  shows "hushed sv (status_tick t net sv')"
proof -
  obtain n tk ds where st: "status_tick t net sv' = sv'\<lparr>sv_status_seq := n, sv_status_task := tk, sv_wire := sv_wire sv' @ ds\<rparr>"
    "\<forall>d \<in> set ds. Some (fst d) = sv_udp_status_dest sv'"
    using status_tick_frame by blast
  obtain es where es: "sv_wire sv' = sv_wire sv @ es" "\<forall>d \<in> set es. Some (fst d) = sv_udp_status_dest sv"
    using assms by (auto simp: hushed_def)
  have "\<forall>d \<in> set (es @ ds). Some (fst d) = sv_udp_status_dest sv" using st(2) es(2) assms by (auto simp: hushed_def)
  with assms st(1) es(1) show ?thesis by (auto simp: hushed_def quiet_def)
qed

interpretation hush: guarded_machine "server_step m net" "hushed sv" is_tick for m net sv
proof
  fix s e assume "hushed sv s" "is_tick e"
  moreover from this(1) have "quiet s" by (simp add: hushed_def)
  ultimately show "hushed sv (server_step m net s e)"
    by (cases e) (auto simp: quiet_iq_tick quiet_psd_tick hushed_status_tick)
qed

text \<open>
  C30 (\<open>stop_all\<close> silences the device). After \<open>stop_all\<close>, however often the transmit loops run, no
  IQ packet and no PSD segment is sent and the two packet counters stand still; the only datagrams
  are status reports to the status port.
\<close>

theorem stop_all_silences:
  assumes "list_all is_tick es" and "sv' = foldl (server_step m net) (stop_all sv) es"
  shows "sv_iq_packets_sent sv' = sv_iq_packets_sent sv \<and> sv_psd_packets_sent sv' = sv_psd_packets_sent sv
    \<and> (\<exists>ds. sv_wire sv' = sv_wire sv @ ds \<and> (\<forall>d \<in> set ds. Some (fst d) = sv_udp_status_dest sv))"
proof -
  have "hushed sv (stop_all sv)" using quiet_stop_all[of sv] by (auto simp: hushed_def stop_all_def)
  from hush.legal_run_inv[OF this assms(1), of m net] assms(2) show ?thesis by (simp add: hushed_def)
qed

text \<open>A server in the middle of its work, for examples: stream 0 and the PSD are on.\<close>

definition live_server :: FakeServer where
  "live_server = (server_init fake_config_default)\<lparr>sv_owner := Some 1, sv_handlers := [(1, ''10.0.0.2'')],
     sv_udp_dest := Some (''10.0.0.2'', 9001), sv_udp_psd_dest := Some (''10.0.0.2'', 9002),
     sv_udp_status_dest := Some (''10.0.0.2'', 9003), sv_tx_task := Running, sv_psd_task := Running,
     sv_status_task := Running, sv_psd_config := psd_settings_init\<lparr>pc_enable := True, pc_enabled := True\<rparr>,
     sv_streams := [(0, (stream_state_init 0)\<lparr>st_enabled := True\<rparr>), (1, stream_state_init 1)]\<rparr>"

theorem stop_all_silences_witness:
  "sv_iq_packets_sent (foldl (server_step flat_libm (\<lambda>d. None)) (stop_all live_server)
     [IqTick (\<lambda>i n. FFin 0), StatusTick 7, PsdTick (\<lambda>i. 0), IqTick (\<lambda>i n. FFin 0)]) = 0"
  using stop_all_silences[of "[IqTick (\<lambda>i n. FFin 0), StatusTick 7, PsdTick (\<lambda>i. 0), IqTick (\<lambda>i n. FFin 0)]"
      _ flat_libm "\<lambda>d. None" live_server, OF _ refl]
  by (simp add: live_server_def server_init_def)

section \<open>The invariant of the device\<close>

definition stream_ok :: "int \<Rightarrow> StreamState \<Rightarrow> bool" where
  "stream_ok i s \<longleftrightarrow> st_stream_id s = i \<and> 0 \<le> st_seq s \<and> st_seq s < 2 ^ 32
     \<and> 0 \<le> st_adc_timestamp s \<and> st_adc_timestamp s < 2 ^ 64"

definition psd_ok :: "PsdSettings \<Rightarrow> bool" where
  "psd_ok c \<longleftrightarrow> pc_source c = ''adc0'' \<and> 500000 \<le> pc_start_frequency_hz c \<and> pc_stop_frequency_hz c \<le> 108000000
     \<and> 100000 \<le> pc_stop_frequency_hz c - pc_start_frequency_hz c \<and> pc_output_bins c = 4096 \<and> pc_fps c = 10
     \<and> pc_enabled c = pc_enable c"

definition frontend_ok :: "Frontend \<Rightarrow> bool" where
  "frontend_ok f \<longleftrightarrow> fe_attenuator_db f \<in> {0, 10, 20, 30} \<and> fe_lna f \<in> {''on'', ''bypass''}"

definition server_inv :: "FakeServer \<Rightarrow> bool" where
  "server_inv sv \<longleftrightarrow> map fst (sv_streams sv) = [0, 1] \<and> (\<forall>(i, s) \<in> set (sv_streams sv). stream_ok i s)
     \<and> psd_ok (sv_psd_config sv) \<and> 0 \<le> sv_psd_frame_seq sv \<and> sv_psd_frame_seq sv < 2 ^ 32
     \<and> frontend_ok (sv_frontend sv)"

lemma server_inv_init: "server_inv (server_init config)"
  by (simp add: server_inv_def server_init_def stream_ok_def stream_state_init_def psd_ok_def
      psd_settings_init_def frontend_ok_def)

lemma server_inv_simps [simp]:
  "server_inv (sv\<lparr>sv_owner := x1\<rparr>) = server_inv sv" "server_inv (sv\<lparr>sv_udp_dest := x2\<rparr>) = server_inv sv"
  "server_inv (sv\<lparr>sv_udp_psd_dest := x2\<rparr>) = server_inv sv" "server_inv (sv\<lparr>sv_udp_status_dest := x2\<rparr>) = server_inv sv"
  "server_inv (sv\<lparr>sv_tx_task := x3\<rparr>) = server_inv sv" "server_inv (sv\<lparr>sv_psd_task := x3\<rparr>) = server_inv sv"
  "server_inv (sv\<lparr>sv_status_task := x3\<rparr>) = server_inv sv" "server_inv (sv\<lparr>sv_status_seq := n\<rparr>) = server_inv sv"
  "server_inv (sv\<lparr>sv_psd_first_frame := b\<rparr>) = server_inv sv" "server_inv (sv\<lparr>sv_iq_packets_sent := n\<rparr>) = server_inv sv"
  "server_inv (sv\<lparr>sv_psd_packets_sent := n\<rparr>) = server_inv sv" "server_inv (sv\<lparr>sv_wire := w\<rparr>) = server_inv sv"
  "server_inv (sv\<lparr>sv_replies := x4\<rparr>) = server_inv sv" "server_inv (sv\<lparr>sv_handlers := x5\<rparr>) = server_inv sv"
  "server_inv (sv\<lparr>sv_closing := x6\<rparr>) = server_inv sv"
  by (simp_all add: server_inv_def)

lemma server_inv_streams:
  "server_inv sv \<Longrightarrow> map_of (sv_streams sv) i = Some s \<Longrightarrow> stream_ok i s \<and> i \<in> {0, 1}"
  by (auto simp: server_inv_def dest!: map_of_SomeD)

lemma server_inv_put_stream:
  assumes "server_inv sv" "stream_ok i s" "i \<in> {0, 1}"
  shows "server_inv (put_stream i s sv)"
proof -
  obtain s0 s1 where "sv_streams sv = [(0, s0), (1, s1)]" using assms(1) by (auto simp: server_inv_def)
  with assms show ?thesis by (auto simp: server_inv_def put_stream_def)
qed

lemma server_inv_stop_all: "server_inv sv \<Longrightarrow> server_inv (stop_all sv)"
  by (auto simp: server_inv_def stop_all_def stream_ok_def psd_ok_def comp_def case_prod_unfold)

subsection \<open>Commands\<close>

lemma configure_stream_ok:
  "stream_ok i s \<Longrightarrow> stream_ok i (fst (configure_stream request s))"
  by (auto simp: configure_stream_def assign_def stream_ok_def split: sum.splits)

lemma reset_for_enable_ok: "stream_ok i s \<Longrightarrow> stream_ok i (reset_for_enable s)"
  by (simp add: reset_for_enable_def stream_ok_def)

lemma stream_ok_enabled [simp]: "stream_ok i (s\<lparr>st_enabled := b\<rparr>) = stream_ok i s"
  by (simp add: stream_ok_def)

lemma cmd_set_rx_inv:
  assumes inv: "server_inv sv"
  shows "server_inv (fst (cmd_set_rx i request sv))"
proof (cases "py_int (dget request ''stream_id'' (PInt 0))")
  case (Inr k)
  show ?thesis
  proof (cases "map_of (sv_streams sv) k")
    case (Some s)
    have s: "stream_ok k s" "k \<in> {0, 1}" using server_inv_streams[OF inv Some] by auto
    obtain s1 r where c: "configure_stream request s = (s1, r)" by fastforce
    have s1: "stream_ok k s1" using configure_stream_ok[OF s(1), of request] c by simp
    have put: "server_inv (put_stream k u w)" if "server_inv w" "stream_ok k u" for u w
      by (rule server_inv_put_stream[OF that s(2)])
    show ?thesis
      using Inr Some inv s(1) c s1
      by (simp add: cmd_set_rx_def Let_def reset_for_enable_ok put split: sum.split)
  qed (use Inr inv in \<open>simp add: cmd_set_rx_def\<close>)
qed (use inv in \<open>simp add: cmd_set_rx_def\<close>)

lemma cmd_set_psd_inv: "server_inv sv \<Longrightarrow> server_inv (fst (cmd_set_psd i request sv))"
  by (auto simp: cmd_set_psd_def Let_def server_inv_def psd_ok_def requested_psd_def rbind_eq_Inr split: sum.splits)

lemma cmd_set_frontend_inv: "server_inv sv \<Longrightarrow> server_inv (fst (cmd_set_frontend i request sv))"
  by (auto simp: cmd_set_frontend_def set_attenuator_def set_lna_def set_filter_def Let_def server_inv_def
      frontend_ok_def split: sum.splits option.splits)

lemma cmd_hello_inv: "server_inv sv \<Longrightarrow> server_inv (fst (cmd_hello i request ip sv))"
  by (auto simp: cmd_hello_def Let_def assign_def split: sum.splits pyval.splits)

lemma status_object_inv: "server_inv sv \<Longrightarrow> server_inv (fst (status_object t sv))"
  by (simp add: status_object_def Let_def)

lemmas command_invs = cmd_set_rx_inv cmd_set_psd_inv cmd_set_frontend_inv cmd_hello_inv status_object_inv
  server_inv_stop_all

lemma run_command_inv: "server_inv sv \<Longrightarrow> server_inv (fst (run_command i cmd request ip t sv))"
  by (simp add: run_command_def Let_def case_prod_unfold command_invs)

lemma dispatch_inv: "server_inv sv \<Longrightarrow> server_inv (fst (dispatch line ip t sv))"
proof (cases rule: dispatch_cases[of line ip t sv])
  case (command request cmd)
  moreover assume "server_inv sv"
  ultimately show ?thesis using run_command_inv[of sv "asked_id line" cmd request ip t]
    by (auto simp: catch_field_errors_def split: sum.splits prod.splits)
qed simp

subsection \<open>Transmission\<close>

lemma mark_packet_ok: "stream_ok i s \<Longrightarrow> stream_ok i (mark_packet config (s\<lparr>st_oscillator := osc\<rparr>))"
  by (simp add: mark_packet_def stream_ok_def Let_def)

lemma advance_stream_ok: "stream_ok i s \<Longrightarrow> stream_ok i (advance_stream h s)"
  by (simp add: advance_stream_def stream_ok_def)

lemma sendto_inv: "server_inv (fst (sendto net dest data sv)) = server_inv sv"
  by (simp add: sendto_def split: option.splits)

lemma send_iq_packet_inv:
  assumes "server_inv sv" "stream_ok i s" "i \<in> {0, 1}"
  shows "server_inv (fst (send_iq_packet m draws net i s sv))"
proof -
  have put: "server_inv (put_stream i u w)" if "server_inv w" "stream_ok i u" for u w
    by (rule server_inv_put_stream[OF that assms(3)])
  have osc: "stream_ok i (s\<lparr>st_oscillator := osc\<rparr>)" for osc
    using assms(2) by (simp add: stream_ok_def)
  have sent: "server_inv w" if "sendto net dest data v = (w, r)" "server_inv v" for net dest data v w r
    using sendto_inv[of net dest data v] that by simp
  show ?thesis
    using assms(1,2) unfolding send_iq_packet_def Let_def
    by (auto simp: put osc mark_packet_ok advance_stream_ok dest!: sent
        split: prod.splits sum.splits option.splits if_splits)
qed

lemma send_active_inv:
  "server_inv sv \<Longrightarrow> (\<And>i s. (i, s) \<in> set active \<Longrightarrow> stream_ok i s \<and> i \<in> {0, 1}) \<Longrightarrow>
   server_inv (fst (send_active m draws net active sv))"
proof (induction active arbitrary: sv)
  case (Cons a active)
  obtain i s where a: "a = (i, s)" by fastforce
  have "server_inv (fst (send_iq_packet m (draws i) net i s sv))"
    using Cons.prems a by (intro send_iq_packet_inv) auto
  moreover have "server_inv (fst (send_active m draws net active w))" if "server_inv w" for w
    using that Cons.prems(2) by (intro Cons.IH) auto
  ultimately show ?case using a by (auto split: prod.splits sum.splits)
qed simp

lemma iq_tick_inv: "server_inv sv \<Longrightarrow> server_inv (iq_tick m draws net sv)"
proof -
  assume inv: "server_inv sv"
  have "stream_ok i s \<and> i \<in> {0, 1}" if "(i, s) \<in> set (active_streams sv)" for i s
  proof -
    have "(i, s) \<in> set (sv_streams sv)" using that by (auto simp: active_streams_def)
    moreover from this have "i \<in> set (map fst (sv_streams sv))" by force
    ultimately show ?thesis using inv by (auto simp: server_inv_def)
  qed
  from send_active_inv[OF inv this, of "active_streams sv" m draws net] inv show ?thesis
    by (auto simp: iq_tick_def Let_def split: prod.splits sum.splits)
qed

lemma send_segments_inv:
  "server_inv sv \<Longrightarrow> server_inv (fst (send_segments clock net spacing n flags bins is sv))"
proof (induction "is" arbitrary: sv)
  case (Cons i "is")
  have sent: "server_inv w" if "sendto net dest data v = (w, r)" "server_inv v" for net dest data v w r
    using sendto_inv[of net dest data v] that by simp
  show ?case using Cons
    by (auto simp: Let_def dest!: sent split: prod.splits sum.splits option.splits)
qed simp

lemma send_psd_frame_inv: "server_inv sv \<Longrightarrow> server_inv (fst (send_psd_frame clock net sv))"
proof -
  assume inv: "server_inv sv"
  have seg: "server_inv w" if "send_segments clock net spacing n flags bins is (sv\<lparr>sv_psd_first_frame := b\<rparr>) = (w, r)"
    for spacing n flags bins "is" b w r
    using send_segments_inv[of "sv\<lparr>sv_psd_first_frame := b\<rparr>" clock net spacing n flags bins "is"] inv that by simp
  have seq: "server_inv (w\<lparr>sv_psd_frame_seq := mask32 x\<rparr>)" if "server_inv w" for w x
    using that by (simp add: server_inv_def)
  from inv show ?thesis
    by (auto simp: send_psd_frame_def Let_def seq dest!: seg split: prod.splits sum.splits)
qed

lemma psd_tick_inv: "server_inv sv \<Longrightarrow> server_inv (psd_tick clock net sv)"
  using send_psd_frame_inv[of sv clock net] by (auto simp: psd_tick_def split: prod.splits sum.splits)

lemma status_tick_inv: "server_inv sv \<Longrightarrow> server_inv (status_tick t net sv)"
  using status_tick_frame[of t net sv] by auto

subsection \<open>Connections\<close>

lemma leave_client_inv: "server_inv sv \<Longrightarrow> server_inv (leave_client c sv)"
  by (simp add: leave_client_def Let_def server_inv_stop_all)

lemma accept_client_inv: "server_inv sv \<Longrightarrow> server_inv (accept_client c ip sv)"
  by (auto simp: accept_client_def write_reply_def split: option.splits sum.splits)

lemma handle_line_inv: "server_inv sv \<Longrightarrow> server_inv (handle_line c line t sv)"
proof -
  assume inv: "server_inv sv"
  have "server_inv w" if "dispatch line ip t sv = (w, r)" for ip w r
    using dispatch_inv[OF inv, of line ip t] that by simp
  with inv show ?thesis
    by (auto simp: handle_line_def write_reply_def intro!: leave_client_inv split: option.splits sum.splits prod.splits)
qed

lemma handle_eof_inv: "server_inv sv \<Longrightarrow> server_inv (handle_eof c sv)"
  by (auto simp: handle_eof_def leave_client_inv split: option.splits)

lemmas event_invs = accept_client_inv handle_line_inv handle_eof_inv iq_tick_inv psd_tick_inv status_tick_inv

interpretation devm: event_machine "server_step m net" server_inv for m net
proof
  show "server_inv (server_step m net sv e)" if "server_inv sv" for sv e
    using that by (cases e) (auto intro: event_invs)
qed

text \<open>
  C11 (device invariant). Whatever connects, disconnects, sends lines of any content or runs in the
  background, in any order: the device has the two streams 0 and 1 with sequence numbers below
  \<open>2^32\<close> and timestamps below \<open>2^64\<close>; its attenuation is 0, 10, 20 or 30 dB and its amplifier
  \<open>on\<close> or \<open>bypass\<close>; its PSD source is \<open>adc0\<close>, its PSD range at least 100 kHz wide inside 0.5 to
  108 MHz, with 4096 bins at 10 frames per second, \<open>enabled\<close> equal to \<open>enable\<close>, and the frame number
  below \<open>2^32\<close>. The filter, the PSD's identifier, transform size and sample format, and the rate and
  bandwidth of a stream are stored as requested and no part of the invariant.
\<close>

theorem device_invariant:
  "server_inv (foldl (server_step m net) (server_start (server_init config)) es)"
proof (rule devm.run_inv)
  show "server_inv (server_start (server_init config))"
    using server_inv_init by (simp add: server_start_def)
qed

section \<open>Ownership\<close>

definition conns :: "FakeServer \<Rightarrow> conn option \<times> (conn \<times> string) list \<times> conn list" where
  "conns sv = (sv_owner sv, sv_handlers sv, sv_closing sv)"

lemma conns_simps [simp]:
  "conns (sv\<lparr>sv_udp_dest := x2\<rparr>) = conns sv" "conns (sv\<lparr>sv_udp_psd_dest := x2\<rparr>) = conns sv"
  "conns (sv\<lparr>sv_udp_status_dest := x2\<rparr>) = conns sv" "conns (sv\<lparr>sv_tx_task := x3\<rparr>) = conns sv"
  "conns (sv\<lparr>sv_psd_task := x3\<rparr>) = conns sv" "conns (sv\<lparr>sv_status_task := x3\<rparr>) = conns sv"
  "conns (sv\<lparr>sv_status_seq := n\<rparr>) = conns sv" "conns (sv\<lparr>sv_psd_first_frame := b\<rparr>) = conns sv"
  "conns (sv\<lparr>sv_iq_packets_sent := n\<rparr>) = conns sv" "conns (sv\<lparr>sv_psd_packets_sent := n\<rparr>) = conns sv"
  "conns (sv\<lparr>sv_wire := w\<rparr>) = conns sv" "conns (sv\<lparr>sv_replies := x4\<rparr>) = conns sv"
  "conns (sv\<lparr>sv_streams := x5\<rparr>) = conns sv" "conns (sv\<lparr>sv_psd_config := x6\<rparr>) = conns sv"
  "conns (sv\<lparr>sv_psd_frame_seq := n\<rparr>) = conns sv" "conns (sv\<lparr>sv_frontend := x7\<rparr>) = conns sv"
  "conns (put_stream i s sv) = conns sv" "conns (stop_all sv) = conns sv"
  by (simp_all add: conns_def put_stream_def stop_all_def)

lemma conns_sendto: "conns (fst (sendto net dest data sv)) = conns sv"
  by (simp add: sendto_def split: option.splits)

lemma conns_send_iq_packet: "conns (fst (send_iq_packet m draws net i s sv)) = conns sv"
proof -
  have sent: "conns w = conns v" if "sendto net dest data v = (w, r)" for net dest data v w r
    using conns_sendto[of net dest data v] that by simp
  show ?thesis unfolding send_iq_packet_def Let_def
    by (auto dest!: sent split: prod.splits sum.splits option.splits if_splits)
qed

lemma conns_send_active: "conns (fst (send_active m draws net active sv)) = conns sv"
proof (induction active arbitrary: sv)
  case (Cons a active)
  obtain i s where "a = (i, s)" by fastforce
  with Cons conns_send_iq_packet[of m "draws i" net i s sv] show ?case by (auto split: prod.splits sum.splits)
qed simp

lemma conns_iq_tick: "conns (iq_tick m draws net sv) = conns sv"
  using conns_send_active[of m draws net "active_streams sv" sv]
  by (auto simp: iq_tick_def Let_def split: prod.splits sum.splits)

lemma conns_send_segments: "conns (fst (send_segments clock net spacing n flags bins is sv)) = conns sv"
proof (induction "is" arbitrary: sv)
  case (Cons i "is")
  have sent: "conns w = conns v" if "sendto net dest data v = (w, r)" for net dest data v w r
    using conns_sendto[of net dest data v] that by simp
  show ?case using Cons
    by (auto simp: Let_def dest!: sent split: prod.splits sum.splits option.splits)
qed simp

lemma conns_psd_tick: "conns (psd_tick clock net sv) = conns sv"
proof -
  have seg: "conns w = conns sv"
    if "send_segments clock net spacing n flags bins is (sv\<lparr>sv_psd_first_frame := b\<rparr>) = (w, r)"
    for spacing n flags bins "is" b w r
    using conns_send_segments[of clock net spacing n flags bins "is" "sv\<lparr>sv_psd_first_frame := b\<rparr>"] that by simp
  show ?thesis
    by (auto simp: psd_tick_def send_psd_frame_def Let_def dest!: seg split: prod.splits sum.splits)
qed

lemma conns_status_tick: "conns (status_tick t net sv) = conns sv"
  using status_tick_frame[of t net sv] by auto

lemma conns_run_command: "conns (fst (run_command i cmd request ip t sv)) = conns sv"
proof -
  have "conns (fst (cmd_hello i request ip sv)) = conns sv"
    by (auto simp: cmd_hello_def Let_def assign_def split: sum.splits pyval.splits)
  moreover have "conns (fst (cmd_set_frontend i request sv)) = conns sv"
    by (auto simp: cmd_set_frontend_def set_attenuator_def set_lna_def set_filter_def Let_def
        split: sum.splits option.splits)
  moreover have "conns (fst (cmd_set_rx i request sv)) = conns sv"
    by (auto simp: cmd_set_rx_def Let_def split: sum.splits option.splits prod.splits)
  moreover have "conns (fst (cmd_set_psd i request sv)) = conns sv"
    by (auto simp: cmd_set_psd_def Let_def split: sum.splits)
  ultimately show ?thesis by (simp add: run_command_def Let_def status_object_def)
qed

lemma conns_dispatch: "conns (fst (dispatch line ip t sv)) = conns sv"
proof (cases rule: dispatch_cases[of line ip t sv])
  case (command request cmd)
  then show ?thesis using conns_run_command[of "asked_id line" cmd request ip t sv]
    by (auto simp: catch_field_errors_def split: sum.splits prod.splits)
qed simp

definition undirected :: "FakeServer \<Rightarrow> bool" where
  "undirected sv \<longleftrightarrow> sv_udp_dest sv = None \<and> sv_udp_psd_dest sv = None \<and> sv_udp_status_dest sv = None"

definition owned :: "FakeServer \<Rightarrow> bool" where
  "owned sv \<longleftrightarrow>
     (case sv_owner sv of None \<Rightarrow> sv_handlers sv = [] \<and> quiet sv \<and> undirected sv
      | Some c \<Rightarrow> \<exists>ip. sv_handlers sv = [(c, ip)])"

lemma owned_leave: "owned sv \<Longrightarrow> sv_owner sv = Some c \<Longrightarrow> owned (leave_client c sv)"
  using quiet_stop_all[of sv]
  by (auto simp: owned_def leave_client_def Let_def quiet_def undirected_def stop_all_def)

lemma owned_conns: "owned sv \<Longrightarrow> conns sv' = conns sv \<Longrightarrow> sv_owner sv = Some c \<Longrightarrow> owned sv'"
  by (auto simp: owned_def conns_def)

lemma owned_handler: "owned sv \<Longrightarrow> map_of (sv_handlers sv) c = Some ip \<Longrightarrow> sv_owner sv = Some c"
  by (auto simp: owned_def split: option.splits if_splits)

lemma owned_handle_line: "owned sv \<Longrightarrow> owned (handle_line c line t sv)"
proof -
  assume o: "owned sv"
  show ?thesis
  proof (cases "map_of (sv_handlers sv) c")
    case (Some ip)
    obtain sv1 r where d: "dispatch line ip t sv = (sv1, r)" by fastforce
    have c: "sv_owner sv = Some c" by (rule owned_handler[OF o Some])
    have eq: "conns sv1 = conns sv" using conns_dispatch[of line ip t sv] d by simp
    have o1: "owned sv1" by (rule owned_conns[OF o eq c])
    have "sv_owner sv1 = Some c" using eq c by (simp add: conns_def)
    moreover have "owned (write_reply c reply sv1)" for reply
      by (rule owned_conns[OF o _ c]) (simp add: write_reply_def eq)
    ultimately show ?thesis
      using d Some owned_leave[OF o1] by (auto simp: handle_line_def split: sum.splits)
  qed (use o in \<open>simp add: handle_line_def\<close>)
qed

lemma owned_tick: "owned sv \<Longrightarrow> is_tick e \<Longrightarrow> owned (server_step m net sv e)
    \<and> (sv_owner sv = None \<longrightarrow> server_step m net sv e = sv)"
proof (cases "sv_owner sv")
  case None
  moreover assume "owned sv" "is_tick e"
  ultimately show ?thesis
    by (cases e) (auto simp: owned_def undirected_def quiet_iq_tick quiet_psd_tick status_tick_def)
next
  case (Some c)
  moreover assume "owned sv" "is_tick e"
  moreover from this(2) have "conns (server_step m net sv e) = conns sv"
    by (cases e) (auto simp: conns_iq_tick conns_psd_tick conns_status_tick)
  ultimately show ?thesis using owned_conns by simp
qed

text \<open>
  The owner is replaced when a client connects after the owner's connection was lost and before its
  handler has noticed.
\<close>

fun no_takeover :: "FakeServer \<Rightarrow> event \<Rightarrow> bool" where
  "no_takeover sv (Connect c ip) = (case sv_owner sv of None \<Rightarrow> True | Some o' \<Rightarrow> o' \<notin> set (sv_closing sv))"
| "no_takeover sv _ = True"

interpretation ownm: enabled_machine "server_step m net" owned no_takeover for m net
proof
  fix sv e assume o: "owned sv" and e: "no_takeover sv e"
  show "owned (server_step m net sv e)"
  proof (cases e)
    case (Connect c ip)
    with o e show ?thesis
      by (auto simp: accept_client_def write_reply_def owned_def split: option.splits sum.splits)
  next
    case (Line c line t)
    with o show ?thesis by (simp add: owned_handle_line)
  next
    case (Eof c)
    with o show ?thesis
      by (auto simp: handle_eof_def owned_leave owned_handler split: option.splits)
  next
    case (TransportLost c)
    with o show ?thesis by (auto simp: owned_def quiet_def undirected_def split: option.splits)
  qed (use o owned_tick[of sv e m net] in auto)
qed

subsection \<open>With lost connections\<close>

text \<open>The handlers of connections that are not lost: the owner's, and no other.\<close>

definition attended :: "FakeServer \<Rightarrow> bool" where
  "attended sv \<longleftrightarrow> filter (\<lambda>c. c \<notin> set (sv_closing sv)) (map fst (sv_handlers sv)) =
     filter (\<lambda>c. c \<notin> set (sv_closing sv)) (case sv_owner sv of None \<Rightarrow> [] | Some c \<Rightarrow> [c])"

lemma map_fst_ddel: "map fst (ddel d c) = remove1 c (map fst d)"
  by (induction d c rule: ddel.induct) auto

lemma attended_conns: "attended sv \<Longrightarrow> conns sv' = conns sv \<Longrightarrow> attended sv'"
  unfolding attended_def conns_def by (elim Pair_inject) simp

lemma attended_handler:
  assumes "attended sv" and "map_of (sv_handlers sv) c = Some ip" and "c \<notin> set (sv_closing sv)"
  shows "sv_owner sv = Some c"
proof -
  have "c \<in> set (map fst (sv_handlers sv))" using map_of_SomeD[OF assms(2)] by force
  then have "c \<in> set (filter (\<lambda>c. c \<notin> set (sv_closing sv)) (map fst (sv_handlers sv)))" using assms(3) by simp
  with assms(1) show ?thesis unfolding attended_def by (simp split: option.splits)
qed

lemma attended_leave:
  assumes "attended sv"
  shows "attended (leave_client c sv)"
proof -
  have "filter P (map fst (ddel d c)) = remove1 c (filter P (map fst d))" for P and d :: "(conn \<times> string) list"
    by (simp only: map_fst_ddel filter_remove1)
  with assms show ?thesis
    by (simp add: attended_def leave_client_def Let_def stop_all_def split: option.splits)
qed

lemma attended_handle_line: "attended sv \<Longrightarrow> attended (handle_line c line t sv)"
proof -
  assume a: "attended sv"
  have d: "attended w" if "dispatch line ip t sv = (w, r)" for ip w r
    using attended_conns[OF a] conns_dispatch[of line ip t sv] that by simp
  have "attended (write_reply c reply w)" if "attended w" for reply w
    using attended_conns[OF that] by (simp add: write_reply_def)
  with a d show ?thesis
    by (auto simp: handle_line_def intro!: attended_leave split: option.splits sum.splits prod.splits)
qed

lemma attended_lost: "attended sv \<Longrightarrow> attended (sv\<lparr>sv_closing := c # sv_closing sv\<rparr>)"
proof -
  have "filter (\<lambda>k. k \<notin> set (c # sv_closing sv)) ks = filter (\<lambda>k. k \<noteq> c) (filter (\<lambda>k. k \<notin> set (sv_closing sv)) ks)" for ks
    by (auto intro!: filter_cong)
  moreover assume "attended sv"
  ultimately show ?thesis by (simp add: attended_def del: filter_filter set_simps)
qed

lemma attended_accept: "attended sv \<Longrightarrow> attended (accept_client c ip sv)"
  by (auto simp: attended_def accept_client_def write_reply_def split: option.splits sum.splits if_splits)

interpretation attm: event_machine "server_step m net" attended for m net
proof
  fix sv e assume a: "attended sv"
  then show "attended (server_step m net sv e)"
  proof (cases e)
    case (Eof c)
    with a show ?thesis by (auto simp: handle_eof_def attended_leave split: option.splits)
  qed (auto intro: attended_conns[OF a] attended_lost attended_accept attended_handle_line
      simp: conns_iq_tick conns_psd_tick conns_status_tick)
qed

lemma busy_line_ok: "\<exists>line. busy_line = Inr line"
proof -
  have "utf8_valid (dumps False (PDict (build_error PNone ''busy'' ''device already has an owner'' [])) @ [CHR 0x0A])"
    by code_simp
  then show ?thesis by (simp add: busy_line_def encode_json_line_def utf8_encode_def)
qed

lemma initially_unowned:
  "owned (server_start (server_init config))" "attended (server_start (server_init config))"
  by (simp_all add: owned_def attended_def server_start_def server_init_def quiet_def undirected_def
      psd_settings_init_def stream_state_init_def)

text \<open>
  C12 (one owner). After any events in any order, lost connections included: a line of a connection
  that is neither the owner's nor lost has no effect; while the owner's connection is not lost,
  another client is answered with \<open>busy\<close> and changes nothing else; and a lost connection's handler
  ends with its next line. If moreover no client connected while the owner's connection was lost and
  its handler had not ended (\<open>no_takeover\<close>), only the owner's lines have an effect, and without an owner
  the transmit loops do nothing at all.
\<close>

theorem single_owner:
  assumes "sv = foldl (server_step m net) (server_start (server_init config)) es"
  shows "(\<forall>c line t. sv_owner sv \<noteq> Some c \<and> c \<notin> set (sv_closing sv) \<longrightarrow> handle_line c line t sv = sv)
    \<and> (\<forall>o' c ip. sv_owner sv = Some o' \<and> o' \<notin> set (sv_closing sv) \<longrightarrow>
         (\<exists>line. busy_line = Inr line \<and> accept_client c ip sv = write_reply c line sv))
    \<and> (\<forall>c ip line t. c \<in> set (sv_closing sv) \<and> map_of (sv_handlers sv) c = Some ip \<longrightarrow>
         handle_line c line t sv = leave_client c (fst (dispatch line ip t sv)))
    \<and> (enabled_run (server_step m net) no_takeover (server_start (server_init config)) es \<longrightarrow>
         (\<forall>c line t. sv_owner sv \<noteq> Some c \<longrightarrow> handle_line c line t sv = sv)
         \<and> (sv_owner sv = None \<longrightarrow> (\<forall>e. is_tick e \<longrightarrow> server_step m net sv e = sv)))"
    (is "?other \<and> ?busy \<and> ?lost \<and> (?enabled \<longrightarrow> ?owner \<and> ?idle)")
proof (intro conjI)
  have a: "attended sv" unfolding assms by (rule attm.run_inv) (rule initially_unowned)
  show ?other using attended_handler[OF a] by (force simp: handle_line_def split: option.split)
  obtain bl where bl: "busy_line = Inr bl" using busy_line_ok by blast
  show ?busy by (auto simp: accept_client_def bl)
  have "sv_closing (fst (dispatch line ip t sv)) = sv_closing sv" for line ip t
    using conns_dispatch[of line ip t sv] by (simp add: conns_def)
  then show ?lost by (auto simp: handle_line_def split: prod.splits sum.splits) (metis fst_conv)+
  show "?enabled \<longrightarrow> ?owner \<and> ?idle"
  proof
    assume ?enabled
    from ownm.enabled_run_inv[OF initially_unowned(1) this] have o: "owned sv" unfolding assms .
    have ?owner using owned_handler[OF o] by (force simp: handle_line_def split: option.split)
    then show "?owner \<and> ?idle" using owned_tick[OF o] by blast
  qed
qed

theorem single_owner_witness:
  "let sv = foldl (server_step flat_libm (\<lambda>d. None)) (server_start (server_init fake_config_default))
         [Connect 1 ''10.0.0.2'', StatusTick 3, TransportLost 4]
   in sv_owner sv = Some 1 \<and> handle_line 2 [123, 125, 10] 5 sv = sv \<and> handle_line 4 [123, 125, 10] 5 sv = sv
      \<and> (\<exists>line. busy_line = Inr line \<and> accept_client 2 ''10.0.0.3'' sv = write_reply 2 line sv)"
  using single_owner[of _ flat_libm "\<lambda>d. None" fake_config_default "[Connect 1 ''10.0.0.2'', StatusTick 3, TransportLost 4]", OF refl]
  by (simp add: Let_def accept_client_def server_init_def server_start_def status_tick_def)

section \<open>Answers on the connection\<close>

lemma fst_catch_field_errors: "fst (catch_field_errors i p) = fst p"
  by (cases p; cases "snd p") (simp_all add: catch_field_errors_def)

lemma replies_dispatch: "sv_replies (fst (dispatch line ip t sv)) = sv_replies sv"
proof -
  have "sv_replies (fst (cmd_hello i request ip sv)) = sv_replies sv" for i request
    by (auto simp: cmd_hello_def Let_def assign_def split: sum.splits pyval.splits)
  moreover have "sv_replies (fst (cmd_set_frontend i request sv)) = sv_replies sv" for i request
    by (auto simp: cmd_set_frontend_def set_attenuator_def set_lna_def set_filter_def Let_def
        split: sum.splits option.splits)
  moreover have "sv_replies (fst (cmd_set_rx i request sv)) = sv_replies sv" for i request
    by (auto simp: cmd_set_rx_def Let_def put_stream_def split: sum.splits option.splits prod.splits)
  moreover have "sv_replies (fst (cmd_set_psd i request sv)) = sv_replies sv" for i request
    by (auto simp: cmd_set_psd_def Let_def split: sum.splits)
  ultimately have "sv_replies (fst (run_command i cmd request ip t sv)) = sv_replies sv" for i cmd request
    by (simp add: run_command_def Let_def status_object_def stop_all_def)
  then show ?thesis by (cases rule: dispatch_cases[of line ip t sv]) (simp_all add: fst_catch_field_errors)
qed

text \<open>
  C14 (a request line is answered, or its connection ends). For any line on a connection that has a
  handler and is not lost: either exactly one line is written back to it and to nobody else, the
  encoding of an answer that echoes the request's identifier and reports success or one of the
  protocol's error codes; or nothing is written and the handler ends, stopping the device if it was
  the owner's. The latter happens only when \<open>_dispatch\<close> raised a \<open>KeyError\<close> or an \<open>OverflowError\<close>, or
  when its answer holds a lone surrogate, so that encoding it raised a \<open>UnicodeEncodeError\<close>.
\<close>

theorem lines_are_answered:
  assumes "map_of (sv_handlers sv) c = Some ip" and "c \<notin> set (sv_closing sv)"
    and "dispatch line ip t sv = (sv1, r)"
  shows "(\<exists>resp l. r = Inr resp \<and> reply_for (asked_id line) resp
      \<and> encode_json_line resp = Inr (l @ [newline]) \<and> newline \<notin> set l
      \<and> handle_line c line t sv = sv1\<lparr>sv_replies := sv_replies sv @ [(c, l @ [newline])]\<rparr>)
    \<or> (handle_line c line t sv = leave_client c sv1 \<and> sv_replies (leave_client c sv1) = sv_replies sv
      \<and> ((\<exists>e. r = Inl e \<and> exn_cls e \<in> {KeyError, OverflowError})
         \<or> (\<exists>resp e. r = Inr resp \<and> encode_json_line resp = Inl e \<and> exn_cls e = UnicodeEncodeError)))"
proof -
  have c: "c \<notin> set (sv_closing sv1)" using conns_dispatch[of line ip t sv] assms(2,3) by (simp add: conns_def)
  have w: "sv_replies sv1 = sv_replies sv" using replies_dispatch[of line ip t sv] assms(3) by simp
  then have l: "sv_replies (leave_client c sv1) = sv_replies sv" by (simp add: leave_client_def Let_def stop_all_def)
  show ?thesis
  proof (cases r)
    case (Inl e)
    with assms l dispatch_exn show ?thesis by (auto simp: handle_line_def)
  next
    case (Inr resp)
    show ?thesis
    proof (cases "encode_json_line resp")
      case (Inl e)
      then have "exn_cls e = UnicodeEncodeError" by (auto simp: encode_json_line_def utf8_encode_def split: if_splits)
      with assms l Inl \<open>r = Inr resp\<close> show ?thesis by (auto simp: handle_line_def)
    next
      case (Inr reply)
      obtain l where "reply = l @ [newline]" "newline \<notin> set l" using encode_line_shape[OF Inr] by blast
      then show ?thesis using assms c w Inr \<open>r = Inr resp\<close> dispatch_reply[of line ip t sv sv1 resp]
        by (auto simp: handle_line_def write_reply_def)
    qed
  qed
qed

text \<open>Two pings, for examples: \<open>~\<close> stands for the quotation mark and \<open>^\<close> for the backslash.\<close>

definition json_bytes :: "string \<Rightarrow> bytes" where
  "json_bytes s = bytes_of_text (map (\<lambda>c. if c = CHR ''~'' then CHR 0x22 else if c = CHR 0x5E then CHR 0x5C else c) s) @ [newline]"

definition answered_line :: bytes where
  "answered_line = json_bytes ''{~request_id~:1,~cmd~:~ping~}''"

definition unanswered_line :: bytes where
  "unanswered_line = json_bytes ''{~request_id~:1,~cmd~:~ping~,~client_time_ms~:~^ud800~}''"

lemma decode_ping_lines:
  "decode_json_line answered_line = Inr [(''request_id'', PInt 1), (''cmd'', PStr ''ping'')]"
  "decode_json_line unanswered_line = Inr [(''request_id'', PInt 1), (''cmd'', PStr ''ping''),
     (''client_time_ms'', PStr [CHR 0xED, CHR 0xA0, CHR 0x80])]"
  by code_simp+

lemma dispatch_pings:
  "dispatch answered_line ip t sv = (sv, Inr (build_response (PInt 1) True
     [(''client_time_ms'', PNone), (''device_time_ms'', PInt t)]))"
  "dispatch unanswered_line ip t sv = (sv, Inr (build_response (PInt 1) True
     [(''client_time_ms'', PStr [CHR 0xED, CHR 0xA0, CHR 0x80]), (''device_time_ms'', PInt t)]))"
  by (simp_all add: dispatch_def decode_ping_lines dget_def run_command_def catch_field_errors_def)

theorem lines_are_answered_witness:
  "(\<exists>resp l. reply_for (PInt 1) resp \<and> newline \<notin> set l
      \<and> handle_line 1 answered_line 7 live_server = live_server\<lparr>sv_replies := [(1, l @ [newline])]\<rparr>)
    \<and> handle_line 1 unanswered_line 7 live_server = leave_client 1 live_server"
proof (intro conjI)
  have h: "map_of (sv_handlers live_server) 1 = Some ''10.0.0.2''" "1 \<notin> set (sv_closing live_server)"
    "sv_replies live_server = []" by (simp_all add: live_server_def server_init_def)
  let ?ok = "build_response (PInt 1) True [(''client_time_ms'', PNone), (''device_time_ms'', PInt 7)]"
  have e: "isl (encode_json_line ?ok) = False" by code_simp
  have i: "asked_id answered_line = PInt 1" by (simp add: asked_id_def decode_ping_lines dget_def)
  from lines_are_answered[OF h(1,2) dispatch_pings(1)[of "''10.0.0.2''" 7 live_server]] e i
  show "\<exists>resp l. reply_for (PInt 1) resp \<and> newline \<notin> set l
      \<and> handle_line 1 answered_line 7 live_server = live_server\<lparr>sv_replies := [(1, l @ [newline])]\<rparr>"
    by (auto simp: h(3))
  let ?bad = "build_response (PInt 1) True [(''client_time_ms'', PStr [CHR 0xED, CHR 0xA0, CHR 0x80]), (''device_time_ms'', PInt 7)]"
  have e: "isl (encode_json_line ?bad)" by code_simp
  from lines_are_answered[OF h(1,2) dispatch_pings(2)[of "''10.0.0.2''" 7 live_server]] e
  show "handle_line 1 unanswered_line 7 live_server = leave_client 1 live_server" by auto
qed

section \<open>Properties of the commands\<close>

text \<open>
  C31 (\<open>set_psd\<close> is all or nothing). A request that enables the PSD is either refused or raises, and
  then nothing at all has changed, or it is accepted: then the settings in force are exactly the
  ones reported back as \<open>applied\<close>, they are enabled and acceptable, frame numbering restarts at 0
  with the next frame marked as a configuration change, and the PSD loop runs.
\<close>

theorem set_psd_all_or_nothing:
  assumes "py_bool (dget request ''enable'' (dget request ''enabled'' (PBool False)))"
    and "cmd_set_psd i request sv = (sv', r)"
  shows "sv' = sv \<and> (\<exists>e. r = Inl e \<or> (\<exists>msg. r = Inr (build_error i ''out_of_range'' msg []))) \<or>
    (psd_ok (sv_psd_config sv') \<and> pc_enable (sv_psd_config sv') \<and> sv_psd_frame_seq sv' = 0
     \<and> sv_psd_first_frame sv' \<and> sv_psd_task sv' = Running
     \<and> r = Inr (build_response i True [(''applied'', PDict (psd_config_dict (sv_psd_config sv')))]))"
proof (cases "requested_psd request")
  case (Inl e)
  with assms show ?thesis by (auto simp: cmd_set_psd_def)
next
  case (Inr applied)
  then have "pc_enable applied \<and> pc_enabled applied" by (auto simp: requested_psd_def rbind_eq_Inr)
  moreover have "start_task t = Running" for t by (cases t) (simp_all add: start_task_def)
  ultimately show ?thesis using assms Inr
    by (auto simp: cmd_set_psd_def psd_ok_def split: if_splits)
qed

theorem set_psd_all_or_nothing_witness:
  "let request = [(''enable'', PBool True), (''start_frequency_hz'', PStr ''88000000''), (''fps'', PFloat (FFin 10))];
       sv' = fst (cmd_set_psd (PInt 4) request live_server)
   in psd_ok (sv_psd_config sv') \<and> sv_psd_first_frame sv' \<and> pc_start_frequency_hz (sv_psd_config sv') = 88000000"
proof -
  define request where "request = [(''enable'', PBool True), (''start_frequency_hz'', PStr ''88000000''), (''fps'', PFloat (FFin 10))]"
  have "py_int (PStr ''88000000'') = Inr 88000000" by code_simp
  moreover have "trunc_rat 10 = 10" using trunc_rat_of_int[of 10] by simp
  ultimately have req: "requested_psd request = Inr (psd_settings_init\<lparr>pc_enable := True, pc_enabled := True,
      pc_start_frequency_hz := 88000000\<rparr>)"
    by (simp add: requested_psd_def request_def dget_def psd_settings_init_def del: py_int.simps(4))
  have en: "py_bool (dget request ''enable'' (dget request ''enabled'' (PBool False)))"
    by (simp add: request_def dget_def)
  obtain sv' r where run: "cmd_set_psd (PInt 4) request live_server = (sv', r)" by fastforce
  have st: "pc_start_frequency_hz (sv_psd_config sv') = 88000000" "sv_psd_config sv' \<noteq> sv_psd_config live_server"
    using run en req by (auto simp: cmd_set_psd_def psd_settings_init_def live_server_def)
  with set_psd_all_or_nothing[OF en run] show ?thesis
    using run unfolding request_def[symmetric] by auto
qed

text \<open>
  \<open>set_rx\<close> starts a fresh stream. When a request enables a stream and its fields convert to
  a supported sample rate, the stream restarts at sequence number 0 and timestamp 0 with a new
  oscillator at that rate, its first packet due to carry the discontinuity flags; the transmit loop
  runs, the other stream is untouched, and the decimation reported is 250 MHz over the rate.
\<close>

theorem set_rx_starts_stream:
  assumes "py_int (dget request ''stream_id'' (PInt 0)) = Inr k" and "map_of (sv_streams sv) k = Some s"
    and "py_bool (dget request ''enable'' (PBool (st_enabled s)))"
    and "configure_stream request s = (s1, Inr ())" and "st_iq_sample_rate_hz s1 \<in> set RATES"
  shows "\<exists>sv' s' d. cmd_set_rx i request sv = (sv', Inr (build_response i True [(''applied'', PDict (applied_rx s' d))]))
    \<and> map_of (sv_streams sv') k = Some s' \<and> (\<forall>j. j \<noteq> k \<longrightarrow> map_of (sv_streams sv') j = map_of (sv_streams sv) j)
    \<and> s' = s1\<lparr>st_enabled := True, st_seq := 0, st_adc_timestamp := 0, st_first_packet := True,
             st_oscillator := oscillator_init (st_iq_sample_rate_hz s1)\<rparr>
    \<and> d * st_iq_sample_rate_hz s1 = 250000000 \<and> sv_tx_task sv' = Running"
proof -
  have task: "start_task t = Running" for t by (cases t) (simp_all add: start_task_def)
  let ?s = "reset_for_enable (s1\<lparr>st_enabled := True\<rparr>)"
  obtain d where d: "decimation ?s = Inr d" "d * st_iq_sample_rate_hz s1 = 250000000"
    using decimation_ok[of ?s] assms(5) by (auto simp: reset_for_enable_def)
  then have run: "cmd_set_rx i request sv = ((put_stream k ?s (put_stream k s1 sv))\<lparr>sv_tx_task := Running\<rparr>,
      Inr (build_response i True [(''applied'', PDict (applied_rx ?s d))]))"
    using assms task by (simp add: cmd_set_rx_def Let_def put_stream_def)
  show ?thesis
    by (rule exI, rule exI, rule exI, intro conjI, rule run)
       (use d in \<open>auto simp: put_stream_def reset_for_enable_def\<close>)
qed

theorem set_rx_starts_stream_witness:
  "let request = [(''stream_id'', PInt 1), (''enable'', PBool True), (''iq_sample_rate_hz'', PInt 250000)]
   in \<exists>sv' s'. fst (cmd_set_rx (PInt 9) request live_server) = sv' \<and> map_of (sv_streams sv') 1 = Some s'
      \<and> st_enabled s' \<and> st_iq_sample_rate_hz s' = 250000 \<and> st_oscillator s' = oscillator_init 250000"
proof -
  define request where "request = [(''stream_id'', PInt 1), (''enable'', PBool True), (''iq_sample_rate_hz'', PInt 250000)]"
  have c: "configure_stream request (stream_state_init 1) = ((stream_state_init 1)\<lparr>st_iq_sample_rate_hz := 250000\<rparr>, Inr ())"
    by (simp add: configure_stream_def request_def dget_def stream_state_init_def)
  have "map_of (sv_streams live_server) 1 = Some (stream_state_init 1)" by (simp add: live_server_def)
  from set_rx_starts_stream[OF _ this _ c, of "PInt 9"] show ?thesis
    unfolding Let_def request_def[symmetric]
    by (auto simp: request_def dget_def RATES_def)
qed

text \<open>
  C35 (a refused \<open>set_rx\<close> still changes the stream). Only the sample rate is validated, and only
  after it was stored: a request with an unsupported rate is answered with \<open>out_of_range\<close>, but the
  stream keeps the rejected rate, and a stream that was enabled stays enabled. With rate 0 the
  next round of the transmit loop then raises in \<open>decimation\<close>: the transmit task is finished, and
  with it the transmission of every other stream.
\<close>

theorem set_rx_refusal_stops_transmission:
  assumes "map_of (sv_streams sv) 0 = Some s" and "st_enabled s" and "sv_streams sv = (0, s) # rest"
    and "osc_ok (st_oscillator s)" and "libm_ok m" and "draws_ok (draws 0)"
    and "sv_tx_task sv = Running" and "sv_udp_dest sv = Some dest"
    and "cmd_set_rx i [(''iq_sample_rate_hz'', PInt 0)] sv = (sv', r)"
  shows "r = Inr (build_error i ''out_of_range'' ''unsupported iq_sample_rate_hz'' [])
    \<and> map_of (sv_streams sv') 0 = Some (s\<lparr>st_iq_sample_rate_hz := 0\<rparr>)
    \<and> sv_tx_task (iq_tick m draws net sv') = Finished"
proof -
  have cmd: "sv' = put_stream 0 (s\<lparr>st_iq_sample_rate_hz := 0\<rparr>) sv
      \<and> r = Inr (build_error i ''out_of_range'' ''unsupported iq_sample_rate_hz'' [])"
    using assms(1,2,9) by (simp add: cmd_set_rx_def dget_def configure_stream_def RATES_def)
  then have st: "sv_streams sv' = (0, s\<lparr>st_iq_sample_rate_hz := 0\<rparr>) # rest"
    using assms(3) by (simp add: put_stream_def)
  let ?cfg = "sv_config sv'"
  obtain osc zs where iq: "make_iq m (draws 0) (cfg_scenario ?cfg) (cfg_sample_count ?cfg) (st_oscillator s) = (osc, Inr zs)"
      "list_all small zs"
    using make_iq_total[OF assms(5,4,6)] by blast
  obtain payload where pl: "complex_to_sc16 zs = Inr payload" using complex_to_sc16_total[OF iq(2)] by blast
  have "\<exists>w e. send_iq_packet m (draws 0) net 0 (s\<lparr>st_iq_sample_rate_hz := 0\<rparr>) sv' = (w, Inl e)"
    using iq(1) pl by (simp add: send_iq_packet_def Let_def decimation_def mark_packet_def)
  then obtain w e where "send_iq_packet m (draws 0) net 0 (s\<lparr>st_iq_sample_rate_hz := 0\<rparr>) sv' = (w, Inl e)" by blast
  moreover have "active_streams sv' = (0, s\<lparr>st_iq_sample_rate_hz := 0\<rparr>) # filter (\<lambda>(i, s). st_enabled s) rest"
    using st assms(2) by (simp add: active_streams_def)
  moreover have "sv_tx_task sv' = Running" "sv_udp_dest sv' = Some dest" using cmd assms(7,8) by (simp_all add: put_stream_def)
  ultimately show ?thesis using cmd st by (simp add: iq_tick_def)
qed

theorem set_rx_refusal_stops_transmission_witness:
  "sv_tx_task (iq_tick flat_libm (\<lambda>i n. FFin 0) (\<lambda>d. None)
     (fst (cmd_set_rx (PInt 3) [(''iq_sample_rate_hz'', PInt 0)] live_server))) = Finished"
proof -
  obtain sv' r where run: "cmd_set_rx (PInt 3) [(''iq_sample_rate_hz'', PInt 0)] live_server = (sv', r)" by fastforce
  have "osc_ok (oscillator_init 1000000)" by (rule oscillator_init_ok) (simp add: RATES_def)
  moreover have "draws_ok ((\<lambda>i n. FFin 0) (0 :: int))" by (simp add: draws_ok_def)
  ultimately show ?thesis
    using set_rx_refusal_stops_transmission[OF _ _ _ _ flat_libm_ok _ _ _ run, of _ _ "\<lambda>i n. FFin 0" _ "\<lambda>d. None"] run
    by (simp add: live_server_def server_init_def stream_state_init_def)
qed

text \<open>
  A \<open>hello\<close> without a port ends the connection. The port entries are read by subscription, and
  the \<open>KeyError\<close> of a missing one is not among the exceptions \<open>_dispatch\<close> answers: no reply is
  written and the handler ends, which stops everything the owner had started and leaves the device
  without an owner.
\<close>

theorem hello_without_port_disconnects:
  assumes "decode_json_line line = Inr request" and "dget request ''request_id'' PNone = PInt n"
    and "dget request ''cmd'' PNone = PStr ''hello''" and "py_eq_int (dget request ''protocol_version'' PNone) 1"
    and "dget request ''udp'' PNone = PDict udp" and "map_of udp ''iq_port'' = None"
    and "map_of (sv_handlers sv) c = Some ip" and "sv_owner sv = Some c"
    and "sv' = handle_line c line t sv"
  shows "sv_replies sv' = sv_replies sv \<and> sv_owner sv' = None \<and> sv_handlers sv' = ddel (sv_handlers sv) c
    \<and> quiet sv' \<and> undirected sv'"
proof -
  have "cmd_hello (PInt n) request ip sv = (sv, Inl (Exn KeyError (repr_str ''iq_port'')))"
    using assms(4,5,6) by (simp add: cmd_hello_def Let_def port_of_def dgetitem_def)
  then have "dispatch line ip t sv = (sv, Inl (Exn KeyError (repr_str ''iq_port'')))"
    using assms(1-3) by (simp add: dispatch_def run_command_def catch_field_errors_def subclass_of_def)
  then have "sv' = leave_client c sv" using assms(7,9) by (simp add: handle_line_def)
  then show ?thesis
    using assms(8) quiet_stop_all[of sv] by (simp add: leave_client_def Let_def quiet_def undirected_def stop_all_def)
qed

theorem hello_without_port_disconnects_witness:
  "let line = bytes_of_text (dumps False (PDict [(''request_id'', PInt 1), (''cmd'', PStr ''hello''),
         (''protocol_version'', PInt 1), (''udp'', PDict [])]) @ [CHR 0x0A])
   in sv_owner (handle_line 1 line 5 live_server) = None"
proof -
  define req where "req = [(''request_id'', PInt 1), (''cmd'', PStr ''hello''), (''protocol_version'', PInt 1), (''udp'', PDict [])]"
  have v: "utf8_valid (dumps False (PDict req) @ [CHR 0x0A])" unfolding req_def by code_simp
  have "encode_json_line req = Inr (bytes_of_text (dumps False (PDict req) @ [CHR 0x0A]))"
    using v by (simp add: encode_json_line_def utf8_encode_def)
  then have d: "decode_json_line (bytes_of_text (dumps False (PDict req) @ [CHR 0x0A])) = Inr req"
    by (rule decode_encode) (simp add: req_def dict_ok_def)
  show ?thesis
    using hello_without_port_disconnects[OF d, of 1 "[]" live_server 1 "''10.0.0.2''" _ 5, OF _ _ _ _ _ _ _ refl]
    unfolding Let_def req_def[symmetric] by (simp add: req_def dget_def live_server_def server_init_def)
qed

end
