(* ===== verification/Receiver.thy ===== *)
theory Receiver
  imports Packets Json
begin

text \<open>
  \<^verbatim>\<open>rpi/backend/sdr_backend/udp_receiver.py\<close>: the three UDP threads. A handler turns one
  datagram into a call of its callback, returns without one, or raises; \<open>loop_step\<close> is what
  \<open>_loop\<close> makes of that. \<open>start\<close> opens the three sockets in order; the answer of the operating
  system to \<open>bind\<close> is the argument \<open>bind_error\<close>, which also covers a host or port of a wrong type.
\<close>

section \<open>Handlers\<close>

text \<open>\<open>None\<close>: the handler returned without calling its callback.\<close>

definition handle_iq_datagram :: "bytes \<Rightarrow> (SdrIqHeader \<times> bytes) option result" where
  "handle_iq_datagram data =
     (if length data < IQ_HEADER_SIZE then Inr None
      else rbind (iq_unpack (take IQ_HEADER_SIZE data)) (\<lambda>header.
           Inr (Some (header, take (nat (iq_payload_bytes header)) (drop IQ_HEADER_SIZE data)))))"

definition handle_psd_datagram :: "bytes \<Rightarrow> (SdrPsdHeader \<times> bytes) option result" where
  "handle_psd_datagram data =
     (if length data < PSD_HEADER_SIZE then Inr None
      else rbind (psd_unpack (take PSD_HEADER_SIZE data)) (\<lambda>header.
           Inr (Some (header, take (nat (psd_payload_bytes header)) (drop PSD_HEADER_SIZE data)))))"

definition handle_status_datagram :: "bytes \<Rightarrow> pyval option result" where
  "handle_status_datagram data = rbind (utf8_decode data) (\<lambda>s. rbind (loads s) (\<lambda>v. Inr (Some v)))"

section \<open>The receive loop\<close>

datatype 'a outcome = Delivered 'a | Ignored | Reported exn | LoopEnds

definition loop_step :: "'a option result \<Rightarrow> 'a outcome" where
  "loop_step r = (case r of
     Inr (Some x) \<Rightarrow> Delivered x
   | Inr None \<Rightarrow> Ignored
   | Inl e \<Rightarrow> if subclass_of (exn_cls e) TimeoutError then Ignored
             else if subclass_of (exn_cls e) OSError then LoopEnds
             else Reported e)"

text \<open>The callbacks a thread makes for a sequence of datagrams.\<close>

fun receive_loop :: "('d \<Rightarrow> 'a option result) \<Rightarrow> 'd list \<Rightarrow> ('a + exn) list" where
  "receive_loop handler [] = []"
| "receive_loop handler (d # ds) =
     (case loop_step (handler d) of
        Delivered x \<Rightarrow> Inl x # receive_loop handler ds
      | Ignored \<Rightarrow> receive_loop handler ds
      | Reported e \<Rightarrow> Inr e # receive_loop handler ds
      | LoopEnds \<Rightarrow> [])"

section \<open>Starting and stopping\<close>

record UdpReceivers =
  ur_bind_host :: pyval
  ur_iq_port :: pyval
  ur_psd_port :: pyval
  ur_status_port :: pyval
  ur_stop :: bool
  ur_threads :: "(string \<times> pyval) list"
  ur_sockets :: "pyval list"

definition receivers_init :: "pyval \<Rightarrow> pyval \<Rightarrow> pyval \<Rightarrow> pyval \<Rightarrow> UdpReceivers" where
  "receivers_init host iq psd status = \<lparr>ur_bind_host = host, ur_iq_port = iq, ur_psd_port = psd,
     ur_status_port = status, ur_stop = False, ur_threads = [], ur_sockets = []\<rparr>"

definition start_socket ::
    "(pyval \<times> pyval \<Rightarrow> exn option) \<Rightarrow> string \<Rightarrow> pyval \<Rightarrow> UdpReceivers \<Rightarrow> UdpReceivers \<times> unit result" where
  "start_socket bind_error name port ur =
     (case bind_error (ur_bind_host ur, port) of
        Some e \<Rightarrow> (ur, Inl e)
      | None \<Rightarrow> (ur\<lparr>ur_sockets := ur_sockets ur @ [port], ur_threads := ur_threads ur @ [(name, port)]\<rparr>, Inr ()))"

definition receivers_start :: "(pyval \<times> pyval \<Rightarrow> exn option) \<Rightarrow> UdpReceivers \<Rightarrow> UdpReceivers \<times> unit result" where
  "receivers_start bind_error ur =
     (if ur_threads ur \<noteq> [] then (ur, Inr ())
      else case start_socket bind_error ''iq'' (ur_iq_port ur) ur of (ur1, Inl e) \<Rightarrow> (ur1, Inl e)
      | (ur1, Inr _) \<Rightarrow>
        (case start_socket bind_error ''psd'' (ur_psd_port ur1) ur1 of (ur2, Inl e) \<Rightarrow> (ur2, Inl e)
         | (ur2, Inr _) \<Rightarrow> start_socket bind_error ''status'' (ur_status_port ur2) ur2))"

definition receivers_stop :: "UdpReceivers \<Rightarrow> UdpReceivers" where
  "receivers_stop ur = ur\<lparr>ur_stop := True, ur_threads := [], ur_sockets := []\<rparr>"

section \<open>Facts\<close>

lemma iq_unpack_raises: "iq_unpack bs = Inl e \<Longrightarrow> exn_cls e \<in> {PacketError, StructError, TypeError}"
proof -
  have v: "iq_validate h = Inl e \<Longrightarrow> exn_cls e = PacketError" for h
    by (auto simp: iq_validate_def rbind_eq_Inl Let_def)
  assume "iq_unpack bs = Inl e"
  then show ?thesis
    by (auto simp: iq_unpack_def rbind_eq_Inl struct_unpack_from_def dest!: v elim!: iq_of_values.elims
        split: if_splits)
qed

lemma psd_unpack_raises: "psd_unpack bs = Inl e \<Longrightarrow> exn_cls e \<in> {PacketError, StructError, TypeError}"
proof -
  have v: "psd_validate h = Inl e \<Longrightarrow> exn_cls e = PacketError" for h
    by (auto simp: psd_validate_def rbind_eq_Inl Let_def)
  assume "psd_unpack bs = Inl e"
  then show ?thesis
    by (auto simp: psd_unpack_def rbind_eq_Inl struct_unpack_from_def dest!: v elim!: psd_of_values.elims
        split: if_splits)
qed

lemma receive_iq_sent:
  assumes "iq_pack h = Inr bs" and "iq_payload_bytes h = int (length payload)"
  shows "handle_iq_datagram (bs @ payload @ junk) = Inr (Some (h, payload))"
proof -
  have "\<not> length (bs @ payload @ junk) < IQ_HEADER_SIZE" using iqc.pack_size[OF assms(1)] by simp
  then show ?thesis
    by (simp only: handle_iq_datagram_def if_False iqc.datagram_split[OF assms] rbind_simps)
qed

lemma receive_psd_sent:
  assumes "psd_pack h = Inr bs" and "psd_payload_bytes h = int (length payload)"
  shows "handle_psd_datagram (bs @ payload @ junk) = Inr (Some (h, payload))"
proof -
  have "\<not> length (bs @ payload @ junk) < PSD_HEADER_SIZE" using psdc.pack_size[OF assms(1)] by simp
  then show ?thesis
    by (simp only: handle_psd_datagram_def if_False psdc.datagram_split[OF assms] rbind_simps)
qed

text \<open>A handler none of whose exceptions is an \<open>OSError\<close> keeps its thread alive.\<close>

locale datagram_handler =
  fixes handler :: "bytes \<Rightarrow> 'a option result"
  assumes no_os_error: "handler d = Inl e \<Longrightarrow> \<not> subclass_of (exn_cls e) OSError"
begin

lemma loop_continues: "loop_step (handler d) \<noteq> LoopEnds"
  using no_os_error[of d] by (auto simp: loop_step_def split: sum.splits option.splits)

lemma receive_append: "receive_loop handler (ds @ es) = receive_loop handler ds @ receive_loop handler es"
  using loop_continues by (induction ds) (auto split: outcome.splits)

lemma receive_delivered:
  "list_all2 (\<lambda>d x. handler d = Inr (Some x)) ds xs \<Longrightarrow> receive_loop handler ds = map Inl xs"
  by (induction rule: list_all2_induct) (auto simp: loop_step_def)

end

interpretation iqh: datagram_handler handle_iq_datagram
  by unfold_locales
     (auto simp: handle_iq_datagram_def rbind_eq_Inl subclass_of_def dest!: iq_unpack_raises split: if_splits)

interpretation psdh: datagram_handler handle_psd_datagram
  by unfold_locales
     (auto simp: handle_psd_datagram_def rbind_eq_Inl subclass_of_def dest!: psd_unpack_raises split: if_splits)

interpretation statush: datagram_handler handle_status_datagram
  by unfold_locales
     (auto simp: handle_status_datagram_def rbind_eq_Inl subclass_of_def utf8_decode_def loads_def Let_def
       split: if_splits option.splits)

section \<open>Properties\<close>

text \<open>
  C33 (no datagram stops a receiver). What a receiver thread does with a datagram does not depend on
  the datagrams before it: whatever bytes arrive, too short, corrupt or not JSON, the loop goes on
  and treats the following ones as if the thread had just started.
\<close>

theorem receivers_survive_any_datagram:
  "receive_loop handle_iq_datagram (ds @ es) = receive_loop handle_iq_datagram ds @ receive_loop handle_iq_datagram es
   \<and> receive_loop handle_psd_datagram (ds @ es) = receive_loop handle_psd_datagram ds @ receive_loop handle_psd_datagram es
   \<and> receive_loop handle_status_datagram (ds @ es) =
       receive_loop handle_status_datagram ds @ receive_loop handle_status_datagram es"
  by (intro conjI iqh.receive_append psdh.receive_append statush.receive_append)

text \<open>
  Datagrams round trip. A header packed and sent with its payload, and possibly followed by
  further bytes, reaches the callback as the same header with exactly that payload, for IQ and for
  PSD packets.
\<close>

theorem datagram_roundtrip:
  assumes "iq_pack h = Inr hb" and "iq_payload_bytes h = int (length p)"
    and "psd_pack g = Inr gb" and "psd_payload_bytes g = int (length q)"
  shows "receive_loop handle_iq_datagram [hb @ p @ junk] = [Inl (h, p)]
    \<and> receive_loop handle_psd_datagram [gb @ q @ junk] = [Inl (g, q)]"
  using iqh.receive_delivered[of "[hb @ p @ junk]" "[(h, p)]"]
    psdh.receive_delivered[of "[gb @ q @ junk]" "[(g, q)]"]
    receive_iq_sent[OF assms(1,2)] receive_psd_sent[OF assms(3,4)]
  by simp

theorem datagram_roundtrip_witness:
  "\<exists>hb gb. iq_pack (iq_default\<lparr>iq_sample_count := 1, iq_payload_bytes := 4\<rparr>) = Inr hb \<and> psd_pack psd_default = Inr gb
     \<and> receive_loop handle_iq_datagram [hb @ [1, 2, 3, 4] @ [9]] =
         [Inl (iq_default\<lparr>iq_sample_count := 1, iq_payload_bytes := 4\<rparr>, [1, 2, 3, 4])]"
proof -
  let ?h = "iq_default\<lparr>iq_sample_count := 1, iq_payload_bytes := 4\<rparr>"
  have "iq_valid ?h" "psd_valid psd_default"
    by (simp_all add: iq_valid_iff psd_valid_iff iq_default_def psd_default_def packet_consts IQ_HEADER_SIZE_eq PSD_HEADER_SIZE_eq)
  moreover have "in_range IQ_STRUCT (iq_fields ?h)" "in_range PSD_STRUCT (psd_fields psd_default)"
    by (simp_all add: in_range_def IQ_STRUCT_eq PSD_STRUCT_eq iq_fields_def psd_fields_def iq_default_def psd_default_def
        packet_consts IQ_HEADER_SIZE_eq PSD_HEADER_SIZE_eq)
  ultimately obtain hb gb where b: "iq_pack ?h = Inr hb" "psd_pack psd_default = Inr gb"
    using struct_pack_in_range by (metis iq_pack_eq psd_pack_eq)
  from datagram_roundtrip[OF b(1) _ b(2), of "[1, 2, 3, 4]" "[]" "[9]"] b show ?thesis
    by (simp add: psd_default_def)
qed

end
