(* ===== verification/Psd.thy ===== *)
theory Psd
  imports Packets
begin

text \<open>
  \<^verbatim>\<open>rpi/backend/sdr_backend/psd.py\<close>: reassembly of wideband PSD frames from segments that may
  arrive in any order. The two dataclasses and the class are records; \<open>_frames\<close> is a dict from
  \<open>(psd_id, frame_seq)\<close> to a buffer whose \<open>segments\<close> map segment indices to payloads. \<open>ingest\<close>
  returns the reassembler and what the method returns or raises: the frame is built after the
  buffer was deleted and counted, so an exception leaves those updates in place.
\<close>

section \<open>State\<close>

record PsdFrameBuffer =
  fb_header :: SdrPsdHeader
  fb_segments :: "(int \<times> bytes) list"

record PsdStats =
  complete_frames :: int
  dropped_frame_count :: int
  missing_segment_count :: int
  last_frame_seq :: "int option"

type_synonym frame_key = "int \<times> int"

record PsdReassembler =
  ra_frames :: "(frame_key \<times> PsdFrameBuffer) list"
  ra_stats :: PsdStats

definition psd_stats_init :: PsdStats where
  "psd_stats_init = \<lparr>complete_frames = 0, dropped_frame_count = 0, missing_segment_count = 0,
     last_frame_seq = None\<rparr>"

definition reassembler_init :: PsdReassembler where
  "reassembler_init = \<lparr>ra_frames = [], ra_stats = psd_stats_init\<rparr>"

definition reset :: "PsdReassembler \<Rightarrow> PsdReassembler" where
  "reset s = s\<lparr>ra_frames := [], ra_stats := psd_stats_init\<rparr>"

section \<open>Operations\<close>

definition seq_less :: "int \<Rightarrow> int \<Rightarrow> bool" where
  "seq_less left right \<longleftrightarrow> left \<noteq> right \<and> mask32 (right - left) < 0x80000000"

definition pop_stale :: "PsdReassembler \<Rightarrow> frame_key \<Rightarrow> PsdReassembler" where
  "pop_stale s key =
     (case map_of (ra_frames s) key of None \<Rightarrow> s
      | Some frame \<Rightarrow>
          let expected = psd_segment_count (fb_header frame);
              missing = max 0 (expected - int (length (fb_segments frame)));
              st = ra_stats s
          in s\<lparr>ra_frames := ddel (ra_frames s) key,
               ra_stats := st\<lparr>dropped_frame_count := dropped_frame_count st + 1,
                              missing_segment_count := missing_segment_count st + missing\<rparr>\<rparr>)"

definition drop_older_frames :: "int \<Rightarrow> int \<Rightarrow> PsdReassembler \<Rightarrow> PsdReassembler" where
  "drop_older_frames i q s =
     (let stale_keys = filter (\<lambda>key. fst key = i \<and> seq_less (snd key) q) (map fst (ra_frames s))
      in foldl pop_stale s stale_keys)"

fun decode_bins :: "bytes \<Rightarrow> pyfloat list" where
  "decode_bins (b0 # b1 # rest) =
     round2 (fquot (double_of_rat (of_int (le_sval [b0, b1]))) 256) # decode_bins rest"
| "decode_bins _ = []"

definition frequency_bounds :: "SdrPsdHeader \<Rightarrow> (pyval \<times> pyval \<times> pyval) result" where
  "frequency_bounds h =
     (if psd_start_frequency_hz h < psd_stop_frequency_hz h then
        rbind (int_truediv (psd_stop_frequency_hz h - psd_start_frequency_hz h) (psd_total_bins h)) (\<lambda>w.
        Inr (PInt (psd_start_frequency_hz h), PInt (psd_stop_frequency_hz h), PFloat w))
      else
        rbind (float_of_int (psd_bin_spacing_millihz h)) (\<lambda>mhz.
        let w = fquot mhz 1000 in
        rbind (float_of_int (psd_total_bins h)) (\<lambda>n.
        rbind (float_of_int (psd_start_frequency_hz h)) (\<lambda>f0.
        Inr (PInt (psd_start_frequency_hz h), PFloat (fadd f0 (fmul n w)), PFloat w)))))"

definition ingest :: "SdrPsdHeader \<Rightarrow> bytes \<Rightarrow> PsdReassembler \<Rightarrow> PsdReassembler \<times> pydict option result" where
  "ingest h payload s0 =
     (let s1 = drop_older_frames (psd_psd_id h) (psd_frame_seq h) s0;
          key = (psd_psd_id h, psd_frame_seq h);
          frame0 = (case map_of (ra_frames s1) key of Some f \<Rightarrow> f
                    | None \<Rightarrow> \<lparr>fb_header = h, fb_segments = []\<rparr>);
          frame = frame0\<lparr>fb_segments := dset (fb_segments frame0) (psd_segment_index h) payload\<rparr>;
          s2 = s1\<lparr>ra_frames := dset (ra_frames s1) key frame\<rparr>;
          ordered = map (\<lambda>i. map_of (fb_segments frame) (int i)) [0..<nat (psd_segment_count h)]
      in if int (length (fb_segments frame)) < psd_segment_count h then (s2, Inr None)
         else if None \<in> set ordered then (s2, Inr None)
         else
           let st = ra_stats s2;
               s3 = s2\<lparr>ra_frames := ddel (ra_frames s2) key,
                       ra_stats := st\<lparr>complete_frames := complete_frames st + 1,
                                      last_frame_seq := Some (psd_frame_seq h)\<rparr>\<rparr>;
               bins_q8 = decode_bins (concat (map the ordered))
           in (s3, rbind (frequency_bounds h) (\<lambda>(start_hz, stop_hz, spacing).
                Inr (Some [(''type'', PStr ''wideband_psd''),
                           (''psd_id'', PInt (psd_psd_id h)),
                           (''frame_seq'', PInt (psd_frame_seq h)),
                           (''start_frequency_hz'', start_hz),
                           (''stop_frequency_hz'', stop_hz),
                           (''bin_spacing_hz'', spacing),
                           (''fft_size'', PInt (psd_fft_size h)),
                           (''total_bins'', PInt (psd_total_bins h)),
                           (''bins_dbfs'', PList (map PFloat (slice_to (psd_total_bins h) bins_q8))),
                           (''flags'', PInt (psd_flags h)),
                           (''dropped_frame_count'', PInt (dropped_frame_count (ra_stats s3))),
                           (''missing_segment_count'', PInt (missing_segment_count (ra_stats s3)))]))))"

text \<open>A sequence of datagrams: the final reassembler and the result of every call.\<close>

fun ingest_run :: "PsdReassembler \<Rightarrow> (SdrPsdHeader \<times> bytes) list \<Rightarrow>
    PsdReassembler \<times> pydict option result list" where
  "ingest_run s [] = (s, [])"
| "ingest_run s ((h, p) # ps) =
     (let (s1, r) = ingest h p s; (s2, rs) = ingest_run s1 ps in (s2, r # rs))"

section \<open>Invariant\<close>

definition buffer_ok :: "frame_key \<Rightarrow> PsdFrameBuffer \<Rightarrow> bool" where
  "buffer_ok key f \<longleftrightarrow> dict_ok (fb_segments f) \<and> fb_segments f \<noteq> []
     \<and> key = (psd_psd_id (fb_header f), psd_frame_seq (fb_header f))"

definition ra_inv :: "PsdReassembler \<Rightarrow> bool" where
  "ra_inv s \<longleftrightarrow> dict_ok (ra_frames s)
     \<and> (\<forall>key f. map_of (ra_frames s) key = Some f \<longrightarrow> buffer_ok key f)
     \<and> 0 \<le> complete_frames (ra_stats s) \<and> 0 \<le> dropped_frame_count (ra_stats s)
     \<and> 0 \<le> missing_segment_count (ra_stats s)"

lemma seq_less_irrefl [simp]: "\<not> seq_less a a"
  by (simp add: seq_less_def)

lemma length_ddel: "dict_ok d \<Longrightarrow> map_of d k = Some v \<Longrightarrow> Suc (length (ddel d k)) = length d"
proof (induction d k rule: ddel.induct)
  case (2 k' v' d k)
  then show ?case by (auto simp: dict_ok_def split: if_splits)
qed simp

lemma length_dset: "length (dset d k v) = (if map_of d k = None then Suc (length d) else length d)"
  by (induction d k v rule: dset.induct) auto

lemma ra_inv_pop_stale: "ra_inv s \<Longrightarrow> ra_inv (pop_stale s key)"
  by (auto simp: ra_inv_def pop_stale_def Let_def split: option.splits if_splits)

lemma frames_pop_stale:
  "ra_inv s \<Longrightarrow> map_of (ra_frames (pop_stale s key)) = (map_of (ra_frames s))(key := None)"
  by (auto simp: ra_inv_def pop_stale_def Let_def fun_eq_iff split: option.splits)

lemma fold_pop_stale:
  "ra_inv s \<Longrightarrow> ra_inv (foldl pop_stale s ks)
    \<and> map_of (ra_frames (foldl pop_stale s ks)) = (\<lambda>k. if k \<in> set ks then None else map_of (ra_frames s) k)"
  by (induction ks arbitrary: s) (auto simp: ra_inv_pop_stale frames_pop_stale fun_eq_iff)

lemma ra_inv_drop_older: "ra_inv s \<Longrightarrow> ra_inv (drop_older_frames i q s)"
  using fold_pop_stale by (simp add: drop_older_frames_def Let_def)

lemma frames_drop_older:
  assumes "ra_inv s"
  shows "map_of (ra_frames (drop_older_frames i q s)) =
    (\<lambda>k. if fst k = i \<and> seq_less (snd k) q then None else map_of (ra_frames s) k)"
proof -
  have "map_of (ra_frames s) k = None" if "k \<notin> fst ` set (ra_frames s)" for k
    using that by (simp add: map_of_eq_None_iff)
  then show ?thesis
    using fold_pop_stale[OF assms] by (auto simp: drop_older_frames_def Let_def fun_eq_iff)
qed

section \<open>What one call does\<close>

text \<open>The buffer after the segment was stored, and when it is complete.\<close>

definition stored :: "SdrPsdHeader \<Rightarrow> bytes \<Rightarrow> PsdReassembler \<Rightarrow> PsdFrameBuffer" where
  "stored h payload s =
     (let frame0 = (case map_of (ra_frames s) (psd_psd_id h, psd_frame_seq h) of Some f \<Rightarrow> f
                    | None \<Rightarrow> \<lparr>fb_header = h, fb_segments = []\<rparr>)
      in frame0\<lparr>fb_segments := dset (fb_segments frame0) (psd_segment_index h) payload\<rparr>)"

definition frame_complete :: "int \<Rightarrow> PsdFrameBuffer \<Rightarrow> bool" where
  "frame_complete n f \<longleftrightarrow> (\<forall>i \<in> {0..<n}. map_of (fb_segments f) i \<noteq> None)"

definition frame_bytes :: "int \<Rightarrow> PsdFrameBuffer \<Rightarrow> bytes" where
  "frame_bytes n f = concat (map (\<lambda>i. the (map_of (fb_segments f) (int i))) [0..<nat n])"

definition frame_dict :: "SdrPsdHeader \<Rightarrow> bytes \<Rightarrow> PsdStats \<Rightarrow> pyval \<times> pyval \<times> pyval \<Rightarrow> pydict" where
  "frame_dict h bs st fb =
     [(''type'', PStr ''wideband_psd''), (''psd_id'', PInt (psd_psd_id h)),
      (''frame_seq'', PInt (psd_frame_seq h)), (''start_frequency_hz'', fst fb),
      (''stop_frequency_hz'', fst (snd fb)), (''bin_spacing_hz'', snd (snd fb)),
      (''fft_size'', PInt (psd_fft_size h)), (''total_bins'', PInt (psd_total_bins h)),
      (''bins_dbfs'', PList (map PFloat (slice_to (psd_total_bins h) (decode_bins bs)))),
      (''flags'', PInt (psd_flags h)),
      (''dropped_frame_count'', PInt (dropped_frame_count st)),
      (''missing_segment_count'', PInt (missing_segment_count st))]"

lemma keys_length:
  assumes "dict_ok d" and "\<forall>i \<in> {0..<n}. map_of d i \<noteq> None"
  shows "n \<le> int (length d)"
proof -
  have "{0..<n} \<subseteq> set (map fst d)" using assms(2) by (force simp: map_of_eq_None_iff)
  then have "card {0..<n} \<le> card (set (map fst d))" by (intro card_mono) auto
  with assms(1) show ?thesis using distinct_card[of "map fst d"] by (simp add: dict_ok_def)
qed

lemma ordered_None:
  "None \<in> set (map (\<lambda>i. map_of (fb_segments f) (int i)) [0..<nat n]) \<longleftrightarrow> \<not> frame_complete n f"
proof -
  have 1: "(\<exists>i \<in> {0..<nat n}. g (int i) = None) \<longleftrightarrow> (\<exists>i \<in> {0..<n}. g i = None)" for g :: "int \<Rightarrow> bytes option"
  proof
    assume "\<exists>i \<in> {0..<n}. g i = None"
    then obtain i where "i \<in> {0..<n}" "g i = None" by blast
    then show "\<exists>i \<in> {0..<nat n}. g (int i) = None"
      by (intro bexI[of _ "nat i"]) auto
  qed auto
  have 2: "None \<in> set (map (\<lambda>i. g (int i)) [0..<nat n]) \<longleftrightarrow> (\<exists>i \<in> {0..<nat n}. g (int i) = None)"
    for g :: "int \<Rightarrow> bytes option" by (simp add: image_iff eq_commute[of None] Bex_def)
  have "(None \<in> set (map (\<lambda>i. map_of (fb_segments f) (int i)) [0..<nat n])) =
      (\<exists>i \<in> {0..<n}. map_of (fb_segments f) i = None)"
    unfolding 2 1 ..
  then show ?thesis unfolding frame_complete_def by (rule trans) metis
qed

lemma stored_segments_ok: "ra_inv s \<Longrightarrow> dict_ok (fb_segments (stored h p s))"
  by (auto simp: stored_def Let_def ra_inv_def buffer_ok_def dict_ok_def[of "[]"] split: option.splits
      intro!: dict_ok_dset)

lemma ingest_pending:
  assumes "s1 = drop_older_frames (psd_psd_id h) (psd_frame_seq h) s"
    and "\<not> frame_complete (psd_segment_count h) (stored h p s1)"
  shows "ingest h p s =
    (s1\<lparr>ra_frames := dset (ra_frames s1) (psd_psd_id h, psd_frame_seq h) (stored h p s1)\<rparr>, Inr None)"
  using assms ordered_None[of "stored h p s1"]
  by (simp add: ingest_def stored_def Let_def)

lemma ingest_completed:
  assumes "ra_inv s" and s1: "s1 = drop_older_frames (psd_psd_id h) (psd_frame_seq h) s"
    and c: "frame_complete (psd_segment_count h) (stored h p s1)"
  shows "ingest h p s =
    (s1\<lparr>ra_frames := ddel (dset (ra_frames s1) (psd_psd_id h, psd_frame_seq h) (stored h p s1))
                        (psd_psd_id h, psd_frame_seq h),
        ra_stats := (ra_stats s1)\<lparr>complete_frames := complete_frames (ra_stats s1) + 1,
                                   last_frame_seq := Some (psd_frame_seq h)\<rparr>\<rparr>,
     rbind (frequency_bounds h) (\<lambda>fb.
       Inr (Some (frame_dict h (frame_bytes (psd_segment_count h) (stored h p s1)) (ra_stats s1) fb))))"
proof -
  have "ra_inv s1" using assms by (simp add: ra_inv_drop_older)
  then have "psd_segment_count h \<le> int (length (fb_segments (stored h p s1)))"
    using c stored_segments_ok by (intro keys_length) (auto simp: frame_complete_def)
  with c ordered_None[of "stored h p s1" "psd_segment_count h"] show ?thesis
    by (simp add: ingest_def stored_def Let_def s1 frame_dict_def frame_bytes_def comp_def
        split_def not_less)
qed

lemma ra_inv_ingest: "ra_inv s \<Longrightarrow> ra_inv (fst (ingest h p s))"
proof -
  assume inv: "ra_inv s"
  define s1 where "s1 = drop_older_frames (psd_psd_id h) (psd_frame_seq h) s"
  have i1: "ra_inv s1" using inv by (simp add: s1_def ra_inv_drop_older)
  have b: "buffer_ok (psd_psd_id h, psd_frame_seq h) (stored h p s1)"
  proof -
    have "dset d k v \<noteq> []" for d :: "(int \<times> bytes) list" and k v
      by (cases "(d, k, v)" rule: dset.cases) auto
    then show ?thesis using i1 stored_segments_ok[OF i1, of h p]
      by (auto simp: buffer_ok_def stored_def Let_def ra_inv_def split: option.splits)
  qed
  show ?thesis
  proof (cases "frame_complete (psd_segment_count h) (stored h p s1)")
    case True
    then show ?thesis using i1 b ingest_completed[OF inv s1_def True] by (auto simp: ra_inv_def)
  next
    case False
    then show ?thesis using i1 b ingest_pending[OF s1_def False] by (auto simp: ra_inv_def)
  qed
qed

lemma ra_inv_init: "ra_inv reassembler_init" "ra_inv (reset s)"
  by (simp_all add: reassembler_init_def reset_def psd_stats_init_def ra_inv_def dict_ok_def)

interpretation psdm: event_machine "\<lambda>s (h, p). fst (ingest h p s)" ra_inv
  by unfold_locales (auto intro: ra_inv_ingest)

lemma ingest_run_fst: "fst (ingest_run s ps) = foldl (\<lambda>s (h, p). fst (ingest h p s)) s ps"
  by (induction ps arbitrary: s) (auto simp: split_def Let_def)

lemma ingest_run_append:
  "ingest_run s (ps @ qs) =
    (let (s1, rs) = ingest_run s ps; (s2, rs') = ingest_run s1 qs in (s2, rs @ rs'))"
  by (induction ps arbitrary: s) (auto simp: split_def Let_def)

section \<open>Decoding of bins\<close>

definition q8_to_dbfs :: "int \<Rightarrow> pyfloat" where
  "q8_to_dbfs q8 = double_of_rat (of_int (round_half_even (of_int q8 / 256 * 100)) / 100)"

lemma decode_bin_value:
  assumes "- 32768 \<le> v" and "v < 32768"
  shows "round2 (fquot (double_of_rat (of_int v)) 256) = q8_to_dbfs v"
proof -
  have "double_of_rat (of_int v) = FFin (of_int v)"
    using assms by (intro double_of_int_exact) simp
  moreover have "double_of_rat (of_int v / 256) = FFin (of_int v / 256)"
    using assms by (intro double_of_rat_exact[where m = v and e = "- 8"]) (auto simp: pow2_def)
  ultimately show ?thesis by (simp add: q8_to_dbfs_def)
qed

lemma le_bytes_2: "le_bytes 2 v = [word_of_int v, word_of_int (v div 256)]"
  by (simp add: numeral_2_eq_2)

lemma decode_bins_le_bytes:
  assumes "\<forall>v \<in> set qs. - 32768 \<le> v \<and> v < 32768"
  shows "decode_bins (concat (map (le_bytes 2) qs) ) = map q8_to_dbfs qs"
  using assms
proof (induction qs)
  case (Cons v qs)
  then have "le_sval [word_of_int v, word_of_int (v div 256)] = v"
    using le_sval_le_bytes[of 2 v] by (simp add: le_bytes_2)
  moreover have "round2 (fquot (double_of_rat (of_int v)) 256) = q8_to_dbfs v"
    using Cons.prems by (intro decode_bin_value) auto
  ultimately show ?case using Cons by (simp add: le_bytes_2 del: round2.simps fquot.simps)
qed simp

lemma length_decode_bins [simp]: "length (decode_bins bs) = length bs div 2"
  by (induction bs rule: decode_bins.induct) auto

section \<open>Reassembly of a whole frame\<close>

fun same_frame :: "int \<Rightarrow> int \<Rightarrow> int \<Rightarrow> SdrPsdHeader \<times> bytes \<Rightarrow> bool" where
  "same_frame i q n (h, p) \<longleftrightarrow> psd_psd_id h = i \<and> psd_frame_seq h = q \<and> psd_segment_count h = n
     \<and> 0 \<le> psd_segment_index h \<and> psd_segment_index h < n"

definition indices :: "(SdrPsdHeader \<times> bytes) list \<Rightarrow> int set" where
  "indices ps = (\<lambda>(h, p). psd_segment_index h) ` set ps"

text \<open>The newest copy of every segment of a sequence of datagrams.\<close>

definition newest :: "(SdrPsdHeader \<times> bytes) list \<Rightarrow> int \<Rightarrow> bytes option" where
  "newest ps = map_of (rev (map (\<lambda>(h, p). (psd_segment_index h, p)) ps))"

definition segmap :: "PsdReassembler \<Rightarrow> frame_key \<Rightarrow> int \<Rightarrow> bytes option" where
  "segmap s key = (case map_of (ra_frames s) key of None \<Rightarrow> Map.empty | Some f \<Rightarrow> map_of (fb_segments f))"

lemma indices_simps [simp]: "indices [] = {}" "indices (ps @ qs) = indices ps \<union> indices qs"
  "indices [(h, p)] = {psd_segment_index h}"
  by (auto simp: indices_def)

lemma newest_snoc: "newest (ps @ [(h, p)]) = (newest ps)(psd_segment_index h \<mapsto> p)"
  by (simp add: newest_def)

lemma newest_None: "newest ps k = None \<longleftrightarrow> k \<notin> indices ps"
  by (force simp: newest_def indices_def map_of_eq_None_iff)

lemma stored_segmap:
  "map_of (fb_segments (stored h p s)) =
     (segmap s (psd_psd_id h, psd_frame_seq h))(psd_segment_index h \<mapsto> p)"
  by (auto simp: stored_def segmap_def Let_def split: option.splits)

lemma segmap_drop_older:
  "ra_inv s \<Longrightarrow> segmap (drop_older_frames i q s) (i, q) = segmap s (i, q)"
  by (simp add: segmap_def frames_drop_older)

lemma pending_run:
  assumes "ra_inv s" and "map_of (ra_frames s) (i, q) = None"
    and "\<forall>x \<in> set ps. same_frame i q n x" and "k \<in> {0..<n}" "k \<notin> indices ps"
  shows "\<exists>s'. ingest_run s ps = (s', replicate (length ps) (Inr None)) \<and> ra_inv s'
           \<and> segmap s' (i, q) = newest ps"
  using assms(3,5)
proof (induction ps rule: rev_induct)
  case Nil
  with assms(1,2) show ?case by (simp add: segmap_def newest_def)
next
  case (snoc x ps)
  obtain h p where x: "x = (h, p)" by fastforce
  from snoc obtain s' where run: "ingest_run s ps = (s', replicate (length ps) (Inr None))"
    and inv: "ra_inv s'" and seg: "segmap s' (i, q) = newest ps" by auto
  define s1 where "s1 = drop_older_frames (psd_psd_id h) (psd_frame_seq h) s'"
  have hq: "psd_psd_id h = i" "psd_frame_seq h = q" "psd_segment_count h = n"
    using snoc.prems(1) by (auto simp: x)
  have st: "map_of (fb_segments (stored h p s1)) = newest (ps @ [(h, p)])"
    unfolding stored_segmap newest_snoc using inv by (simp add: s1_def hq segmap_drop_older seg)
  have "newest (ps @ [(h, p)]) k = None" using snoc.prems(2) by (simp add: newest_None x)
  then have "\<not> frame_complete n (stored h p s1)"
    using assms(4) by (auto simp: frame_complete_def st)
  then have ing: "ingest h p s' =
      (s1\<lparr>ra_frames := dset (ra_frames s1) (i, q) (stored h p s1)\<rparr>, Inr None)"
    using ingest_pending[OF s1_def, of p] by (simp add: hq)
  have "segmap (fst (ingest h p s')) (i, q) = newest (ps @ [x])" by (simp add: ing segmap_def st x)
  moreover have "ra_inv (fst (ingest h p s'))" using inv by (rule ra_inv_ingest)
  ultimately show ?case
    by (auto simp: ingest_run_append run x Let_def split_def ing replicate_append_same)
qed

lemma frame_run:
  assumes inv: "ra_inv s" and fresh: "map_of (ra_frames s) (i, q) = None"
    and same: "\<forall>x \<in> set (ps @ [(h, p)]). same_frame i q n x"
    and all: "indices (ps @ [(h, p)]) = {0..<n}" and last: "psd_segment_index h \<notin> indices ps"
    and fb: "frequency_bounds h = Inr fb"
  shows "\<exists>s' st. ingest_run s (ps @ [(h, p)]) =
      (s', replicate (length ps) (Inr None) @
           [Inr (Some (frame_dict h (concat (map (\<lambda>k. the (newest (ps @ [(h, p)]) (int k))) [0..<nat n])) st fb))])
    \<and> ra_inv s' \<and> map_of (ra_frames s') (i, q) = None"
proof -
  have hq: "psd_psd_id h = i" "psd_frame_seq h = q" "psd_segment_count h = n"
    and k: "psd_segment_index h \<in> {0..<n}" using same by auto
  obtain s' where run: "ingest_run s ps = (s', replicate (length ps) (Inr None))"
    and inv': "ra_inv s'" and seg: "segmap s' (i, q) = newest ps"
    using pending_run[OF inv fresh _ k last] same by auto
  define s1 where "s1 = drop_older_frames (psd_psd_id h) (psd_frame_seq h) s'"
  have st: "map_of (fb_segments (stored h p s1)) = newest (ps @ [(h, p)])"
    unfolding stored_segmap newest_snoc using inv' by (simp add: s1_def hq segmap_drop_older seg)
  have "newest (ps @ [(h, p)]) j \<noteq> None" if "j \<in> {0..<n}" for j
    using that all newest_None[of "ps @ [(h, p)]" j] by simp
  then have c: "frame_complete (psd_segment_count h) (stored h p s1)"
    by (simp add: frame_complete_def st hq)
  note ing = ingest_completed[OF inv' s1_def c]
  have "ra_inv (fst (ingest h p s'))" using inv' by (rule ra_inv_ingest)
  moreover have "map_of (ra_frames (fst (ingest h p s'))) (i, q) = None"
  proof -
    have "dict_ok (dset (ra_frames s1) (i, q) (stored h p s1))"
      using ra_inv_drop_older[OF inv'] by (intro dict_ok_dset) (auto simp: s1_def ra_inv_def)
    then show ?thesis by (simp add: ing hq)
  qed
  ultimately show ?thesis
    by (auto simp: ingest_run_append run Let_def split_def ing fb frame_bytes_def st hq)
qed

section \<open>Accounting of frames\<close>

definition frames_seen :: "PsdReassembler \<Rightarrow> int" where
  "frames_seen s = complete_frames (ra_stats s) + dropped_frame_count (ra_stats s) + int (length (ra_frames s))"

lemma frames_seen_pop_stale: "ra_inv s \<Longrightarrow> frames_seen (pop_stale s key) = frames_seen s"
  using length_ddel[of "ra_frames s" key]
  by (auto simp: frames_seen_def pop_stale_def Let_def ra_inv_def split: option.splits)

lemma frames_seen_drop_older: "ra_inv s \<Longrightarrow> frames_seen (drop_older_frames i q s) = frames_seen s"
proof -
  have "ra_inv s \<Longrightarrow> frames_seen (foldl pop_stale s ks) = frames_seen s" for ks
    by (induction ks arbitrary: s) (auto simp: ra_inv_pop_stale frames_seen_pop_stale)
  then show "ra_inv s \<Longrightarrow> ?thesis" by (simp add: drop_older_frames_def Let_def)
qed

lemma dset_not_Nil [simp]: "dset d k v \<noteq> []"
  by (cases "(d, k, v)" rule: dset.cases) auto

lemma ingest_frames:
  assumes "ra_inv s"
  shows "map_of (ra_frames (fst (ingest h p s))) key =
    (if key = (psd_psd_id h, psd_frame_seq h)
     then (let f = stored h p (drop_older_frames (psd_psd_id h) (psd_frame_seq h) s)
           in if frame_complete (psd_segment_count h) f then None else Some f)
     else if fst key = psd_psd_id h \<and> seq_less (snd key) (psd_frame_seq h) then None
     else map_of (ra_frames s) key)"
proof -
  define s1 where "s1 = drop_older_frames (psd_psd_id h) (psd_frame_seq h) s"
  have fr: "map_of (ra_frames s1) = (\<lambda>k. if fst k = psd_psd_id h \<and> seq_less (snd k) (psd_frame_seq h)
      then None else map_of (ra_frames s) k)"
    by (simp add: s1_def frames_drop_older[OF assms])
  have ok: "dict_ok (ra_frames s1)" using ra_inv_drop_older[OF assms] by (simp add: s1_def ra_inv_def)
  show ?thesis
  proof (cases "frame_complete (psd_segment_count h) (stored h p s1)")
    case True
    then show ?thesis using ok by (auto simp: ingest_completed[OF assms s1_def True] fr s1_def[symmetric])
  next
    case False
    then show ?thesis by (auto simp: ingest_pending[OF s1_def False] fr s1_def[symmetric])
  qed
qed

lemma newest_permutation:
  assumes "distinct order" and idx: "\<forall>k \<in> set order. psd_segment_index (hdr k) = int k" and "k \<in> set order"
  shows "newest (map (\<lambda>k. (hdr k, pay k)) order) (int k) = Some (pay k)"
proof -
  let ?kvs = "map (\<lambda>(h, p). (psd_segment_index h, p)) (map (\<lambda>k. (hdr k, pay k)) order)"
  have d: "distinct (map fst ?kvs)" using assms(1) idx by (auto simp: distinct_map inj_on_def)
  moreover have "(int k, pay k) \<in> set ?kvs" using assms(3) idx by (auto simp: image_iff intro!: bexI[of _ k])
  ultimately have "map_of ?kvs (int k) = Some (pay k)" by (rule map_of_is_SomeI)
  with d show ?thesis by (simp add: newest_def map_of_rev_distinct dict_ok_def)
qed

lemma indices_permutation:
  assumes "\<forall>k \<in> set order. psd_segment_index (hdr k) = int k" and "set order = {0..<n}"
  shows "indices (map (\<lambda>k. (hdr k, pay k)) order) = {0..<int n}"
proof -
  have "indices (map (\<lambda>k. (hdr k, pay k)) order) = int ` {0..<n}"
    using assms by (auto simp: indices_def image_iff)
  then show ?thesis using image_int_atLeastLessThan[of 0 n] by simp
qed

lemma map_fst_dset: "map fst (dset d k v) = (if k \<in> fst ` set d then map fst d else map fst d @ [k])"
  by (induction d k v rule: dset.induct) auto

lemma no_stale:
  assumes "\<forall>q. map_of (ra_frames s) (i, q) = None"
  shows "filter (\<lambda>key. fst key = i \<and> seq_less (snd key) q) (map fst (ra_frames s)) = []"
proof -
  have "fst key \<noteq> i" if "key \<in> fst ` set (ra_frames s)" for key
  proof
    assume "fst key = i"
    then have "map_of (ra_frames s) key = None" using assms by (cases key) auto
    with that show False by (simp add: map_of_eq_None_iff)
  qed
  then show ?thesis by (auto simp: filter_empty_conv)
qed

lemma drop_older_none: "\<forall>q. map_of (ra_frames s) (i, q) = None \<Longrightarrow> drop_older_frames i q s = s"
  unfolding drop_older_frames_def no_stale by simp

lemma ingest_stats:
  assumes "ra_inv s"
  shows "dropped_frame_count (ra_stats (fst (ingest h p s))) =
       dropped_frame_count (ra_stats (drop_older_frames (psd_psd_id h) (psd_frame_seq h) s))"
    and "missing_segment_count (ra_stats (fst (ingest h p s))) =
       missing_segment_count (ra_stats (drop_older_frames (psd_psd_id h) (psd_frame_seq h) s))"
  using ingest_completed[OF assms refl, of h p] ingest_pending[OF refl, of h p s]
  by (cases "frame_complete (psd_segment_count h)
       (stored h p (drop_older_frames (psd_psd_id h) (psd_frame_seq h) s))"; simp)+

lemma drop_older_single:
  assumes "\<forall>q. map_of (ra_frames s) (i, q) = None" and "seq_less q q'"
  shows "drop_older_frames i q' (s\<lparr>ra_frames := dset (ra_frames s) (i, q) f\<rparr>) =
    pop_stale (s\<lparr>ra_frames := dset (ra_frames s) (i, q) f\<rparr>) (i, q)"
proof -
  have "(i, q) \<notin> fst ` set (ra_frames s)" using assms(1) by (simp add: map_of_eq_None_iff)
  then show ?thesis
    using assms(2) no_stale[OF assms(1), of q']
    by (simp add: drop_older_frames_def map_fst_dset)
qed

lemma stored_fresh:
  "map_of (ra_frames s) (psd_psd_id h, psd_frame_seq h) = None \<Longrightarrow>
    stored h p s = \<lparr>fb_header = h, fb_segments = [(psd_segment_index h, p)]\<rparr>"
  by (simp add: stored_def)

lemma reassembly_in_any_order:
  assumes "ra_inv s" and "map_of (ra_frames s) (i, q) = None"
    and "distinct order" and "set order = {0..<n}" and "order \<noteq> []"
    and "\<forall>k \<in> {0..<n}. psd_psd_id (hdr k) = i \<and> psd_frame_seq (hdr k) = q
          \<and> psd_segment_count (hdr k) = int n \<and> psd_segment_index (hdr k) = int k"
    and "frequency_bounds (hdr (last order)) = Inr fb"
  shows "\<exists>s' fr. ingest_run s (map (\<lambda>k. (hdr k, pay k)) order) =
        (s', replicate (n - 1) (Inr None) @ [Inr (Some fr)])
      \<and> map_of (ra_frames s') (i, q) = None
      \<and> map_of fr ''frame_seq'' = Some (PInt q)
      \<and> map_of fr ''bins_dbfs'' = Some (PList (map PFloat
           (slice_to (psd_total_bins (hdr (last order))) (decode_bins (concat (map pay [0..<n]))))))"
proof -
  let ?f = "\<lambda>k. (hdr k, pay k)"
  define l where "l = last order"
  define ks where "ks = butlast order"
  have order: "order = ks @ [l]" using assms(5) by (simp add: ks_def l_def)
  have n: "length order = n" using assms(3,4) distinct_card by fastforce
  have idx: "psd_segment_index (hdr k) = int k" if "k \<in> set order" for k
    using assms(4,6) that by auto
  have all: "indices (map ?f ks @ [?f l]) = {0..<int n}"
    using indices_permutation[of order hdr n pay] idx assms(4) by (simp add: order)
  have last: "psd_segment_index (hdr l) \<notin> indices (map ?f ks)"
    using assms(3) idx by (auto simp: indices_def order)
  have "same_frame i q (int n) (?f k)" if "k \<in> set order" for k
    using assms(6) that unfolding assms(4) by simp
  then have same: "\<forall>x \<in> set (map ?f ks @ [?f l]). same_frame i q (int n) x"
    by (simp add: order)
  have fb: "frequency_bounds (hdr l) = Inr fb" using assms(7) by (simp add: l_def)
  from frame_run[OF assms(1,2) same all last fb] obtain s' st where
    run: "ingest_run s (map ?f ks @ [?f l]) =
      (s', replicate (length (map ?f ks)) (Inr None) @ [Inr (Some (frame_dict (hdr l)
         (concat (map (\<lambda>k. the (newest (map ?f ks @ [?f l]) (int k))) [0..<nat (int n)])) st fb))])"
    and gone: "map_of (ra_frames s') (i, q) = None"
    by blast
  have "newest (map ?f order) (int k) = Some (pay k)" if "k < n" for k
    using newest_permutation[OF assms(3), of hdr k pay] idx assms(4) that by simp
  then have eq: "map (\<lambda>k. the (newest (map ?f ks @ [?f l]) (int k))) [0..<n] = map pay [0..<n]"
    by (simp add: order)
  have "psd_frame_seq (hdr l) = q" using assms(4,6) order by auto
  moreover have "n - 1 = length ks" using n by (simp add: order)
  ultimately show ?thesis
    using run[unfolded nat_int eq] gone by (auto simp: order frame_dict_def)
qed

section \<open>Properties\<close>

text \<open>
  C10: The segments of a PSD frame may arrive in any order. Let \<open>hdr k\<close> and \<open>pay k\<close> be the header
  and the payload of segment \<open>k\<close> of an \<open>n\<close>-segment frame and let \<open>order\<close> be any permutation of
  the segment numbers. Feeding the segments to a reassembler that does not hold this frame yet
  gives \<open>None\<close> for all but the last, and then exactly one frame, whose bins are those of the
  payloads concatenated in segment order; the buffer is gone afterwards.
\<close>

theorem psd_reassembly_any_order:
  assumes "ra_inv s" and "map_of (ra_frames s) (i, q) = None"
    and "distinct order" and "set order = {0..<n}" and "order \<noteq> []"
    and "\<forall>k \<in> {0..<n}. psd_psd_id (hdr k) = i \<and> psd_frame_seq (hdr k) = q
          \<and> psd_segment_count (hdr k) = int n \<and> psd_segment_index (hdr k) = int k"
    and "frequency_bounds (hdr (last order)) = Inr fb"
  shows "\<exists>s' fr. ingest_run s (map (\<lambda>k. (hdr k, pay k)) order) =
        (s', replicate (n - 1) (Inr None) @ [Inr (Some fr)])
      \<and> map_of (ra_frames s') (i, q) = None
      \<and> map_of fr ''frame_seq'' = Some (PInt q)
      \<and> map_of fr ''bins_dbfs'' = Some (PList (map PFloat
           (slice_to (psd_total_bins (hdr (last order))) (decode_bins (concat (map pay [0..<n]))))))"
  using assms by (rule reassembly_in_any_order)

definition demo_hdr :: "nat \<Rightarrow> SdrPsdHeader" where
  "demo_hdr k = psd_default\<lparr>psd_frame_seq := 12, psd_start_frequency_hz := 500000,
     psd_stop_frequency_hz := 108000000, psd_total_bins := 2, psd_segment_index := int k,
     psd_segment_count := 2, psd_bin_count := 1, psd_payload_bytes := 2\<rparr>"

definition demo_pay :: "nat \<Rightarrow> bytes" where
  "demo_pay k = le_bytes 2 (- 23680 + int k)"

lemma demo_hdr_simps [simp]:
  "psd_psd_id (demo_hdr k) = 0" "psd_frame_seq (demo_hdr k) = 12" "psd_segment_count (demo_hdr k) = 2"
  "psd_segment_index (demo_hdr k) = int k" "psd_total_bins (demo_hdr k) = 2"
  "psd_start_frequency_hz (demo_hdr k) = 500000" "psd_stop_frequency_hz (demo_hdr k) = 108000000"
  by (simp_all add: demo_hdr_def psd_default_def)

theorem psd_reassembly_any_order_witness:
  "\<exists>s' fr. ingest_run reassembler_init (map (\<lambda>k. (demo_hdr k, demo_pay k)) [1, 0]) =
        (s', [Inr None, Inr (Some fr)])
      \<and> map_of fr ''bins_dbfs'' = Some (PList [PFloat (q8_to_dbfs (- 23680)), PFloat (q8_to_dbfs (- 23679))])"
proof -
  obtain w where w: "int_truediv 107500000 2 = Inr (FFin w)" using int_truediv_u64[of 107500000 2] by auto
  have fb: "frequency_bounds (demo_hdr (last [1, 0])) = Inr (PInt 500000, PInt 108000000, PFloat (FFin w))"
    by (simp add: frequency_bounds_def w)
  have bins: "decode_bins (concat (map demo_pay [0..<2])) = map q8_to_dbfs [- 23680, - 23679]"
    using decode_bins_le_bytes[of "[- 23680, - 23679]"] by (simp add: demo_pay_def upt_rec)
  have ord: "distinct [1, 0 :: nat]" "set [1, 0 :: nat] = {0..<2}" "[1, 0 :: nat] \<noteq> []" by auto
  have inv: "ra_inv reassembler_init" by (rule ra_inv_init)
  have fresh: "map_of (ra_frames reassembler_init) (0, 12) = None" by (simp add: reassembler_init_def)
  have hdrs: "\<forall>k \<in> {0..<2}. psd_psd_id (demo_hdr k) = 0 \<and> psd_frame_seq (demo_hdr k) = 12
      \<and> psd_segment_count (demo_hdr k) = int 2 \<and> psd_segment_index (demo_hdr k) = int k" by simp
  from psd_reassembly_any_order[OF inv fresh ord hdrs fb, where pay = demo_pay] show ?thesis
    unfolding bins by (auto simp: slice_to_pos)
qed

text \<open>
  What an arriving segment does to the other pending frames. After a segment of frame \<open>q\<close> of
  PSD stream \<open>i\<close> was ingested, no pending frame of stream \<open>i\<close> is older than \<open>q\<close> in sequence
  order, and every pending frame that is not older, and every frame of another stream, is kept
  unchanged.
\<close>

theorem ingest_drops_exactly_older:
  assumes "ra_inv s" and "key \<noteq> (psd_psd_id h, psd_frame_seq h)"
  shows "map_of (ra_frames (fst (ingest h p s))) key =
    (if fst key = psd_psd_id h \<and> seq_less (snd key) (psd_frame_seq h) then None
     else map_of (ra_frames s) key)"
  using assms by (simp add: ingest_frames)

theorem ingest_drops_exactly_older_witness:
  "map_of (ra_frames (fst (ingest (demo_hdr 0) [] reassembler_init))) (0, 11) =
    (if (0 :: int) = 0 \<and> seq_less 11 12 then None else map_of (ra_frames reassembler_init) (0, 11))"
  using ingest_drops_exactly_older[OF ra_inv_init(1), of "(0, 11)" "demo_hdr 0" "[]"] by simp

text \<open>
  C32: Every buffer that was ever opened is accounted for: completed frames, dropped frames and
  pending frames add up, and one call adds one to the sum exactly when its frame was not pending.
\<close>

theorem ingest_accounts_for_every_frame:
  assumes "ra_inv s"
  shows "frames_seen (fst (ingest h p s)) = frames_seen s +
    (if map_of (ra_frames s) (psd_psd_id h, psd_frame_seq h) = None then 1 else 0)"
proof -
  define key where "key = (psd_psd_id h, psd_frame_seq h)"
  define s1 where "s1 = drop_older_frames (psd_psd_id h) (psd_frame_seq h) s"
  have i1: "ra_inv s1" and seen: "frames_seen s1 = frames_seen s"
    using assms by (simp_all add: s1_def ra_inv_drop_older frames_seen_drop_older)
  have key: "map_of (ra_frames s1) key = map_of (ra_frames s) key"
    using assms by (simp add: s1_def key_def frames_drop_older)
  have len: "int (length (dset (ra_frames s1) key f)) =
      int (length (ra_frames s1)) + (if map_of (ra_frames s) key = None then 1 else 0)" for f
    by (simp add: length_dset key)
  show ?thesis
  proof (cases "frame_complete (psd_segment_count h) (stored h p s1)")
    case True
    have "dict_ok (dset (ra_frames s1) key (stored h p s1))" using i1 by (simp add: ra_inv_def)
    then have "int (length (ddel (dset (ra_frames s1) key (stored h p s1)) key)) + 1 =
        int (length (dset (ra_frames s1) key (stored h p s1)))"
      using length_ddel[of "dset (ra_frames s1) key (stored h p s1)" key] by simp
    then show ?thesis using seen len[of "stored h p s1"] ingest_completed[OF assms s1_def True]
      by (simp add: frames_seen_def key_def)
  next
    case False
    then show ?thesis using seen len[of "stored h p s1"] ingest_pending[OF s1_def False]
      by (simp add: frames_seen_def key_def)
  qed
qed

theorem ingest_accounts_for_every_frame_witness:
  "frames_seen (fst (ingest (demo_hdr 0) [] reassembler_init)) = 1"
  using ingest_accounts_for_every_frame[OF ra_inv_init(1), of "demo_hdr 0" "[]"]
  by (simp add: frames_seen_def reassembler_init_def psd_stats_init_def)

text \<open>
  The order on 32-bit frame numbers survives wrap-around. A frame that is \<open>d\<close> frames ahead of
  \<open>a\<close> is newer exactly when \<open>d\<close> is between 1 and \<open>2^31 - 1\<close>, also across the wrap to zero, and two
  frames are never each older than the other.
\<close>

theorem seq_less_window:
  assumes "0 \<le> a" "a < 2 ^ 32" "0 \<le> d" "d < 2 ^ 32"
  shows "(seq_less a (mask32 (a + d)) \<longleftrightarrow> 0 < d \<and> d < 2 ^ 31)
    \<and> \<not> (seq_less a (mask32 (a + d)) \<and> seq_less (mask32 (a + d)) a)"
proof -
  have m: "mask32 (mask32 (a + d) - a) = d" using assms by (simp add: mask32_absorb mask32_id)
  have ne: "a \<noteq> mask32 (a + d) \<longleftrightarrow> d \<noteq> 0"
    using assms m by (auto simp: mask32_id)
  have 1: "seq_less a (mask32 (a + d)) \<longleftrightarrow> 0 < d \<and> d < 2 ^ 31"
    using assms ne m by (auto simp: seq_less_def)
  have "mask32 (a - mask32 (a + d)) = mask32 (- d)" by (simp add: mask32_absorb)
  moreover have "mask32 (- d) = 2 ^ 32 - d" if "0 < d"
    using that assms mask32_neg[of d] by simp
  ultimately have "\<not> (seq_less a (mask32 (a + d)) \<and> seq_less (mask32 (a + d)) a)"
    using 1 ne by (auto simp: seq_less_def[of "mask32 (a + d)"])
  with 1 show ?thesis by blast
qed

theorem seq_less_window_witness:
  "seq_less 4294967295 (mask32 (4294967295 + 1))
     \<and> \<not> (seq_less 4294967295 (mask32 (4294967295 + 1)) \<and> seq_less (mask32 (4294967295 + 1)) 4294967295)"
  using seq_less_window[of 4294967295 1] by simp

text \<open>
  As long as frames do not arrive late, at most one frame per PSD stream is pending: if no
  pending frame of the stream is ahead of the arriving one, then afterwards only the arriving
  frame can be pending there. The memory of the reassembler is bounded by one frame per stream.
\<close>

theorem in_order_single_pending:
  assumes "ra_inv s"
    and "\<forall>q. map_of (ra_frames s) (psd_psd_id h, q) \<noteq> None \<longrightarrow> q = psd_frame_seq h \<or> seq_less q (psd_frame_seq h)"
    and "map_of (ra_frames (fst (ingest h p s))) (psd_psd_id h, q) = Some f"
  shows "q = psd_frame_seq h \<and> fb_segments f \<noteq> []
    \<and> \<not> frame_complete (psd_segment_count h) f"
proof -
  have "q = psd_frame_seq h"
    using assms by (auto simp: ingest_frames split: if_splits)
  moreover have "buffer_ok (psd_psd_id h, q) f"
    using assms(3) ra_inv_ingest[OF assms(1), of h p] by (simp add: ra_inv_def)
  ultimately show ?thesis
    using assms(1,3) by (auto simp: ingest_frames buffer_ok_def Let_def split: if_splits)
qed

theorem in_order_single_pending_witness:
  "fb_segments (stored (demo_hdr 0) [] reassembler_init) \<noteq> []
     \<and> \<not> frame_complete 2 (stored (demo_hdr 0) [] reassembler_init)"
proof -
  have d: "drop_older_frames 0 12 reassembler_init = reassembler_init"
    by (simp add: drop_older_frames_def reassembler_init_def)
  have "\<not> frame_complete 2 (stored (demo_hdr 0) [] reassembler_init)"
    by (auto simp: frame_complete_def stored_def reassembler_init_def intro!: bexI[of _ 1])
  then have "map_of (ra_frames (fst (ingest (demo_hdr 0) [] reassembler_init)))
      (psd_psd_id (demo_hdr 0), 12) = Some (stored (demo_hdr 0) [] reassembler_init)"
    by (simp add: ingest_frames[OF ra_inv_init(1)] d)
  from in_order_single_pending[OF ra_inv_init(1) _ this] show ?thesis
    by (simp add: reassembler_init_def)
qed

text \<open>
  Nothing bounds the pending frames when frame numbers descend. A segment of a frame that is not
  pending, of a frame of at least two segments, older than every pending frame of its stream, adds
  one pending frame; so \<open>n\<close> first segments with descending frame numbers leave \<open>n\<close> frames pending.
\<close>

lemma late_frame_stays_pending:
  assumes "ra_inv s" and "map_of (ra_frames s) (psd_psd_id h, psd_frame_seq h) = None" and "1 < psd_segment_count h"
    and "\<forall>q. map_of (ra_frames s) (psd_psd_id h, q) \<noteq> None \<longrightarrow> \<not> seq_less q (psd_frame_seq h)"
  shows "ra_frames (fst (ingest h p s)) = dset (ra_frames s) (psd_psd_id h, psd_frame_seq h)
    \<lparr>fb_header = h, fb_segments = [(psd_segment_index h, p)]\<rparr>"
proof -
  have "\<not> (fst key = psd_psd_id h \<and> seq_less (snd key) (psd_frame_seq h))" if "key \<in> set (map fst (ra_frames s))" for key
    using that assms(4)[rule_format, of "snd key"] map_of_eq_None_iff[of "ra_frames s" key] by (cases key) auto
  then have "drop_older_frames (psd_psd_id h) (psd_frame_seq h) s = s"
    by (simp add: drop_older_frames_def Let_def filter_empty_conv)
  moreover have "\<not> frame_complete (psd_segment_count h) \<lparr>fb_header = h, fb_segments = [(psd_segment_index h, p)]\<rparr>"
    using keys_length[of "[(psd_segment_index h, p)]" "psd_segment_count h"] assms(3)
    by (auto simp only: frame_complete_def dict_ok_def PsdFrameBuffer.simps) simp
  ultimately show ?thesis
    using ingest_pending[of s h s p] assms(2) by (simp add: stored_fresh)
qed

definition descending_segment :: "nat \<Rightarrow> SdrPsdHeader \<times> bytes" where
  "descending_segment k = (psd_default\<lparr>psd_frame_seq := 4294967295 - int k, psd_segment_count := 2\<rparr>, [])"

lemma descending_frames_stay_pending:
  assumes "n \<le> 2 ^ 31"
  shows "length (ra_frames (fst (ingest_run reassembler_init (map descending_segment [0..<n])))) = n"
proof -
  let ?s = "\<lambda>n. fst (ingest_run reassembler_init (map descending_segment [0..<n]))"
  have "n \<le> 2 ^ 31 \<Longrightarrow> ra_inv (?s n) \<and> length (ra_frames (?s n)) = n
    \<and> fst ` set (ra_frames (?s n)) = (\<lambda>k. (0, 4294967295 - int k)) ` {0..<n}"
  proof (induction n)
    case 0
    show ?case using ra_inv_init(1) by (simp add: reassembler_init_def)
  next
    case (Suc n)
    let ?h = "fst (descending_segment n)"
    have h: "psd_psd_id ?h = 0" "psd_frame_seq ?h = 4294967295 - int n" "psd_segment_count ?h = 2"
      by (simp_all add: descending_segment_def psd_default_def)
    have ih: "ra_inv (?s n)" "length (ra_frames (?s n)) = n"
      "fst ` set (ra_frames (?s n)) = (\<lambda>k. (0, 4294967295 - int k)) ` {0..<n}" using Suc by auto
    have keys: "map_of (ra_frames (?s n)) key = None \<longleftrightarrow> key \<notin> (\<lambda>k. (0, 4294967295 - int k)) ` {0..<n}" for key
      using ih(3) by (simp add: map_of_eq_None_iff)
    have old: "\<not> seq_less (4294967295 - int k) (4294967295 - int n)" if "k < n" for k
      using that Suc.prems mask32_neg[of "int n - int k"] by (simp add: seq_less_def)
    have run: "?s (Suc n) = fst (ingest ?h [] (?s n))"
      by (simp add: ingest_run_append descending_segment_def split_def Let_def)
    have "ra_frames (?s (Suc n)) = dset (ra_frames (?s n)) (0, 4294967295 - int n)
        \<lparr>fb_header = ?h, fb_segments = [(psd_segment_index ?h, [])]\<rparr>"
      unfolding run using late_frame_stays_pending[OF ih(1), of ?h "[]", unfolded h keys] old by fastforce
    then show ?case
      using ih ra_inv_ingest[OF ih(1), of ?h "[]"] keys[of "(0, 4294967295 - int n)"]
      by (auto simp: run[symmetric] length_dset keys_dset[simplified] lessThan_Suc atLeast0LessThan)
  qed
  with assms show ?thesis by blast
qed

text \<open>
  A late duplicate is counted as a lost frame. When a segment of a frame that is not pending
  (for instance one that was already delivered) arrives and a segment of a newer frame of the same
  stream follows, the statistics report one more dropped frame and the remaining segments of the
  already delivered frame as missing.
\<close>

theorem late_duplicate_counts_as_drop:
  assumes inv: "ra_inv s" and none: "\<forall>q. map_of (ra_frames s) (psd_psd_id h, q) = None"
    and two: "1 < psd_segment_count h"
    and id: "psd_psd_id h' = psd_psd_id h" and newer: "seq_less (psd_frame_seq h) (psd_frame_seq h')"
  shows "dropped_frame_count (ra_stats (fst (ingest h' p' (fst (ingest h p s))))) =
           dropped_frame_count (ra_stats s) + 1
    \<and> missing_segment_count (ra_stats (fst (ingest h' p' (fst (ingest h p s))))) =
           missing_segment_count (ra_stats s) + (psd_segment_count h - 1)"
proof -
  let ?key = "(psd_psd_id h, psd_frame_seq h)"
  have st: "stored h p s = \<lparr>fb_header = h, fb_segments = [(psd_segment_index h, p)]\<rparr>"
    using none by (intro stored_fresh) simp
  have "\<not> frame_complete (psd_segment_count h) (stored h p s)"
    using two by (auto simp: frame_complete_def st split: if_splits
      intro!: bexI[of _ "if psd_segment_index h = 0 then 1 else 0"])
  then have s2: "fst (ingest h p s) = s\<lparr>ra_frames := dset (ra_frames s) ?key (stored h p s)\<rparr>"
    using ingest_pending[OF refl, of h p s] drop_older_none[OF none] by simp
  have "ra_inv (fst (ingest h p s))" using inv by (rule ra_inv_ingest)
  note stats = ingest_stats[OF this, of h' p']
  have "drop_older_frames (psd_psd_id h') (psd_frame_seq h') (fst (ingest h p s)) =
      pop_stale (fst (ingest h p s)) ?key"
    unfolding s2 id using none newer by (rule drop_older_single)
  with stats show ?thesis using two by (simp add: s2 pop_stale_def st Let_def)
qed

theorem late_duplicate_counts_as_drop_witness:
  "dropped_frame_count (ra_stats (fst (ingest ((demo_hdr 0)\<lparr>psd_frame_seq := 13\<rparr>) []
      (fst (ingest (demo_hdr 1) [] reassembler_init))))) = 1"
proof -
  have "seq_less 12 13" by (simp add: seq_less_def mask32_def)
  then show ?thesis
    using late_duplicate_counts_as_drop[OF ra_inv_init(1), of "demo_hdr 1" "(demo_hdr 0)\<lparr>psd_frame_seq := 13\<rparr>" "[]" "[]"]
    by (simp add: reassembler_init_def psd_stats_init_def)
qed

text \<open>
  C34: The only exception of \<open>ingest\<close> on headers whose fields fit their 64-bit wire format is the
  division by a zero bin count of a completed frame with a nonempty frequency range.
\<close>

theorem ingest_raises_only_without_bins:
  assumes inv: "ra_inv s"
    and hz: "0 \<le> psd_start_frequency_hz h" "psd_start_frequency_hz h < 2 ^ 64"
      "0 \<le> psd_stop_frequency_hz h" "psd_stop_frequency_hz h < 2 ^ 64"
      "0 \<le> psd_bin_spacing_millihz h" "psd_bin_spacing_millihz h < 2 ^ 64"
      "0 \<le> psd_total_bins h" "psd_total_bins h < 2 ^ 16"
    and e: "snd (ingest h p s) = Inl e"
  shows "exn_cls e = ZeroDivisionError \<and> psd_total_bins h = 0
    \<and> psd_start_frequency_hz h < psd_stop_frequency_hz h"
proof -
  have "frequency_bounds h = Inl e"
    using e ingest_completed[OF inv refl, of h p] ingest_pending[OF refl, of h p s]
    by (cases "frame_complete (psd_segment_count h)
         (stored h p (drop_older_frames (psd_psd_id h) (psd_frame_seq h) s))")
       (auto simp: rbind_eq_Inl)
  moreover have "\<exists>y. float_of_int n = Inr y" if "0 \<le> n" "n < 2 ^ 64" for n
    using float_of_int_u64[of n] that by auto
  note floats = this[of "psd_bin_spacing_millihz h"] this[of "psd_total_bins h"] this[of "psd_start_frequency_hz h"]
  moreover have "\<exists>y. int_truediv (psd_stop_frequency_hz h - psd_start_frequency_hz h) (psd_total_bins h) = Inr (FFin y)"
    if "psd_total_bins h \<noteq> 0"
    using that hz by (intro int_truediv_u64) auto
  ultimately show ?thesis
    using hz by (cases "psd_total_bins h = 0")
      (auto simp: frequency_bounds_def Let_def int_truediv_def rbind_eq_Inl split: if_splits)
qed

theorem ingest_raises_only_without_bins_witness:
  "\<exists>e. snd (ingest ((demo_hdr 0)\<lparr>psd_total_bins := 0, psd_segment_count := 0\<rparr>) [] reassembler_init) = Inl e
     \<and> exn_cls e = ZeroDivisionError"
proof -
  let ?h = "(demo_hdr 0)\<lparr>psd_total_bins := 0, psd_segment_count := 0\<rparr>"
  have "frame_complete (psd_segment_count ?h) (stored ?h [] (drop_older_frames (psd_psd_id ?h) (psd_frame_seq ?h) reassembler_init))"
    by (simp add: frame_complete_def)
  from ingest_completed[OF ra_inv_init(1) refl this]
  have "\<exists>e. snd (ingest ?h [] reassembler_init) = Inl e"
    by (simp add: frequency_bounds_def int_truediv_def)
  then obtain e where e: "snd (ingest ?h [] reassembler_init) = Inl e" ..
  from ingest_raises_only_without_bins[OF ra_inv_init(1) _ _ _ _ _ _ _ _ e] e show ?thesis
    by (simp add: demo_hdr_def psd_default_def)
qed

end
