(* ===== verification/Stream_Stats.thy ===== *)
theory Stream_Stats
  imports Packets
begin

text \<open>
  \<^verbatim>\<open>rpi/backend/sdr_backend/state.py\<close>: the state the web consumers see. \<open>ingest_iq_header\<close>
  keeps per-stream statistics of the IQ packets: how many arrived, how many are missing by their
  32-bit sequence numbers, and how often the 64-bit ADC timestamp did not continue. \<open>streams\<close> is
  a dict from stream ids to statistics objects; the other attributes are filled by the control
  plane with whatever the device answered, so they are values of any type but \<open>psd\<close>, which is
  always a display \<open>{**..., ...}\<close>. \<open>time.monotonic()\<close> is an argument of \<open>snapshot\<close>.
\<close>

section \<open>State\<close>

record StreamStats =
  ss_stream_id :: int
  ss_packets :: int
  ss_lost_packets :: int
  ss_timestamp_gaps :: int
  ss_adc_or_count :: int
  ss_fifo_overflow_count :: int
  ss_last_seq :: "int option"
  ss_last_timestamp :: "int option"
  ss_last_frequency_hz :: int
  ss_last_iq_sample_rate_hz :: int
  ss_last_bandwidth_hz :: int
  ss_last_flags :: int

definition stream_stats_init :: "int \<Rightarrow> StreamStats" where
  "stream_stats_init i = \<lparr>ss_stream_id = i, ss_packets = 0, ss_lost_packets = 0,
     ss_timestamp_gaps = 0, ss_adc_or_count = 0, ss_fifo_overflow_count = 0,
     ss_last_seq = None, ss_last_timestamp = None, ss_last_frequency_hz = 0,
     ss_last_iq_sample_rate_hz = 0, ss_last_bandwidth_hz = 0, ss_last_flags = 0\<rparr>"

record AppState =
  as_started_at :: pyfloat
  as_connected :: bool
  as_device_host :: pyval
  as_hello :: pyval
  as_device_status :: pyval
  as_frontend :: pyval
  as_rx :: pyval
  as_psd :: pydict
  as_streams :: "(int \<times> StreamStats) list"
  as_last_error :: "string option"

section \<open>Operations\<close>

definition ingest_stats_header :: "SdrIqHeader \<Rightarrow> StreamStats \<Rightarrow> StreamStats" where
  "ingest_stats_header h st =
     (let st1 = (case ss_last_seq st of None \<Rightarrow> st
          | Some last_seq \<Rightarrow>
              let expected_seq = mask32 (last_seq + 1)
              in if iq_seq h \<noteq> expected_seq
                 then st\<lparr>ss_lost_packets := ss_lost_packets st + mask32 (iq_seq h - expected_seq)\<rparr>
                 else st);
          st2 = (case ss_last_timestamp st1 of None \<Rightarrow> st1
          | Some last_timestamp \<Rightarrow>
              let expected_ts = mask64 (last_timestamp + iq_next_timestamp_delta h)
              in if iq_adc_timestamp h \<noteq> expected_ts
                 then st1\<lparr>ss_timestamp_gaps := ss_timestamp_gaps st1 + 1\<rparr> else st1);
          st3 = (if and (iq_flags h) SDR_IQ_FLAG_ADC_OR \<noteq> 0
                 then st2\<lparr>ss_adc_or_count := ss_adc_or_count st2 + 1\<rparr> else st2);
          st4 = (if and (iq_flags h) SDR_IQ_FLAG_FIFO_OVERFLOW \<noteq> 0
                 then st3\<lparr>ss_fifo_overflow_count := ss_fifo_overflow_count st3 + 1\<rparr> else st3)
      in st4\<lparr>ss_packets := ss_packets st4 + 1,
             ss_last_seq := Some (iq_seq h),
             ss_last_timestamp := Some (iq_adc_timestamp h),
             ss_last_frequency_hz := iq_frequency_hz h,
             ss_last_iq_sample_rate_hz := iq_iq_sample_rate_hz h,
             ss_last_bandwidth_hz := iq_bandwidth_hz h,
             ss_last_flags := iq_flags h\<rparr>)"

definition stats_of :: "AppState \<Rightarrow> int \<Rightarrow> StreamStats" where
  "stats_of a i = dget (as_streams a) i (stream_stats_init i)"

definition ingest_iq_header :: "SdrIqHeader \<Rightarrow> AppState \<Rightarrow> AppState" where
  "ingest_iq_header h a =
     a\<lparr>as_streams := dset (as_streams a) (iq_stream_id h)
         (ingest_stats_header h (stats_of a (iq_stream_id h)))\<rparr>"

definition opt_int :: "int option \<Rightarrow> pyval" where
  "opt_int x = (case x of None \<Rightarrow> PNone | Some n \<Rightarrow> PInt n)"

definition opt_str :: "string option \<Rightarrow> pyval" where
  "opt_str x = (case x of None \<Rightarrow> PNone | Some s \<Rightarrow> PStr s)"

definition stats_dict :: "StreamStats \<Rightarrow> pydict" where
  "stats_dict st =
     [(''packets'', PInt (ss_packets st)), (''lost_packets'', PInt (ss_lost_packets st)),
      (''timestamp_gaps'', PInt (ss_timestamp_gaps st)), (''adc_or_count'', PInt (ss_adc_or_count st)),
      (''fifo_overflow_count'', PInt (ss_fifo_overflow_count st)), (''last_seq'', opt_int (ss_last_seq st)),
      (''last_timestamp'', opt_int (ss_last_timestamp st)),
      (''last_frequency_hz'', PInt (ss_last_frequency_hz st)),
      (''last_iq_sample_rate_hz'', PInt (ss_last_iq_sample_rate_hz st)),
      (''last_bandwidth_hz'', PInt (ss_last_bandwidth_hz st)), (''last_flags'', PInt (ss_last_flags st))]"

text \<open>\<open>round(t, 3)\<close> of the uptime; \<open>now\<close> is the reading of the monotonic clock.\<close>

fun round3 :: "pyfloat \<Rightarrow> pyfloat" where
  "round3 (FFin x) = double_of_rat (of_int (round_half_even (x * 1000)) / 1000)"
| "round3 x = x"

definition snapshot :: "pyfloat \<Rightarrow> AppState \<Rightarrow> pydict" where
  "snapshot now a =
     [(''connected'', PBool (as_connected a)), (''device_host'', as_device_host a),
      (''uptime_s'', PFloat (round3 (fsub now (as_started_at a)))),
      (''hello'', as_hello a), (''device_status'', as_device_status a),
      (''frontend'', as_frontend a), (''rx'', as_rx a), (''psd'', PDict (as_psd a)),
      (''streams'', PDict (map (\<lambda>(i, st). (show_int i, PDict (stats_dict st)))
          (sort_key fst (as_streams a)))),
      (''last_error'', opt_str (as_last_error a))]"

section \<open>Runs over a stream of headers\<close>

lemma ingest_stats_fields [simp]:
  "ss_stream_id (ingest_stats_header h st) = ss_stream_id st"
  "ss_packets (ingest_stats_header h st) = ss_packets st + 1"
  "ss_last_seq (ingest_stats_header h st) = Some (iq_seq h)"
  "ss_last_timestamp (ingest_stats_header h st) = Some (iq_adc_timestamp h)"
  "ss_last_flags (ingest_stats_header h st) = iq_flags h"
  by (simp_all add: ingest_stats_header_def Let_def split: option.splits)

lemma ingest_stats_lost:
  "ss_lost_packets (ingest_stats_header h st) = ss_lost_packets st +
    (case ss_last_seq st of None \<Rightarrow> 0 | Some l \<Rightarrow> mask32 (iq_seq h - mask32 (l + 1)))"
  by (simp add: ingest_stats_header_def Let_def mask32_def split: option.splits)

lemma ingest_stats_gaps:
  "ss_timestamp_gaps (ingest_stats_header h st) = ss_timestamp_gaps st +
    (case ss_last_timestamp st of None \<Rightarrow> 0
     | Some t \<Rightarrow> if iq_adc_timestamp h = mask64 (t + iq_next_timestamp_delta h) then 0 else 1)"
  by (cases "ss_last_seq st"; cases "ss_last_timestamp st")
     (simp_all add: ingest_stats_header_def Let_def)

lemma ingest_stats_counts:
  "ss_adc_or_count (ingest_stats_header h st) =
     ss_adc_or_count st + (if and (iq_flags h) SDR_IQ_FLAG_ADC_OR \<noteq> 0 then 1 else 0)"
  "ss_fifo_overflow_count (ingest_stats_header h st) =
     ss_fifo_overflow_count st + (if and (iq_flags h) SDR_IQ_FLAG_FIFO_OVERFLOW \<noteq> 0 then 1 else 0)"
  by (simp_all add: ingest_stats_header_def Let_def split: option.splits)

lemma ingest_other_stream:
  "i \<noteq> iq_stream_id h \<Longrightarrow> stats_of (ingest_iq_header h a) i = stats_of a i"
  by (simp add: stats_of_def ingest_iq_header_def dget_def)

lemma ingest_own_stream:
  "stats_of (ingest_iq_header h a) (iq_stream_id h) = ingest_stats_header h (stats_of a (iq_stream_id h))"
  by (simp add: stats_of_def ingest_iq_header_def dget_def)

text \<open>What a packet of a stream does to the statistics depends on the packets of that stream only.\<close>

lemma run_projection:
  "stats_of (foldl (\<lambda>a h. ingest_iq_header h a) a hs) i =
    foldl (\<lambda>st h. ingest_stats_header h st) (stats_of a i) (filter (\<lambda>h. iq_stream_id h = i) hs)"
proof (induction hs arbitrary: a)
  case (Cons h hs)
  then show ?case
    by (cases "iq_stream_id h = i") (auto simp: ingest_own_stream ingest_other_stream)
qed simp

definition stats_inv :: "StreamStats \<Rightarrow> bool" where
  "stats_inv st \<longleftrightarrow> 0 \<le> ss_packets st \<and> 0 \<le> ss_lost_packets st \<and> 0 \<le> ss_timestamp_gaps st
     \<and> ss_timestamp_gaps st \<le> ss_packets st \<and> ss_adc_or_count st \<le> ss_packets st
     \<and> ss_fifo_overflow_count st \<le> ss_packets st
     \<and> (ss_last_seq st = None \<longleftrightarrow> ss_packets st = 0) \<and> (ss_last_timestamp st = None \<longleftrightarrow> ss_packets st = 0)"

lemma stats_inv_init: "stats_inv (stream_stats_init i)"
  by (simp add: stats_inv_def stream_stats_init_def)

lemma stats_inv_ingest: "stats_inv st \<Longrightarrow> stats_inv (ingest_stats_header h st)"
  by (auto simp: stats_inv_def ingest_stats_lost ingest_stats_gaps ingest_stats_counts split: option.splits)

interpretation statm: event_machine "\<lambda>st h. ingest_stats_header h st" stats_inv
  by unfold_locales (rule stats_inv_ingest)

text \<open>
  A stream numbers its packets \<open>0, 1, 2, \<dots>\<close>; \<open>sent_header n\<close> describes packet \<open>n\<close>. The receiver
  gets the packets with the increasing numbers \<open>ns\<close>.
\<close>

definition numbered :: "(nat \<Rightarrow> SdrIqHeader) \<Rightarrow> bool" where
  "numbered hdr \<longleftrightarrow> (\<forall>n. iq_seq (hdr n) = mask32 (int n))"

lemma lost_run:
  assumes "numbered hdr" and "sorted_wrt (<) (n # ns)" and "last (n # ns) - n < 2 ^ 32"
    and "ss_last_seq st = Some (mask32 (int n))"
  shows "ss_lost_packets (foldl (\<lambda>st h. ingest_stats_header h st) st (map hdr ns)) =
    ss_lost_packets st + int (last (n # ns) - n) - int (length ns)"
  using assms(2-)
proof (induction ns arbitrary: n st)
  case (Cons m ns)
  have m: "n < m" and le: "m \<le> last (m # ns)"
    using Cons.prems(1) by (auto simp: less_imp_le)
  have "mask32 (iq_seq (hdr m) - mask32 (mask32 (int n) + 1)) = mask32 (int m - (int n + 1))"
    using assms(1) by (simp add: numbered_def mask32_absorb)
  also have "\<dots> = int m - int n - 1"
    using m le Cons.prems(2) by (subst mask32_id) auto
  finally have "ss_lost_packets (ingest_stats_header (hdr m) st) = ss_lost_packets st + (int m - int n - 1)"
    using Cons.prems(3) by (simp add: ingest_stats_lost)
  moreover have "last (m # ns) - m < 2 ^ 32" using Cons.prems(2) m by auto
  moreover have "ss_last_seq (ingest_stats_header (hdr m) st) = Some (mask32 (int m))"
    using assms(1) by (simp add: numbered_def)
  ultimately show ?case
    using Cons.IH[of m "ingest_stats_header (hdr m) st"] Cons.prems(1) m le by auto
qed simp

section \<open>Properties\<close>

text \<open>
  C19: The loss counter is exact. If a stream's packets are numbered consecutively modulo
  \<open>2^32\<close> and the receiver gets a first packet \<open>n\<close> and then the packets with the increasing numbers
  \<open>ns\<close>, all within one turn of the counter, then the number of lost packets it reports is the
  number of packets between the first and the last that did not arrive, also when the sequence
  number wraps around.
\<close>

theorem lost_packets_exact:
  assumes "numbered hdr" and "sorted_wrt (<) (n # ns)" and "last (n # ns) - n < 2 ^ 32"
  shows "ss_lost_packets (foldl (\<lambda>st h. ingest_stats_header h st) (stream_stats_init i) (map hdr (n # ns)))
    = int (card {k \<in> {n..last (n # ns)}. k \<notin> set (n # ns)})"
proof -
  let ?st = "ingest_stats_header (hdr n) (stream_stats_init i)"
  have "ss_last_seq ?st = Some (mask32 (int n))" using assms(1) by (simp add: numbered_def)
  then have run: "ss_lost_packets (foldl (\<lambda>st h. ingest_stats_header h st) ?st (map hdr ns)) =
      int (last (n # ns) - n) - int (length ns)"
    using lost_run[OF assms] by (simp add: ingest_stats_lost stream_stats_init_def)
  with increasing_card[OF assms(2)] show ?thesis by simp
qed

definition demo_iq :: "nat \<Rightarrow> SdrIqHeader" where
  "demo_iq n = iq_default\<lparr>iq_seq := mask32 (int n), iq_adc_timestamp := mask64 (int n * 64000),
     iq_sample_count := 256, iq_decimation := 250, iq_payload_bytes := 1024\<rparr>"

lemma demo_iq_numbered: "numbered demo_iq"
  by (simp add: numbered_def demo_iq_def)

theorem lost_packets_exact_witness:
  "ss_lost_packets (foldl (\<lambda>st h. ingest_stats_header h st) (stream_stats_init 0)
      (map demo_iq [4294967294, 4294967296, 4294967299])) = 3"
proof -
  have "{k \<in> {4294967294..4294967299 :: nat}. k \<notin> {4294967294, 4294967296, 4294967299}} =
      {4294967295, 4294967297, 4294967298}" by auto
  then show ?thesis
    using lost_packets_exact[OF demo_iq_numbered, of 4294967294 "[4294967296, 4294967299]" 0] by simp
qed

definition steady :: "int \<Rightarrow> int \<Rightarrow> (nat \<Rightarrow> SdrIqHeader) \<Rightarrow> bool" where
  "steady t0 d hdr \<longleftrightarrow> (\<forall>k. iq_seq (hdr k) = mask32 (int k)
     \<and> iq_adc_timestamp (hdr k) = mask64 (t0 + int k * d) \<and> iq_next_timestamp_delta (hdr k) = d)"

lemma steady_step:
  assumes "steady t0 d hdr" and "ss_last_seq st = Some (mask32 (int n))"
    and "ss_last_timestamp st = Some (mask64 (t0 + int n * d))"
  shows "ss_lost_packets (ingest_stats_header (hdr (Suc n)) st) = ss_lost_packets st
    \<and> ss_timestamp_gaps (ingest_stats_header (hdr (Suc n)) st) = ss_timestamp_gaps st"
proof -
  have s: "iq_seq (hdr (Suc n)) = mask32 (int n + 1)"
    "iq_adc_timestamp (hdr (Suc n)) = mask64 (t0 + int n * d + d)" "iq_next_timestamp_delta (hdr (Suc n)) = d"
    using assms(1)[unfolded steady_def] by (auto simp: algebra_simps)
  have "mask32 0 = 0" by (simp add: mask32_def)
  then show ?thesis
    by (simp add: ingest_stats_lost ingest_stats_gaps assms(2,3) s mask32_absorb mask64_absorb)
qed

lemma steady_run:
  assumes "steady t0 d hdr" and "ss_last_seq st = Some (mask32 (int n))"
    and "ss_last_timestamp st = Some (mask64 (t0 + int n * d))"
  shows "ss_packets (foldl (\<lambda>st h. ingest_stats_header h st) st (map hdr [Suc n..<Suc n + m])) = ss_packets st + int m
    \<and> ss_lost_packets (foldl (\<lambda>st h. ingest_stats_header h st) st (map hdr [Suc n..<Suc n + m])) = ss_lost_packets st
    \<and> ss_timestamp_gaps (foldl (\<lambda>st h. ingest_stats_header h st) st (map hdr [Suc n..<Suc n + m])) = ss_timestamp_gaps st"
  using assms(2,3)
proof (induction m arbitrary: n st)
  case (Suc m)
  let ?st = "ingest_stats_header (hdr (Suc n)) st"
  have "ss_last_seq ?st = Some (mask32 (int (Suc n)))"
    "ss_last_timestamp ?st = Some (mask64 (t0 + int (Suc n) * d))"
    using assms(1) by (simp_all add: steady_def)
  note IH = Suc.IH[OF this]
  have "[Suc n..<Suc n + Suc m] = Suc n # [Suc (Suc n)..<Suc (Suc n) + m]" by (simp add: upt_rec)
  then show ?case using IH steady_step[OF assms(1) Suc.prems] by simp
qed simp

text \<open>
  A stream in steady state is reported clean. If every packet \<open>k\<close> carries the sequence number
  \<open>k\<close> modulo \<open>2^32\<close> and the timestamp \<open>t0 + k * d\<close> modulo \<open>2^64\<close>, where \<open>d\<close> is its own decimation
  times its sample count, and all packets from \<open>n\<close> on arrive in order, the statistics count every
  packet and report neither a loss nor a timestamp gap.
\<close>

theorem steady_stream_is_clean:
  assumes "steady t0 d hdr"
  shows "let st = foldl (\<lambda>st h. ingest_stats_header h st) (stream_stats_init i) (map hdr [n..<n + m])
    in ss_packets st = int m \<and> ss_lost_packets st = 0 \<and> ss_timestamp_gaps st = 0"
proof (cases m)
  case (Suc m')
  let ?st = "ingest_stats_header (hdr n) (stream_stats_init i)"
  have "ss_last_seq ?st = Some (mask32 (int n))" "ss_last_timestamp ?st = Some (mask64 (t0 + int n * d))"
    using assms by (simp_all add: steady_def)
  note run = steady_run[OF assms this, of m']
  have "[n..<n + m] = n # [Suc n..<Suc n + m']" by (simp add: Suc upt_rec)
  then show ?thesis
    using run by (simp add: Suc ingest_stats_lost ingest_stats_gaps stream_stats_init_def)
qed (simp add: stream_stats_init_def)

theorem steady_stream_is_clean_witness:
  "ss_lost_packets (foldl (\<lambda>st h. ingest_stats_header h st) (stream_stats_init 0) (map demo_iq [5..<5 + 3])) = 0"
proof -
  have "steady 0 64000 demo_iq"
    by (simp add: steady_def demo_iq_def iq_next_timestamp_delta_def)
  from steady_stream_is_clean[OF this, of 0 5 3] show ?thesis by (simp add: Let_def)
qed

text \<open>
  C38: Restarting a stream looks like the loss of almost \<open>2^32\<close> packets. The device restarts a
  reconfigured stream at sequence number 0 and marks that packet with the \<open>DISCONTINUITY\<close> and
  \<open>CONFIG_CHANGED\<close> flags, but \<open>ingest_iq_header\<close> does not look at the flags: after a packet with number
  \<open>l\<close> the first packet of the new run, whatever its flags, adds \<open>2^32 - l - 1\<close> to the loss counter.
\<close>

theorem restart_counts_as_loss:
  assumes "ss_last_seq st = Some l" and "0 \<le> l" and "l < 2 ^ 32 - 1" and "iq_seq h = 0"
  shows "ss_lost_packets (ingest_stats_header (h\<lparr>iq_flags := flags\<rparr>) st) = ss_lost_packets st + (2 ^ 32 - l - 1)"
proof -
  have "mask32 (- (l + 1)) = 2 ^ 32 - (l + 1)"
    using mask32_neg[of "l + 1"] assms by simp
  then show ?thesis using assms by (simp add: ingest_stats_lost mask32_id)
qed

theorem restart_counts_as_loss_witness:
  "ss_lost_packets (ingest_stats_header ((demo_iq 0)\<lparr>iq_flags := SDR_IQ_FLAG_DISCONTINUITY + SDR_IQ_FLAG_CONFIG_CHANGED\<rparr>)
      (ingest_stats_header (demo_iq 99) (stream_stats_init 0))) = 4294967196"
  using restart_counts_as_loss[of "ingest_stats_header (demo_iq 99) (stream_stats_init 0)" 99 "demo_iq 0"]
  by (simp add: demo_iq_def mask32_def ingest_stats_lost stream_stats_init_def)

text \<open>
  The timestamp check uses the length of the arriving packet where the length of the previous
  one is meant. On a gapless stream, where a packet starts at the previous timestamp plus the
  previous packet's length \<open>d\<close>, a gap is counted exactly when the arriving packet's own length
  differs from \<open>d\<close> modulo \<open>2^64\<close>.
\<close>

theorem timestamp_check_uses_own_length:
  assumes "ss_last_timestamp st = Some t" and "iq_adc_timestamp h = mask64 (t + d)"
  shows "ss_timestamp_gaps (ingest_stats_header h st) = ss_timestamp_gaps st +
    (if mask64 d = mask64 (iq_next_timestamp_delta h) then 0 else 1)"
  by (simp add: ingest_stats_gaps assms mask64_add_cancel)

theorem timestamp_check_uses_own_length_witness:
  "ss_timestamp_gaps (ingest_stats_header ((demo_iq 1)\<lparr>iq_sample_count := 128\<rparr>)
      (ingest_stats_header (demo_iq 0) (stream_stats_init 0))) = 1"
  using timestamp_check_uses_own_length[of "ingest_stats_header (demo_iq 0) (stream_stats_init 0)" 0
      "(demo_iq 1)\<lparr>iq_sample_count := 128\<rparr>" 64000]
  by (simp add: demo_iq_def mask64_def ingest_stats_gaps stream_stats_init_def iq_next_timestamp_delta_def)

end
