(* ===== verification/Server_Streams.thy ===== *)
theory Server_Streams
  imports Server_Control Receiver Psd Stream_Stats
begin

text \<open>
  The data plane of the simulated device against the backend's receiver: which datagrams the
  transmit loops emit, that their headers always pack and unpack, and what the statistics and the
  reassembler of the backend make of them.
\<close>

section \<open>One IQ packet\<close>

lemma dset_dset [simp]: "dset (dset d k a) k b = dset d k b"
  by (induction d k a rule: dset.induct) auto

definition count_ok :: "FakeAc920Config \<Rightarrow> bool" where
  "count_ok config \<longleftrightarrow> 0 \<le> cfg_sample_count config \<and> cfg_sample_count config < 65536"

text \<open>A stream whose next packet has every field inside its width.\<close>

definition sendable :: "StreamState \<Rightarrow> bool" where
  "sendable s \<longleftrightarrow> st_iq_sample_rate_hz s \<in> set RATES \<and> osc_ok (st_oscillator s)
     \<and> 0 \<le> st_stream_id s \<and> st_stream_id s < 65536 \<and> 0 \<le> st_seq s \<and> st_seq s < 2 ^ 32
     \<and> 0 \<le> st_adc_timestamp s \<and> st_adc_timestamp s < 2 ^ 64
     \<and> 0 \<le> st_frequency_hz s \<and> st_frequency_hz s < 2 ^ 64
     \<and> 0 \<le> st_bandwidth_hz s \<and> st_bandwidth_hz s < 2 ^ 32"

text \<open>The header of the next packet; it depends on the payload through its length only.\<close>

definition packet_header :: "FakeAc920Config \<Rightarrow> StreamState \<Rightarrow> SdrIqHeader" where
  "packet_header config s = iq_header config s (iq_packet_flags config s) (250000000 div st_iq_sample_rate_hz s)
     (replicate (4 * nat (cfg_sample_count config)) 0)"

definition next_stream :: "FakeAc920Config \<Rightarrow> StreamState \<Rightarrow> ComplexOscillator \<Rightarrow> StreamState" where
  "next_stream config s osc = advance_stream (packet_header config s) (mark_packet config (s\<lparr>st_oscillator := osc\<rparr>))"

lemma iq_packet_flags_range: "0 \<le> iq_packet_flags config s" "iq_packet_flags config s < 16"
  by (cases "st_first_packet s"; cases "cfg_inject_adc_or config"; cases "cfg_inject_fifo_overflow config";
      simp add: iq_packet_flags_def flag_consts)+

lemma packet_header_packs:
  assumes "sendable s" "count_ok config"
  shows "\<exists>bs. iq_pack (packet_header config s) = Inr bs"
proof -
  obtain d where d: "decimation s = Inr d" "250 \<le> d" "d \<le> 2000"
    using decimation_ok[of s] assms(1) by (auto simp: sendable_def)
  then have d': "250000000 div st_iq_sample_rate_hz s = d" by (simp add: decimation_def split: if_splits)
  have "st_iq_sample_rate_hz s < 4294967296" "0 \<le> st_iq_sample_rate_hz s"
    using assms(1) rates_bounds[of "st_iq_sample_rate_hz s"] by (auto simp: sendable_def)
  then have "in_range IQ_STRUCT (iq_fields (packet_header config s))"
    using assms d iq_packet_flags_range[of config s]
    by (simp add: in_range_def IQ_STRUCT_eq iq_fields_def packet_header_def d' iq_header_def iq_default_def packet_consts
        IQ_HEADER_SIZE_eq sendable_def count_ok_def)
  moreover have "iq_valid (packet_header config s)"
    using assms(2) by (simp add: iq_valid_iff packet_header_def iq_header_def iq_default_def packet_consts
        IQ_HEADER_SIZE_eq count_ok_def)
  ultimately show ?thesis using struct_pack_in_range by (metis iq_pack_eq)
qed

definition drops_next :: "FakeServer \<Rightarrow> bool" where
  "drops_next sv \<longleftrightarrow> 0 < cfg_drop_every (sv_config sv)
     \<and> (sv_iq_packets_sent sv + 1) mod cfg_drop_every (sv_config sv) = 0"

lemma send_iq_packet_ok:
  assumes lib: "libm_ok m" and draws: "draws_ok draws" and s: "sendable s" and cnt: "count_ok (sv_config sv)"
    and dest: "sv_udp_dest sv = Some dest" and net: "net dest = None"
  obtains osc payload bs where
    "send_iq_packet m draws net i s sv =
      (sv\<lparr>sv_streams := dset (sv_streams sv) i (next_stream (sv_config sv) s osc),
          sv_iq_packets_sent := sv_iq_packets_sent sv + 1,
          sv_wire := sv_wire sv @ (if drops_next sv then [] else [(dest, bs @ payload)])\<rparr>, Inr ())"
    "osc_ok osc" "osc_sample_rate_hz osc = osc_sample_rate_hz (st_oscillator s)"
    "iq_pack (packet_header (sv_config sv) s) = Inr bs"
    "iq_payload_bytes (packet_header (sv_config sv) s) = int (length payload)"
proof -
  let ?cfg = "sv_config sv"
  obtain osc zs where iq: "make_iq m draws (cfg_scenario ?cfg) (cfg_sample_count ?cfg) (st_oscillator s) = (osc, Inr zs)"
      "osc_ok osc" "list_all small zs" "osc_sample_rate_hz osc = osc_sample_rate_hz (st_oscillator s)"
    using make_iq_total[OF lib _ draws, of "st_oscillator s" "cfg_scenario ?cfg" "cfg_sample_count ?cfg"] s
    by (auto simp: sendable_def)
  obtain payload where pl: "complex_to_sc16 zs = Inr payload" using complex_to_sc16_total[OF iq(3)] by blast
  have len: "length payload = 4 * nat (cfg_sample_count ?cfg)"
    using complex_to_sc16_length[OF pl] make_iq_length[OF iq(1)] by simp
  obtain d where d: "decimation s = Inr d" "d = 250000000 div st_iq_sample_rate_hz s"
    using decimation_ok[of s] s by (auto simp: sendable_def decimation_def split: if_splits)
  obtain bs where bs: "iq_pack (packet_header ?cfg s) = Inr bs" using packet_header_packs[OF s cnt] by blast
  let ?s2 = "mark_packet ?cfg (s\<lparr>st_oscillator := osc\<rparr>)"
  have "decimation ?s2 = decimation s" by (simp add: mark_packet_def decimation_def Let_def)
  then have d2: "decimation ?s2 = Inr d" using d(1) by simp
  have h: "iq_header ?cfg ?s2 (iq_packet_flags ?cfg (s\<lparr>st_oscillator := osc\<rparr>)) d payload = packet_header ?cfg s"
    by (simp add: packet_header_def iq_header_def mark_packet_def Let_def iq_packet_flags_def len d(2))
  have "send_iq_packet m draws net i s sv =
      (sv\<lparr>sv_streams := dset (sv_streams sv) i (next_stream ?cfg s osc),
          sv_iq_packets_sent := sv_iq_packets_sent sv + 1,
          sv_wire := sv_wire sv @ (if drops_next sv then [] else [(dest, bs @ payload)])\<rparr>, Inr ())"
    using dest net bs
    by (simp add: send_iq_packet_def Let_def iq(1) pl d2 h put_stream_def sendto_def should_drop_def drops_next_def
        next_stream_def)
  moreover have "iq_payload_bytes (packet_header ?cfg s) = int (length payload)"
    by (simp add: packet_header_def iq_header_def len)
  ultimately show ?thesis using that iq bs by blast
qed

section \<open>A run of the IQ loop\<close>

definition packet_ticks :: "FakeAc920Config \<Rightarrow> StreamState \<Rightarrow> int" where
  "packet_ticks config s = 250000000 div st_iq_sample_rate_hz s * cfg_sample_count config"

text \<open>The stream after \<open>k\<close> packets.\<close>

definition stream_at :: "FakeAc920Config \<Rightarrow> StreamState \<Rightarrow> nat \<Rightarrow> ComplexOscillator \<Rightarrow> StreamState" where
  "stream_at config s k osc = s\<lparr>
     st_seq := mask32 (st_seq s + int k), st_adc_timestamp := mask64 (st_adc_timestamp s + int k * packet_ticks config s),
     st_first_packet := (k = 0 \<and> st_first_packet s),
     st_fifo_overflow_count := st_fifo_overflow_count s + (if cfg_inject_fifo_overflow config then int k else 0),
     st_oscillator := osc\<rparr>"

definition nth_header :: "FakeAc920Config \<Rightarrow> StreamState \<Rightarrow> nat \<Rightarrow> SdrIqHeader" where
  "nth_header config s k = packet_header config (stream_at config s k (st_oscillator s))"

lemma stream_at_0: "sendable s \<Longrightarrow> stream_at config s 0 (st_oscillator s) = s"
  by (simp add: stream_at_def sendable_def mask32_id mask64_id)

lemma packet_header_at: "packet_header config (stream_at config s k osc) = nth_header config s k"
  by (simp add: nth_header_def packet_header_def iq_header_def iq_packet_flags_def stream_at_def)

lemma next_stream_at: "next_stream config (stream_at config s k osc) osc' = stream_at config s (Suc k) osc'"
proof -
  have "iq_next_timestamp_delta (packet_header config (stream_at config s k osc)) = packet_ticks config s"
    by (simp add: packet_header_def iq_header_def iq_next_timestamp_delta_def stream_at_def packet_ticks_def)
  then show ?thesis
    by (simp add: next_stream_def advance_stream_def mark_packet_def Let_def stream_at_def mask32_absorb mask64_absorb
        algebra_simps)
qed

lemma sendable_at: "sendable s \<Longrightarrow> osc_ok osc \<Longrightarrow> sendable (stream_at config s k osc)"
  by (simp add: sendable_def stream_at_def)

lemma active_dset:
  "dict_ok d \<Longrightarrow> filter (\<lambda>(i, s). st_enabled s) d = [(i, s)] \<Longrightarrow> st_enabled s' \<Longrightarrow>
   filter (\<lambda>(i, s). st_enabled s) (dset d i s') = [(i, s')]"
proof (induction d)
  case (Cons a d)
  obtain j u where a: "a = (j, u)" by fastforce
  show ?case
  proof (cases "j = i")
    case True
    have "i \<notin> fst ` set d" using Cons.prems(1) True a by (simp add: dict_ok_def)
    then have "(i, s) \<notin> set d" by force
    moreover have "(i, s) \<in> set (filter (\<lambda>(i, s). st_enabled s) (a # d))" unfolding Cons.prems(2) by simp
    ultimately have "u = s \<and> st_enabled s" using a by (auto split: if_splits)
    with True a Cons.prems show ?thesis by (auto split: if_splits)
  next
    case False
    with a Cons.prems have "\<not> st_enabled u" by auto
    with False a Cons show ?thesis by (simp add: dict_ok_def)
  qed
qed simp

text \<open>The device streams exactly one stream to a reachable destination.\<close>

definition streaming :: "(dest \<Rightarrow> exn option) \<Rightarrow> int \<Rightarrow> StreamState \<Rightarrow> dest \<Rightarrow> FakeServer \<Rightarrow> bool" where
  "streaming net i s dest sv \<longleftrightarrow> dict_ok (sv_streams sv) \<and> active_streams sv = [(i, s)] \<and> sv_tx_task sv = Running
     \<and> sv_udp_dest sv = Some dest \<and> net dest = None \<and> sendable s \<and> count_ok (sv_config sv)"

lemma iq_tick_ok:
  assumes lib: "libm_ok m" and draws: "draws_ok (draws i)" and st: "streaming net i s dest sv"
  obtains osc payload bs where
    "iq_tick m draws net sv =
      sv\<lparr>sv_streams := dset (sv_streams sv) i (next_stream (sv_config sv) s osc),
          sv_iq_packets_sent := sv_iq_packets_sent sv + 1,
          sv_wire := sv_wire sv @ (if drops_next sv then [] else [(dest, bs @ payload)])\<rparr>"
    "osc_ok osc" "iq_pack (packet_header (sv_config sv) s) = Inr bs"
    "iq_payload_bytes (packet_header (sv_config sv) s) = int (length payload)"
proof -
  have s: "sendable s" "count_ok (sv_config sv)" "sv_udp_dest sv = Some dest" "net dest = None"
    using st by (auto simp: streaming_def)
  have "st_iq_sample_rate_hz s \<in> set RATES" using s(1) by (simp add: sendable_def)
  then have rate: "0 < st_iq_sample_rate_hz s" using rates_bounds[of "st_iq_sample_rate_hz s"] by simp
  have "\<bar>cfg_sample_count (sv_config sv)\<bar> < 18446744073709551616" using s(2) by (auto simp: count_ok_def)
  from int_truediv_u64[OF this rate] obtain y
    where y: "int_truediv (cfg_sample_count (sv_config sv)) (st_iq_sample_rate_hz s) = Inr (FFin y)" by blast
  show ?thesis
  proof (rule send_iq_packet_ok[where m = m and draws = "draws i" and net = net and i = i, OF lib draws s(1,2,3,4)])
    fix osc payload bs
    assume *: "send_iq_packet m (draws i) net i s sv =
      (sv\<lparr>sv_streams := dset (sv_streams sv) i (next_stream (sv_config sv) s osc),
          sv_iq_packets_sent := sv_iq_packets_sent sv + 1,
          sv_wire := sv_wire sv @ (if drops_next sv then [] else [(dest, bs @ payload)])\<rparr>, Inr ())"
      "osc_ok osc" "iq_pack (packet_header (sv_config sv) s) = Inr bs"
      "iq_payload_bytes (packet_header (sv_config sv) s) = int (length payload)"
    then show thesis using st y by (intro that[where osc = osc and bs = bs and payload = payload]; simp add: iq_tick_def streaming_def)
  qed
qed

definition kept :: "FakeServer \<Rightarrow> nat \<Rightarrow> bool" where
  "kept sv k \<longleftrightarrow> \<not> (0 < cfg_drop_every (sv_config sv)
     \<and> (sv_iq_packets_sent sv + int k + 1) mod cfg_drop_every (sv_config sv) = 0)"

definition datagram_of :: "dest \<Rightarrow> SdrIqHeader \<Rightarrow> dest \<times> bytes \<Rightarrow> bool" where
  "datagram_of dest h w \<longleftrightarrow> (\<exists>bs p. w = (dest, bs @ p) \<and> iq_pack h = Inr bs \<and> iq_payload_bytes h = int (length p))"

definition after_packets :: "int \<Rightarrow> StreamState \<Rightarrow> dest \<Rightarrow> nat \<Rightarrow> FakeServer \<Rightarrow> FakeServer \<Rightarrow> bool" where
  "after_packets i s dest n sv sv' \<longleftrightarrow> (\<exists>osc ws.
     sv' = sv\<lparr>sv_streams := dset (sv_streams sv) i (stream_at (sv_config sv) s n osc),
              sv_iq_packets_sent := sv_iq_packets_sent sv + int n, sv_wire := sv_wire sv @ ws\<rparr>
     \<and> osc_ok osc \<and> list_all2 (datagram_of dest) (map (nth_header (sv_config sv) s) (filter (kept sv) [0..<n])) ws)"

lemma dset_self: "map_of d k = Some v \<Longrightarrow> dset d k v = d"
  by (induction d) auto

lemma streaming_map_of: "streaming net i s dest sv \<Longrightarrow> map_of (sv_streams sv) i = Some s"
proof -
  assume st: "streaming net i s dest sv"
  then have "(i, s) \<in> set (active_streams sv)" by (simp add: streaming_def)
  then have "(i, s) \<in> set (sv_streams sv)" by (auto simp: active_streams_def)
  with st show ?thesis by (simp add: streaming_def dict_ok_def)
qed

lemma streaming_enabled: "streaming net i s dest sv \<Longrightarrow> st_enabled s"
  by (auto simp: streaming_def active_streams_def filter_eq_Cons_iff)

lemma streaming_after:
  assumes st: "streaming net i s dest sv" and af: "after_packets i s dest n sv sv'"
  shows "\<exists>osc. osc_ok osc \<and> streaming net i (stream_at (sv_config sv) s n osc) dest sv' \<and> drops_next sv' = (\<not> kept sv n)"
proof -
  obtain osc ws where sv': "sv' = sv\<lparr>sv_streams := dset (sv_streams sv) i (stream_at (sv_config sv) s n osc),
      sv_iq_packets_sent := sv_iq_packets_sent sv + int n, sv_wire := sv_wire sv @ ws\<rparr>" and o: "osc_ok osc"
    using af by (auto simp: after_packets_def)
  have "st_enabled (stream_at (sv_config sv) s n osc)"
    using streaming_enabled[OF st] by (simp add: stream_at_def)
  then have "active_streams sv' = [(i, stream_at (sv_config sv) s n osc)]"
    using st active_dset[of "sv_streams sv" i s] by (simp add: sv' active_streams_def streaming_def)
  then have "streaming net i (stream_at (sv_config sv) s n osc) dest sv'"
    using st o by (simp add: streaming_def sv' sendable_at)
  moreover have "drops_next sv' = (\<not> kept sv n)" by (simp add: drops_next_def kept_def sv' add.assoc)
  ultimately show ?thesis using o by blast
qed

lemma iq_run:
  assumes lib: "libm_ok m" and st: "streaming net i s dest sv"
  shows "list_all (\<lambda>draws. draws_ok (draws i)) ds \<Longrightarrow>
    after_packets i s dest (length ds) sv (foldl (\<lambda>sv draws. iq_tick m draws net sv) sv ds)"
proof (induction ds rule: rev_induct)
  case Nil
  have "stream_at (sv_config sv) s 0 (st_oscillator s) = s" using st by (simp add: streaming_def stream_at_0)
  moreover have "osc_ok (st_oscillator s)" using st by (simp add: streaming_def sendable_def)
  ultimately show ?case
    using streaming_map_of[OF st]
    by (auto simp: after_packets_def dset_self intro!: exI[of _ "st_oscillator s"] exI[of _ "[]"])
next
  case (snoc draws ds)
  let ?n = "length ds" and ?cfg = "sv_config sv"
  let ?sv = "foldl (\<lambda>sv draws. iq_tick m draws net sv) sv ds"
  have af: "after_packets i s dest ?n sv ?sv" using snoc by simp
  then obtain o1 ws where sv1: "?sv = sv\<lparr>sv_streams := dset (sv_streams sv) i (stream_at ?cfg s ?n o1),
      sv_iq_packets_sent := sv_iq_packets_sent sv + int ?n, sv_wire := sv_wire sv @ ws\<rparr>"
    and ws: "list_all2 (datagram_of dest) (map (nth_header ?cfg s) (filter (kept sv) [0..<?n])) ws"
    by (auto simp: after_packets_def)
  have cfg: "sv_config ?sv = ?cfg" by (simp add: sv1)
  obtain osc where osc: "osc_ok osc" "streaming net i (stream_at ?cfg s ?n osc) dest ?sv" "drops_next ?sv = (\<not> kept sv ?n)"
    using streaming_after[OF st af] by blast
  have "draws_ok (draws i)" using snoc.prems by simp
  then show ?case
  proof (rule iq_tick_ok[OF lib _ osc(2)])
    fix o2 payload bs
    assume *: "iq_tick m draws net ?sv =
      ?sv\<lparr>sv_streams := dset (sv_streams ?sv) i (next_stream (sv_config ?sv) (stream_at ?cfg s ?n osc) o2),
          sv_iq_packets_sent := sv_iq_packets_sent ?sv + 1,
          sv_wire := sv_wire ?sv @ (if drops_next ?sv then [] else [(dest, bs @ payload)])\<rparr>"
      "osc_ok o2" "iq_pack (packet_header (sv_config ?sv) (stream_at ?cfg s ?n osc)) = Inr bs"
      "iq_payload_bytes (packet_header (sv_config ?sv) (stream_at ?cfg s ?n osc)) = int (length payload)"
    let ?w = "if kept sv ?n then [(dest, bs @ payload)] else []"
    have "datagram_of dest (nth_header ?cfg s ?n) (dest, bs @ payload)"
      using *(3,4) by (auto simp: datagram_of_def cfg packet_header_at)
    then have "list_all2 (datagram_of dest) (map (nth_header ?cfg s) (filter (kept sv) [0..<Suc ?n])) (ws @ ?w)"
      using ws by (auto intro: list_all2_appendI)
    moreover have "iq_tick m draws net ?sv = sv\<lparr>sv_streams := dset (sv_streams sv) i (stream_at ?cfg s (Suc ?n) o2),
        sv_iq_packets_sent := sv_iq_packets_sent sv + int (Suc ?n), sv_wire := sv_wire sv @ ws @ ?w\<rparr>"
      unfolding *(1) cfg next_stream_at osc(3) by (simp add: sv1)
    ultimately show "after_packets i s dest (length (ds @ [draws])) sv
        (foldl (\<lambda>sv draws. iq_tick m draws net sv) sv (ds @ [draws]))"
      using *(2) unfolding after_packets_def by (intro exI[of _ o2] exI[of _ "ws @ ?w"]) simp
  qed
qed

section \<open>End to end: IQ\<close>

lemma receive_packets:
  "list_all2 (datagram_of dest) hs ws \<Longrightarrow>
   \<exists>ps. length ps = length hs \<and> receive_loop handle_iq_datagram (map snd ws) = map Inl (zip hs ps)"
proof (induction rule: list_all2_induct)
  case (Cons h hs w ws)
  then obtain bs p where w: "w = (dest, bs @ p)" "iq_pack h = Inr bs" "iq_payload_bytes h = int (length p)"
    by (auto simp: datagram_of_def)
  obtain ps where "length ps = length hs" "receive_loop handle_iq_datagram (map snd ws) = map Inl (zip hs ps)"
    using Cons by blast
  then show ?case
    using receive_iq_sent[OF w(2,3), of "[]"] w(1) by (intro exI[of _ "p # ps"]) (simp add: loop_step_def)
qed simp

text \<open>The headers handed to the backend's callback by a receiver thread.\<close>

definition delivered_headers :: "((SdrIqHeader \<times> bytes) + exn) list \<Rightarrow> SdrIqHeader list" where
  "delivered_headers cs = concat (map (\<lambda>c. case c of Inl (h, p) \<Rightarrow> [h] | Inr e \<Rightarrow> []) cs)"

lemma delivered_zip: "length ps = length hs \<Longrightarrow> delivered_headers (map Inl (zip hs ps)) = hs"
  by (induction ps hs rule: list_induct2) (auto simp: delivered_headers_def)

lemma headers_received:
  assumes "after_packets i s dest n sv sv'"
  shows "delivered_headers (receive_loop handle_iq_datagram (map snd (drop (length (sv_wire sv)) (sv_wire sv')))) =
    map (nth_header (sv_config sv) s) (filter (kept sv) [0..<n])"
proof -
  obtain ws where "drop (length (sv_wire sv)) (sv_wire sv') = ws"
    "list_all2 (datagram_of dest) (map (nth_header (sv_config sv) s) (filter (kept sv) [0..<n])) ws"
    using assms by (auto simp: after_packets_def)
  with receive_packets[OF this(2)] delivered_zip show ?thesis by metis
qed

lemma nth_header_fields:
  "iq_seq (nth_header config s k) = mask32 (st_seq s + int k)"
  "iq_adc_timestamp (nth_header config s k) = mask64 (st_adc_timestamp s + int k * packet_ticks config s)"
  "iq_next_timestamp_delta (nth_header config s k) = packet_ticks config s"
  by (simp_all add: nth_header_def packet_header_def iq_header_def stream_at_def iq_next_timestamp_delta_def packet_ticks_def)

lemma steady_nth_header: "st_seq s = 0 \<Longrightarrow> steady (st_adc_timestamp s) (packet_ticks config s) (nth_header config s)"
  by (simp add: steady_def nth_header_fields)

lemma numbered_nth_header: "st_seq s = 0 \<Longrightarrow> numbered (nth_header config s)"
  by (simp add: numbered_def nth_header_fields)

lemma steady_from_start:
  assumes "steady t0 d hdr"
  shows "let st = foldl (\<lambda>st h. ingest_stats_header h st) (stream_stats_init i) (map hdr [0..<m])
    in ss_packets st = int m \<and> ss_lost_packets st = 0 \<and> ss_timestamp_gaps st = 0"
proof (cases m)
  case (Suc m')
  let ?st = "ingest_stats_header (hdr 0) (stream_stats_init i)"
  have "ss_last_seq ?st = Some (mask32 (int 0))" "ss_last_timestamp ?st = Some (mask64 (t0 + int 0 * d))"
    using assms unfolding steady_def by auto
  note run = steady_run[OF assms this, of m']
  have "[0..<m] = 0 # [Suc 0..<Suc 0 + m']" by (simp add: Suc upt_rec)
  then show ?thesis
    using run by (simp add: Suc ingest_stats_lost ingest_stats_gaps stream_stats_init_def)
qed (simp add: stream_stats_init_def)

definition iq_stats :: "int \<Rightarrow> SdrIqHeader list \<Rightarrow> StreamStats" where
  "iq_stats i hs = foldl (\<lambda>st h. ingest_stats_header h st) (stream_stats_init i) hs"

text \<open>
  End to end, no injected loss. A stream the device has just started, sending to a reachable
  destination: after any number of rounds of the transmit loop the loop is still alive, every
  packet sent unpacks at the receiver to the header it was built from, and the backend's statistics
  count every packet, no loss and no timestamp gap.
\<close>

theorem iq_end_to_end_clean:
  assumes "libm_ok m" and "streaming net i s dest sv" and "list_all (\<lambda>draws. draws_ok (draws i)) ds"
    and "st_seq s = 0" and "cfg_drop_every (sv_config sv) \<le> 0"
    and "sv' = foldl (server_step m net) sv (map IqTick ds)"
  shows "sv_tx_task sv' = Running
    \<and> delivered_headers (receive_loop handle_iq_datagram (map snd (drop (length (sv_wire sv)) (sv_wire sv')))) =
        map (nth_header (sv_config sv) s) [0..<length ds]
    \<and> (let st = iq_stats i (map (nth_header (sv_config sv) s) [0..<length ds])
       in ss_packets st = int (length ds) \<and> ss_lost_packets st = 0 \<and> ss_timestamp_gaps st = 0)"
proof -
  have "foldl (server_step m net) sv (map IqTick ds) = foldl (\<lambda>sv draws. iq_tick m draws net sv) sv ds"
    by (simp add: foldl_map)
  then have af: "after_packets i s dest (length ds) sv sv'" using iq_run[OF assms(1,2,3)] assms(6) by simp
  have "filter (kept sv) [0..<length ds] = [0..<length ds]" using assms(5) by (auto simp: kept_def filter_id_conv)
  with headers_received[OF af] steady_from_start[OF steady_nth_header[OF assms(4)]] show ?thesis
    using af assms(2) by (auto simp: iq_stats_def after_packets_def streaming_def)
qed

definition live_stream :: StreamState where
  "live_stream = (stream_state_init 0)\<lparr>st_enabled := True\<rparr>"

lemma live_streaming:
  "streaming (\<lambda>d. None) 0 live_stream (''10.0.0.2'', 9001) (live_server\<lparr>sv_config := fake_config_default\<lparr>cfg_drop_every := n\<rparr>\<rparr>)"
  by (simp add: streaming_def live_server_def live_stream_def dict_ok_def active_streams_def sendable_def count_ok_def
      stream_state_init_def fake_config_default_def oscillator_init_ok RATES_def server_init_def)

lemma zero_draws: "list_all (\<lambda>draws. draws_ok (draws i)) (replicate k (\<lambda>i n. FFin 0))"
  by (simp add: list_all_iff draws_ok_def)

theorem iq_end_to_end_clean_witness:
  "let sv = live_server\<lparr>sv_config := fake_config_default\<lparr>cfg_drop_every := 0\<rparr>\<rparr>;
       sv' = foldl (server_step flat_libm (\<lambda>d. None)) sv (map IqTick (replicate 3 (\<lambda>i n. FFin 0)))
   in sv_tx_task sv' = Running \<and>
      length (delivered_headers (receive_loop handle_iq_datagram (map snd (drop (length (sv_wire sv)) (sv_wire sv'))))) = 3"
  using iq_end_to_end_clean[OF flat_libm_ok live_streaming[of 0] zero_draws[of 0 3] _ _ refl]
  by (simp add: live_stream_def stream_state_init_def Let_def)

text \<open>
  C20 (end to end, injected loss). With \<open>drop_every\<close> set, the loss the backend reports for the
  same stream is the number of packets the device withheld between the first and the last one it
  delivered, as long as fewer than \<open>2^32\<close> packets have been sent.
\<close>

theorem iq_end_to_end_loss:
  assumes "libm_ok m" and "streaming net i s dest sv" and "list_all (\<lambda>draws. draws_ok (draws i)) ds"
    and "st_seq s = 0" and "length ds < 2 ^ 32" and "filter (kept sv) [0..<length ds] = n # ns"
    and "sv' = foldl (server_step m net) sv (map IqTick ds)"
  shows "ss_lost_packets (iq_stats i
      (delivered_headers (receive_loop handle_iq_datagram (map snd (drop (length (sv_wire sv)) (sv_wire sv'))))))
    = int (card {k \<in> {n..last (n # ns)}. \<not> kept sv k})"
proof -
  have "foldl (server_step m net) sv (map IqTick ds) = foldl (\<lambda>sv draws. iq_tick m draws net sv) sv ds"
    by (simp add: foldl_map)
  then have af: "after_packets i s dest (length ds) sv sv'" using iq_run[OF assms(1,2,3)] assms(7) by simp
  have mem: "set (n # ns) = {k. k < length ds \<and> kept sv k}" unfolding assms(6)[symmetric] by auto
  have sorted: "sorted_wrt (<) (n # ns)" unfolding assms(6)[symmetric] by (simp add: sorted_wrt_filter)
  have "last (n # ns) \<in> set (n # ns)" by (rule last_in_set) simp
  then have lt: "last (n # ns) < length ds" using mem by blast
  then have "last (n # ns) - n < 2 ^ 32" using assms(5) by simp
  moreover have "ss_last_seq (ingest_stats_header (nth_header (sv_config sv) s n) (stream_stats_init i)) = Some (mask32 (int n))"
    using assms(4) by (simp add: nth_header_fields)
  ultimately have lost: "ss_lost_packets (iq_stats i (map (nth_header (sv_config sv) s) (n # ns))) =
      int (last (n # ns) - n) - int (length ns)"
    using lost_run[OF numbered_nth_header[OF assms(4)] sorted] by (simp add: iq_stats_def ingest_stats_lost stream_stats_init_def)
  have "{k \<in> {n..last (n # ns)}. \<not> kept sv k} = {k \<in> {n..last (n # ns)}. k \<notin> set (n # ns)}"
    unfolding mem using lt by auto
  then show ?thesis
    unfolding headers_received[OF af] assms(6) lost by (simp only: increasing_card[OF sorted])
qed

theorem iq_end_to_end_loss_witness:
  "let sv = live_server\<lparr>sv_config := fake_config_default\<lparr>cfg_drop_every := 3\<rparr>\<rparr>;
       sv' = foldl (server_step flat_libm (\<lambda>d. None)) sv (map IqTick (replicate 7 (\<lambda>i n. FFin 0)))
   in ss_lost_packets (iq_stats 0 (delivered_headers (receive_loop handle_iq_datagram
        (map snd (drop (length (sv_wire sv)) (sv_wire sv')))))) = 2"
proof -
  let ?sv = "live_server\<lparr>sv_config := fake_config_default\<lparr>cfg_drop_every := 3\<rparr>\<rparr>"
  have k: "kept ?sv j \<longleftrightarrow> (int j + 1) mod 3 \<noteq> 0" for j
    by (simp add: kept_def live_server_def server_init_def add.commute)
  have f: "filter (kept ?sv) [0..<length (replicate 7 (\<lambda>(i :: int) (n :: nat). FFin 0))] = 0 # [1, 3, 4, 6]"
    by (simp add: k upt_rec)
  have e: "{j \<in> {0..last [0, 1, 3, 4, 6]}. \<not> kept ?sv j} = {2, 5 :: nat}"
  proof -
    have "{0..6 :: nat} = {0, 1, 2, 3, 4, 5, 6}" by auto
    then show ?thesis by (auto simp: k)
  qed
  have s0: "st_seq live_stream = 0" by (simp add: live_stream_def stream_state_init_def)
  from iq_end_to_end_loss[OF flat_libm_ok live_streaming[of 3] zero_draws[of 0 7] s0 _ f refl]
  show ?thesis unfolding Let_def e by simp
qed

end
