(* ===== verification/Server_Psd.thy ===== *)
theory Server_Psd
  imports Server_Streams
begin

text \<open>
  The PSD path of the simulated device: the synthetic spectrum is always computable, a round of
  the PSD loop emits the eight segments of one frame, and the backend reassembles exactly that
  spectrum from them, in whatever order they arrive.
\<close>

section \<open>The synthetic spectrum\<close>

lemma float_bnd: "\<bar>n\<bar> < 2 ^ 53 \<Longrightarrow> \<bar>of_int n\<bar> \<le> pow2 k \<Longrightarrow> \<exists>x. float_of_int n = Inr x \<and> bnd k x"
  by (simp add: float_of_int_exact)

lemma width_ok:
  assumes "100000 \<le> span_hz" "span_hz \<le> 107500000"
  shows "\<exists>w. int_truediv span_hz 4096 = Inr (FFin w) \<and> pow2 4 \<le> \<bar>w\<bar> \<and> w \<noteq> 0"
proof -
  have "double_of_rat (of_int span_hz / 4096) = FFin (of_int span_hz / 4096)"
    using assms by (intro double_of_rat_exact[where m = span_hz and e = "- 12"]) (auto simp: pow2_def)
  moreover have "100000 \<le> (of_int span_hz :: rat)"
    using assms(1) of_int_le_iff[of 100000 span_hz, where 'a = rat] by simp
  ultimately show ?thesis
    by (intro exI[of _ "of_int span_hz / 4096"]) (simp add: int_truediv_def finite_or_def pow2_def)
qed

lemma carrier_loop_total:
  assumes span_hz: "100000 \<le> span_hz" "span_hz \<le> 107500000" and freq: "bnd 29 freq"
  shows "list_all (\<lambda>c. 0 \<le> c \<and> c \<le> 98500000) cs \<Longrightarrow> bnd 30 db \<Longrightarrow>
    \<exists>db'. carrier_loop span_hz 4096 freq cs db = Inr db' \<and> bnd 30 db'"
proof (induction cs arbitrary: db)
  case (Cons c cs)
  obtain w where w: "int_truediv span_hz 4096 = Inr (FFin w)" "pow2 4 \<le> \<bar>w\<bar>" "w \<noteq> 0"
    using width_ok[OF span_hz] by blast
  have c: "\<bar>of_int c\<bar> \<le> pow2 29"
    using Cons.prems(1) of_int_le_iff[of c 98500000, where 'a = rat] by (simp add: pow2_def)
  then obtain x where x: "float_of_int c = Inr x" "bnd 29 x" using float_bnd[of c 29] Cons.prems(1) by auto
  have "bnd (29 + 1) (fabs (fsub freq x))" using bnd_fsub[OF freq x(2)] by simp
  then have d: "bnd (30 - 4) (fquot (fabs (fsub freq x)) w)" using w(2) by (intro bnd_fquot) auto
  then have "bnd (26 + 3) (fmul (fquot (fabs (fsub freq x)) w) (FFin (9 / 2)))"
    by (intro bnd_fmul) (auto simp: pow2_def)
  then have "bnd (29 + 1) (fsub (FFin (- 38)) (fmul (fquot (fabs (fsub freq x)) w) (FFin (9 / 2))))"
    by (intro bnd_fsub) (auto simp: pow2_def)
  with Cons.prems(2) have "bnd 30 (if flt (fquot (fabs (fsub freq x)) w) (FFin 5)
      then fmax db (fsub (FFin (- 38)) (fmul (fquot (fabs (fsub freq x)) w) (FFin (9 / 2)))) else db)"
    by (simp add: bnd_fmax)
  from Cons.IH[OF _ this] Cons.prems(1) x(1) w show ?case by simp
qed simp

definition bin_ok :: "int \<Rightarrow> bool" where
  "bin_ok q \<longleftrightarrow> - 32768 \<le> q \<and> q \<le> 32767"

lemma make_psd_bin_total:
  assumes c: "psd_ok c" and i: "0 \<le> i" "i < 4096"
  shows "\<exists>q. make_psd_bin 4096 (pc_start_frequency_hz c) (pc_stop_frequency_hz c) i = Inr q \<and> bin_ok q"
proof -
  define st where "st = pc_start_frequency_hz c"
  define sp where "sp = pc_stop_frequency_hz c - pc_start_frequency_hz c"
  have sp: "100000 \<le> sp" "sp \<le> 107500000" and st: "0 \<le> st" "st \<le> 108000000"
    using c by (auto simp: psd_ok_def st_def sp_def)
  have le: "of_int k \<le> (of_int n :: rat)" if "k \<le> n" for k n using that by simp
  obtain x where x: "float_of_int i = Inr x" "bnd 12 x"
    using float_bnd[of i 12] i le[of i 4095] by (auto simp: pow2_def)
  obtain s where s: "float_of_int sp = Inr s" "bnd 27 s"
    using float_bnd[of sp 27] sp le[of sp 107500000] by (auto simp: pow2_def)
  obtain f0 where f0: "float_of_int st = Inr f0" "bnd 28 f0"
    using float_bnd[of st 28] st le[of st 108000000] by (auto simp: pow2_def)
  have k: "0 \<le> i * 17 mod 31" "i * 17 mod 31 \<le> 30" using pos_mod_bound[of 31 "i * 17"] by simp_all
  then obtain y where y: "float_of_int (i * 17 mod 31) = Inr y" "bnd 5 y"
    using float_bnd[of "i * 17 mod 31" 5] le[OF k(2)] by (auto simp: pow2_def)
  have n: "float_of_int 4096 = Inr (FFin 4096)" using float_of_int_exact[of 4096] by simp
  have "bnd (12 + 1) (fadd x (FFin (1 / 2)))" using x(2) by (intro bnd_fadd) (auto simp: pow2_def)
  then have "bnd (13 + 27) (fmul (fadd x (FFin (1 / 2))) s)" using s(2) by (intro bnd_fmul) auto
  then have "bnd (40 - 12) (fquot (fmul (fadd x (FFin (1 / 2))) s) 4096)" by (intro bnd_fquot) (auto simp: pow2_def)
  then have freq: "bnd (28 + 1) (fadd f0 (fquot (fmul (fadd x (FFin (1 / 2))) s) 4096))"
    using f0(2) by (intro bnd_fadd) auto
  have "bnd (2 + 5) (fmul (FFin 4) y)" using y(2) by (intro bnd_fmul) (auto simp: pow2_def)
  then have "bnd (7 - 4) (fquot (fmul (FFin 4) y) 31)" by (intro bnd_fquot) (auto simp: pow2_def)
  then have "bnd 7 (fquot (fmul (FFin 4) y) 31)" by (rule bnd_mono) simp
  then have "bnd (7 + 1) (fadd (FFin (- 96)) (fquot (fmul (FFin 4) y) 31))" by (intro bnd_fadd) (auto simp: pow2_def)
  then have "bnd 30 (fadd (FFin (- 96)) (fquot (fmul (FFin 4) y) 31))" by (rule bnd_mono) simp
  then obtain db where db: "carrier_loop sp 4096 (fadd f0 (fquot (fmul (fadd x (FFin (1 / 2))) s) 4096)) carriers
      (fadd (FFin (- 96)) (fquot (fmul (FFin 4) y) 31)) = Inr db" "bnd 30 db"
    using carrier_loop_total[OF sp, of _ carriers] freq by (force simp: carriers_def)
  have "bnd (30 + 8) (fmul db (FFin 256))" using db(2) by (intro bnd_fmul) (auto simp: pow2_def)
  then obtain q where "round_float (fmul db (FFin 256)) = Inr q" using bnd_round_float by blast
  then have "make_psd_bin 4096 st (st + sp) i = Inr (clamp16 q)"
    using x(1) s(1) f0(1) y(1) n db(1) by (simp add: make_psd_bin_def Let_def)
  moreover have "bin_ok (clamp16 q)" using clamp16_range[of q] by (simp add: bin_ok_def)
  ultimately show ?thesis by (simp add: st_def sp_def)
qed

lemma make_psd_bins_total:
  assumes "psd_ok c"
  shows "\<exists>bins. make_psd_bins_q8 4096 (pc_start_frequency_hz c) (pc_stop_frequency_hz c) = Inr bins
    \<and> length bins = 4096 \<and> list_all bin_ok bins"
proof -
  have "\<exists>bins. make_psd_bins_q8 4096 (pc_start_frequency_hz c) (pc_stop_frequency_hz c) = Inr bins
      \<and> length bins = length (map int [0..<nat 4096]) \<and> list_all bin_ok bins"
    unfolding make_psd_bins_q8_def using make_psd_bin_total[OF assms] by (intro rmap_total) auto
  then show ?thesis by simp
qed

lemma spacing_ok:
  assumes "psd_ok c"
  shows "\<exists>sp. rbind (int_truediv ((pc_stop_frequency_hz c - pc_start_frequency_hz c) * 1000) 4096) round_float = Inr sp
    \<and> 0 \<le> sp \<and> sp < 2 ^ 64"
proof -
  define a where "a = (pc_stop_frequency_hz c - pc_start_frequency_hz c) * 1000"
  have a: "0 \<le> a" "a \<le> 107500000000" using assms by (auto simp: a_def psd_ok_def)
  have "double_of_rat (of_int a / 4096) = FFin (of_int a / 4096)"
    using a by (intro double_of_rat_exact[where m = a and e = "- 12"]) (auto simp: pow2_def)
  moreover have "(of_int a / 4096 :: rat) \<le> of_int 107500000000"
    using a(2) of_int_le_iff[of a 107500000000, where 'a = rat] by simp
  then have "round_half_even (of_int a / 4096) \<le> 107500000000" by (rule round_half_even_le_int)
  moreover have "0 \<le> round_half_even (of_int a / 4096)" using a(1) by (intro round_half_even_mono_int) simp
  ultimately show ?thesis unfolding a_def[symmetric] by (simp add: int_truediv_def finite_or_def)
qed

section \<open>One frame on the wire\<close>

definition seg_bytes :: "int list \<Rightarrow> nat \<Rightarrow> bytes" where
  "seg_bytes bins i = concat (map (le_bytes 2) (take 512 (drop (512 * i) bins)))"

lemma concat_slices: "concat (map (\<lambda>i. take n (drop (n * i) xs)) [0..<k]) = take (n * k) xs"
proof (induction k)
  case (Suc k)
  have "take (n * Suc k) xs = take (n * k) xs @ take n (drop (n * k) xs)"
    by (simp only: mult_Suc_right add.commute[of n] take_add)
  with Suc show ?case by simp
qed simp

lemma concat_seg_bytes: "concat (map (seg_bytes bins) [0..<k]) = concat (map (le_bytes 2) (take (512 * k) bins))"
proof -
  have "concat (map (seg_bytes bins) [0..<k]) = concat (map (le_bytes 2) (concat (map (\<lambda>i. take 512 (drop (512 * i) bins)) [0..<k])))"
    by (induction k) (simp_all add: seg_bytes_def)
  then show ?thesis unfolding concat_slices .
qed

lemma segment_payload_ok:
  assumes "list_all bin_ok bins"
  shows "segment_payload bins (int i) = Inr (seg_bytes bins i)"
proof -
  have "to_bytes_signed 2 q = Inr (le_bytes 2 q)" if "q \<in> set (take 512 (drop (512 * i) bins))" for q
  proof -
    have "bin_ok q" using assms that by (auto simp: list_all_iff dest: in_set_takeD in_set_dropD)
    then show ?thesis by (simp add: bin_ok_def to_bytes_signed_def power2_eq_square)
  qed
  then have "rmap (to_bytes_signed 2) (take 512 (drop (512 * i) bins)) = Inr (map (le_bytes 2) (take 512 (drop (512 * i) bins)))"
    by (intro rmap_Inr_map) auto
  then show ?thesis by (simp add: segment_payload_def seg_bytes_def nat_mult_distrib mult.commute)
qed

lemma length_seg_bytes: "512 * i + 512 \<le> length bins \<Longrightarrow> length (seg_bytes bins i) = 1024"
proof -
  have len: "length (concat (map (le_bytes 2) qs)) = 2 * length qs" for qs by (induction qs) auto
  show "512 * i + 512 \<le> length bins \<Longrightarrow> ?thesis" unfolding seg_bytes_def len by simp
qed

text \<open>Settings whose identifier and FFT size fit their header fields; \<open>_cmd_set_psd\<close> does not check it.\<close>

definition packable :: "PsdSettings \<Rightarrow> bool" where
  "packable c \<longleftrightarrow> 0 \<le> pc_psd_id c \<and> pc_psd_id c < 65536 \<and> 0 \<le> pc_fft_size c \<and> pc_fft_size c < 2 ^ 32"

definition clock_ok :: "(int \<Rightarrow> int) \<Rightarrow> bool" where
  "clock_ok clock \<longleftrightarrow> (\<forall>i. 0 \<le> clock i \<and> clock i * 250000 < 2 ^ 64)"

lemma psd_header_packs:
  assumes "psd_ok c" "packable c" "clock_ok clock" "0 \<le> q" "q < 2 ^ 32" "0 \<le> sp" "sp < 2 ^ 64" "flags \<in> {0, 2}"
    and "i < 8" "length payload = 1024"
  shows "\<exists>bs. psd_pack (psd_header c q (clock (int i)) sp 8 flags (int i) payload) = Inr bs"
proof -
  let ?h = "psd_header c q (clock (int i)) sp 8 flags (int i) payload"
  have "0 \<le> clock (int i)" "clock (int i) * 250000 < 2 ^ 64" using assms(3) by (auto simp: clock_ok_def)
  then have "in_range PSD_STRUCT (psd_fields ?h)"
    using assms by (auto simp: in_range_def PSD_STRUCT_eq psd_fields_def psd_header_def psd_default_def packet_consts
        PSD_HEADER_SIZE_eq packable_def psd_ok_def)
  moreover have "psd_valid ?h"
    using assms(10) by (simp add: psd_valid_iff psd_header_def psd_default_def packet_consts PSD_HEADER_SIZE_eq)
  ultimately show ?thesis using struct_pack_in_range by (metis psd_pack_eq)
qed

definition frame_header :: "FakeServer \<Rightarrow> (int \<Rightarrow> int) \<Rightarrow> int \<Rightarrow> int \<Rightarrow> int list \<Rightarrow> nat \<Rightarrow> SdrPsdHeader" where
  "frame_header sv clock sp flags bins i =
     psd_header (sv_psd_config sv) (sv_psd_frame_seq sv) (clock (int i)) sp 8 flags (int i) (seg_bytes bins i)"

definition frame_datagram :: "FakeServer \<Rightarrow> (int \<Rightarrow> int) \<Rightarrow> int \<Rightarrow> int \<Rightarrow> int list \<Rightarrow> nat \<Rightarrow> bytes" where
  "frame_datagram sv clock sp flags bins i = projr (psd_pack (frame_header sv clock sp flags bins i)) @ seg_bytes bins i"

lemma send_segments_ok:
  assumes "\<And>i. i < 8 \<Longrightarrow> \<exists>bs. psd_pack (frame_header sv clock sp flags bins i) = Inr bs" and "list_all bin_ok bins"
    and "sv_udp_psd_dest sv = Some dest" and "net dest = None"
  shows "list_all (\<lambda>i. i < 8) is \<Longrightarrow> sv_psd_config u = sv_psd_config sv \<Longrightarrow> sv_psd_frame_seq u = sv_psd_frame_seq sv \<Longrightarrow>
    sv_udp_psd_dest u = Some dest \<Longrightarrow>
    send_segments clock net sp 8 flags bins (map int is) u =
     (u\<lparr>sv_wire := sv_wire u @ map (\<lambda>i. (dest, frame_datagram sv clock sp flags bins i)) is,
         sv_psd_packets_sent := sv_psd_packets_sent u + int (length is)\<rparr>, Inr ())"
proof (induction "is" arbitrary: u)
  case (Cons i "is")
  let ?h = "frame_header sv clock sp flags bins i"
  obtain bs where bs: "psd_pack ?h = Inr bs" using assms(1)[of i] Cons.prems(1) by auto
  have h: "psd_header (sv_psd_config u) (sv_psd_frame_seq u) (clock (int i)) sp 8 flags (int i) (seg_bytes bins i) = ?h"
    using Cons.prems by (simp add: frame_header_def)
  let ?u = "u\<lparr>sv_wire := sv_wire u @ [(dest, frame_datagram sv clock sp flags bins i)],
      sv_psd_packets_sent := sv_psd_packets_sent u + 1\<rparr>"
  have "send_segments clock net sp 8 flags bins (map int (i # is)) u = send_segments clock net sp 8 flags bins (map int is) ?u"
    using Cons.prems(4) assms(4) segment_payload_ok[OF assms(2), of i] bs
    by (simp add: h sendto_def frame_datagram_def)
  also have "\<dots> = (?u\<lparr>sv_wire := sv_wire ?u @ map (\<lambda>i. (dest, frame_datagram sv clock sp flags bins i)) is,
         sv_psd_packets_sent := sv_psd_packets_sent ?u + int (length is)\<rparr>, Inr ())"
    using Cons.prems by (intro Cons.IH) auto
  finally show ?case by (simp add: add.assoc)
qed simp

lemma bounds_of_frame:
  assumes "psd_ok (sv_psd_config sv)"
  shows "\<exists>fb. frequency_bounds (frame_header sv clock sp flags bins i) = Inr fb"
proof -
  let ?c = "sv_psd_config sv"
  have c: "100000 \<le> pc_stop_frequency_hz ?c - pc_start_frequency_hz ?c"
    "pc_stop_frequency_hz ?c - pc_start_frequency_hz ?c \<le> 107500000" "pc_output_bins ?c = 4096"
    using assms by (auto simp: psd_ok_def)
  obtain w where "int_truediv (pc_stop_frequency_hz ?c - pc_start_frequency_hz ?c) 4096 = Inr (FFin w)"
    using width_ok[OF c(1,2)] by blast
  with c show ?thesis by (simp add: frequency_bounds_def frame_header_def psd_header_def)
qed

definition psd_ready :: "(dest \<Rightarrow> exn option) \<Rightarrow> dest \<Rightarrow> FakeServer \<Rightarrow> bool" where
  "psd_ready net dest sv \<longleftrightarrow> sv_psd_task sv = Running \<and> pc_enable (sv_psd_config sv) \<and> psd_ok (sv_psd_config sv)
     \<and> packable (sv_psd_config sv) \<and> 0 \<le> sv_psd_frame_seq sv \<and> sv_psd_frame_seq sv < 2 ^ 32
     \<and> sv_udp_psd_dest sv = Some dest \<and> net dest = None"

lemma psd_tick_ok:
  assumes r: "psd_ready net dest sv" and clock: "clock_ok clock"
  obtains sp flags bins where
    "psd_tick clock net sv = sv\<lparr>sv_psd_first_frame := False,
        sv_wire := sv_wire sv @ map (\<lambda>i. (dest, frame_datagram sv clock sp flags bins i)) [0..<8],
        sv_psd_packets_sent := sv_psd_packets_sent sv + 8, sv_psd_frame_seq := mask32 (sv_psd_frame_seq sv + 1)\<rparr>"
    "make_psd_bins_q8 4096 (pc_start_frequency_hz (sv_psd_config sv)) (pc_stop_frequency_hz (sv_psd_config sv)) = Inr bins"
    "length bins = 4096" "list_all bin_ok bins"
    "\<forall>i < 8. \<exists>bs. psd_pack (frame_header sv clock sp flags bins i) = Inr bs"
proof -
  let ?c = "sv_psd_config sv"
  have c: "psd_ok ?c" "packable ?c" "pc_output_bins ?c = 4096" "0 \<le> sv_psd_frame_seq sv" "sv_psd_frame_seq sv < 2 ^ 32"
    using r by (auto simp: psd_ready_def psd_ok_def)
  obtain sp where sp: "rbind (int_truediv ((pc_stop_frequency_hz ?c - pc_start_frequency_hz ?c) * 1000) 4096) round_float = Inr sp"
    "0 \<le> sp" "sp < 2 ^ 64" using spacing_ok[OF c(1)] by blast
  obtain bins where bins: "make_psd_bins_q8 4096 (pc_start_frequency_hz ?c) (pc_stop_frequency_hz ?c) = Inr bins"
    "length bins = 4096" "list_all bin_ok bins" using make_psd_bins_total[OF c(1)] by blast
  define flags where "flags = (if sv_psd_first_frame sv then SDR_PSD_FLAG_CONFIG_CHANGED else 0)"
  have fl: "flags \<in> {0, 2}" by (simp add: flags_def flag_consts)
  have pk: "\<exists>bs. psd_pack (frame_header sv clock sp flags bins i) = Inr bs" if "i < 8" for i
    unfolding frame_header_def using c sp fl that bins(2)
    by (intro psd_header_packs clock length_seg_bytes) auto
  let ?u = "sv\<lparr>sv_psd_first_frame := False\<rparr>"
  have "send_segments clock net sp 8 flags bins (map int [0..<8]) ?u =
     (?u\<lparr>sv_wire := sv_wire ?u @ map (\<lambda>i. (dest, frame_datagram sv clock sp flags bins i)) [0..<8],
         sv_psd_packets_sent := sv_psd_packets_sent ?u + int (length [0..<8])\<rparr>, Inr ())"
    by (rule send_segments_ok[OF pk bins(3)]) (use r in \<open>auto simp: psd_ready_def list_all_iff\<close>)
  then have "psd_tick clock net sv = sv\<lparr>sv_psd_first_frame := False,
        sv_wire := sv_wire sv @ map (\<lambda>i. (dest, frame_datagram sv clock sp flags bins i)) [0..<8],
        sv_psd_packets_sent := sv_psd_packets_sent sv + 8, sv_psd_frame_seq := mask32 (sv_psd_frame_seq sv + 1)\<rparr>"
    using r c(3) sp(1) bins(1)
    by (simp add: psd_tick_def psd_ready_def send_psd_frame_def Let_def flags_def[symmetric] del: upt_Suc upt_rec_numeral)
  with that bins pk show ?thesis by blast
qed

section \<open>End to end: PSD\<close>

lemma receive_frame:
  assumes "\<forall>i < 8. \<exists>bs. psd_pack (frame_header sv clock sp flags bins i) = Inr bs"
    and "length bins = 4096" and "set order \<subseteq> {0..<8}"
  shows "receive_loop handle_psd_datagram (map (frame_datagram sv clock sp flags bins) order) =
    map Inl (map (\<lambda>k. (frame_header sv clock sp flags bins k, seg_bytes bins k)) order)"
proof (rule psdh.receive_delivered)
  have "handle_psd_datagram (frame_datagram sv clock sp flags bins k) =
      Inr (Some (frame_header sv clock sp flags bins k, seg_bytes bins k))" if "k < 8" for k
  proof -
    obtain bs where bs: "psd_pack (frame_header sv clock sp flags bins k) = Inr bs" using assms(1) \<open>k < 8\<close> by blast
    have "psd_payload_bytes (frame_header sv clock sp flags bins k) = int (length (seg_bytes bins k))"
      by (simp add: frame_header_def psd_header_def)
    from receive_psd_sent[OF bs this, of "[]"] bs show ?thesis by (simp add: frame_datagram_def)
  qed
  then show "list_all2 (\<lambda>d x. handle_psd_datagram d = Inr (Some x)) (map (frame_datagram sv clock sp flags bins) order)
      (map (\<lambda>k. (frame_header sv clock sp flags bins k, seg_bytes bins k)) order)"
    using assms(3) by (auto simp: list_all2_conv_all_nth dest!: nth_mem)
qed

text \<open>
  End to end, PSD. A device whose PSD is on and whose destination is reachable sends, in one
  round of the PSD loop, the eight segments of a frame. In whatever order these reach the backend,
  its receiver accepts all of them and its reassembler, unless it already holds that frame, returns
  nothing for the first seven and for the last one the frame whose 4096 bins are the levels the
  device computed, to two decimals. The loop stays alive and the frame number advances modulo \<open>2^32\<close>.
\<close>

theorem psd_end_to_end:
  assumes "psd_ready net dest sv" and "clock_ok clock" and "sv' = server_step m net sv (PsdTick clock)"
    and "ra_inv ra" and "map_of (ra_frames ra) (pc_psd_id (sv_psd_config sv), sv_psd_frame_seq sv) = None"
    and "distinct order" and "set order = {0..<8}"
  shows "\<exists>ws bins xs ra' fr. sv_wire sv' = sv_wire sv @ map (Pair dest) ws \<and> length ws = 8
    \<and> make_psd_bins_q8 4096 (pc_start_frequency_hz (sv_psd_config sv)) (pc_stop_frequency_hz (sv_psd_config sv)) = Inr bins
    \<and> length bins = 4096
    \<and> receive_loop handle_psd_datagram (map (\<lambda>k. ws ! k) order) = map Inl xs
    \<and> ingest_run ra xs = (ra', replicate 7 (Inr None) @ [Inr (Some fr)])
    \<and> map_of fr ''frame_seq'' = Some (PInt (sv_psd_frame_seq sv))
    \<and> map_of fr ''bins_dbfs'' = Some (PList (map (\<lambda>q. PFloat (q8_to_dbfs q)) bins))
    \<and> sv_psd_task sv' = Running \<and> sv_psd_frame_seq sv' = mask32 (sv_psd_frame_seq sv + 1)"
proof -
  let ?c = "sv_psd_config sv"
  obtain sp flags bins where tick: "psd_tick clock net sv = sv\<lparr>sv_psd_first_frame := False,
        sv_wire := sv_wire sv @ map (\<lambda>i. (dest, frame_datagram sv clock sp flags bins i)) [0..<8],
        sv_psd_packets_sent := sv_psd_packets_sent sv + 8, sv_psd_frame_seq := mask32 (sv_psd_frame_seq sv + 1)\<rparr>"
    and bins: "make_psd_bins_q8 4096 (pc_start_frequency_hz ?c) (pc_stop_frequency_hz ?c) = Inr bins"
      "length bins = 4096" "list_all bin_ok bins"
    and pk: "\<forall>i < 8. \<exists>bs. psd_pack (frame_header sv clock sp flags bins i) = Inr bs"
    by (rule psd_tick_ok[OF assms(1,2)])
  let ?hdr = "frame_header sv clock sp flags bins" and ?dg = "frame_datagram sv clock sp flags bins"
  have c: "psd_ok ?c" "sv_psd_task sv = Running" using assms(1) by (auto simp: psd_ready_def)
  obtain fb where fb: "frequency_bounds (?hdr (last order)) = Inr fb" using bounds_of_frame[OF c(1)] by blast
  have ne: "order \<noteq> []" using assms(7) by auto
  have hdrs: "\<forall>k \<in> {0..<8}. psd_psd_id (?hdr k) = pc_psd_id ?c \<and> psd_frame_seq (?hdr k) = sv_psd_frame_seq sv
      \<and> psd_segment_count (?hdr k) = int 8 \<and> psd_segment_index (?hdr k) = int k"
    by (simp add: frame_header_def psd_header_def)
  obtain ra' fr where run: "ingest_run ra (map (\<lambda>k. (?hdr k, seg_bytes bins k)) order) = (ra', replicate (8 - 1) (Inr None) @ [Inr (Some fr)])"
    and fr: "map_of fr ''frame_seq'' = Some (PInt (sv_psd_frame_seq sv))"
      "map_of fr ''bins_dbfs'' = Some (PList (map PFloat
           (slice_to (psd_total_bins (?hdr (last order))) (decode_bins (concat (map (seg_bytes bins) [0..<8]))))))"
    using reassembly_in_any_order[OF assms(4,5,6,7) ne hdrs fb, of "seg_bytes bins"] by blast
  have "psd_total_bins (?hdr (last order)) = 4096" using c(1) by (simp add: frame_header_def psd_header_def psd_ok_def)
  moreover have "decode_bins (concat (map (seg_bytes bins) [0..<8])) = map q8_to_dbfs bins"
    unfolding concat_seg_bytes using bins(2,3) by (subst decode_bins_le_bytes) (auto simp: list_all_iff bin_ok_def)
  ultimately have "map_of fr ''bins_dbfs'' = Some (PList (map (\<lambda>q. PFloat (q8_to_dbfs q)) bins))"
    using fr(2) bins(2) by (simp add: comp_def slice_to_pos)
  moreover have "map (\<lambda>k. map ?dg [0..<8] ! k) order = map ?dg order" using assms(7) by auto
  then have "receive_loop handle_psd_datagram (map (\<lambda>k. map ?dg [0..<8] ! k) order) =
      map Inl (map (\<lambda>k. (?hdr k, seg_bytes bins k)) order)"
    unfolding \<open>map (\<lambda>k. map ?dg [0..<8] ! k) order = map ?dg order\<close>
    by (intro receive_frame[OF pk bins(2)]) (simp add: assms(7))
  moreover have "sv_wire sv' = sv_wire sv @ map (Pair dest) (map ?dg [0..<8])" using assms(3) tick by (simp add: comp_def)
  moreover have "length (map ?dg [0..<8]) = 8" by simp
  ultimately show ?thesis
    using bins(1,2) run fr(1) tick assms(3) c(2)
    by (intro exI[of _ "map ?dg [0..<8]"] exI[of _ bins] exI[of _ "map (\<lambda>k. (?hdr k, seg_bytes bins k)) order"]
        exI[of _ ra'] exI[of _ fr] conjI) (simp_all del: upt_Suc upt_rec_numeral)
qed

theorem psd_end_to_end_witness:
  "\<exists>ws bins. sv_wire (server_step flat_libm (\<lambda>d. None) live_server (PsdTick (\<lambda>i. 5))) = map (Pair (''10.0.0.2'', 9002)) ws
     \<and> length ws = 8 \<and> length bins = 4096
     \<and> (\<exists>xs ra' fr. receive_loop handle_psd_datagram (map (\<lambda>k. ws ! k) [7, 6, 5, 4, 3, 2, 1, 0]) = map Inl xs
          \<and> ingest_run reassembler_init xs = (ra', replicate 7 (Inr None) @ [Inr (Some fr)])
          \<and> map_of fr ''bins_dbfs'' = Some (PList (map (\<lambda>q. PFloat (q8_to_dbfs q)) bins)))"
proof -
  have "psd_ready (\<lambda>d. None) (''10.0.0.2'', 9002) live_server"
    by (simp add: psd_ready_def live_server_def server_init_def psd_settings_init_def psd_ok_def packable_def)
  moreover have "clock_ok (\<lambda>i. 5)" by (simp add: clock_ok_def)
  moreover have "map_of (ra_frames reassembler_init) (pc_psd_id (sv_psd_config live_server), sv_psd_frame_seq live_server) = None"
    by (simp add: reassembler_init_def)
  moreover have "distinct [7, 6, 5, 4, 3, 2, 1, 0 :: nat]" "set [7, 6, 5, 4, 3, 2, 1, 0 :: nat] = {0..<8}" by auto
  moreover have "sv_wire live_server = []" by (simp add: live_server_def server_init_def)
  ultimately show ?thesis
    using psd_end_to_end[OF _ _ refl ra_inv_init(1), of "\<lambda>d. None" "(''10.0.0.2'', 9002)" live_server "\<lambda>i. 5"
        "[7, 6, 5, 4, 3, 2, 1, 0]" flat_libm]
    by auto
qed

end
