(* ===== verification/Message_Encoding.thy ===== *)
theory Message_Encoding
  imports Control
begin

text \<open>
  Which messages have an encoding: JSON text without \<open>ensure_ascii\<close> is encoded by
  \<open>encode("utf-8")\<close> exactly when no string in it holds a lone surrogate. A piece of text is
  \<open>transparent\<close> when it neither starts nor leaves an unfinished character, so that the validity of
  the text around it does not depend on it; the pieces \<open>json.dumps\<close> writes are.
\<close>

section \<open>Transparent pieces of text\<close>

definition transparent :: "string \<Rightarrow> bool" where
  "transparent s \<longleftrightarrow> (\<forall>t. utf8_valid (s @ t) = utf8_valid t)"

definition ascii :: "string \<Rightarrow> bool" where
  "ascii s \<longleftrightarrow> (\<forall>c \<in> set s. c < CHR 0x80)"

lemma transparent_Nil [simp]: "transparent []"
  by (simp add: transparent_def)

lemma transparent_append [simp]: "transparent s \<Longrightarrow> transparent t \<Longrightarrow> transparent (s @ t)"
  by (simp add: transparent_def)

lemma transparent_valid: "transparent s \<Longrightarrow> utf8_valid s"
  using transparent_def[of s] by (metis append_Nil2 utf8_valid.simps(1))

lemma transparent_Cons: "c < CHR 0x80 \<Longrightarrow> transparent s \<Longrightarrow> transparent (c # s)"
  by (simp add: transparent_def)

lemma ascii_transparent: "ascii s \<Longrightarrow> transparent s"
  by (induction s) (auto simp: ascii_def intro: transparent_Cons)

lemma transparent_join:
  "transparent sep \<Longrightarrow> (\<And>s. s \<in> set ss \<Longrightarrow> transparent s) \<Longrightarrow> transparent (join sep ss)"
  by (induction sep ss rule: join.induct) auto

lemma ascii_simps [simp]:
  "ascii []" "ascii (c # s) \<longleftrightarrow> c < CHR 0x80 \<and> ascii s" "ascii (s @ t) \<longleftrightarrow> ascii s \<and> ascii t"
  by (auto simp: ascii_def)

lemma ascii_sub: "set s \<subseteq> set t \<Longrightarrow> ascii t \<Longrightarrow> ascii s"
  by (auto simp: ascii_def)

lemma ascii_digit: "is_digit c \<Longrightarrow> c < CHR 0x80"
  by (auto simp: is_digit_def less_eq_char_def less_char_def)

lemma ascii_show_int [simp]: "ascii (show_int n)"
proof -
  have "ascii (show_base 10 m)" if "0 \<le> m" for m
    using show_base_digits[OF that] by (auto simp: ascii_def list_all_iff ascii_digit)
  then show ?thesis by (simp add: show_int_def less_char_def)
qed

lemma ascii_replicate [simp]: "c < CHR 0x80 \<Longrightarrow> ascii (replicate n c)"
  by (simp add: ascii_def)

lemma ascii_float_repr_pos: "ascii (float_repr_pos a)"
proof -
  define ds where "ds = rev (dropWhile ((=) (CHR ''0'')) (rev (show_int (fst (shortest_digits 0 16 a)))))"
  have ds: "ascii ds" unfolding ds_def
    by (rule ascii_sub[OF _ ascii_show_int[of "fst (shortest_digits 0 16 a)"]]) (auto dest: set_dropWhileD)
  have "ascii (take k ds)" "ascii (drop k ds)" for k
    using ds by (auto intro: ascii_sub dest: in_set_takeD in_set_dropD)
  with ds show ?thesis by (simp add: float_repr_pos_def Let_def ds_def[symmetric] less_char_def)
qed

lemma ascii_json_float: "ascii (json_float x)"
  by (cases x) (simp_all add: ascii_float_repr_pos less_char_def)

lemma ascii_digit_char: "0 \<le> d \<Longrightarrow> d < 16 \<Longrightarrow> digit_char d < CHR 0x80"
  by (simp add: digit_char_def less_char_def nat_of_char_of_int nat_less_iff)

lemma ascii_escape_char: "c < CHR 0x80 \<Longrightarrow> ascii (escape_char c)"
proof (cases "short_escape c")
  case None
  have "CHR 0x5C < CHR 0x80" "CHR ''u'' < CHR 0x80" by (simp_all add: less_char_def)
  moreover assume "c < CHR 0x80"
  ultimately show ?thesis using None
    by (simp add: escape_char_def u_escape_def hex4_def hex2_def ascii_digit_char del: short_escape.simps)
next
  case (Some e)
  then have "e < CHR 0x80" by (auto simp: less_char_def split: if_splits)
  with Some show ?thesis by (simp add: escape_char_def less_char_def del: short_escape.simps)
qed

lemma short_escape_low: "short_escape c = Some e \<Longrightarrow> c < CHR 0x80"
  by (auto simp: less_char_def split: if_splits)

lemma escape_char_high:
  assumes "\<not> c < CHR 0x80"
  shows "escape_char c = [c]"
proof -
  have "short_escape c = None" using assms short_escape_low by (cases "short_escape c") blast+
  moreover have "\<not> c < CHR '' ''"
  proof
    assume "c < CHR '' ''"
    also have "CHR '' '' < CHR 0x80" by (simp add: less_char_def)
    finally show False using assms by simp
  qed
  ultimately show ?thesis by (simp add: escape_char_def del: short_escape.simps)
qed

lemma cont_byte_high: "cont_byte c \<Longrightarrow> \<not> c < CHR 0x80"
  by (auto simp: cont_byte_def)

text \<open>A character of several bytes at the front of valid text.\<close>

lemma utf8_valid_head:
  assumes "utf8_valid (a # s)" and "\<not> a < CHR 0x80"
  shows "\<exists>p t. s = p @ t \<and> transparent (a # p) \<and> list_all cont_byte p \<and> utf8_valid t"
proof -
  have "(CHR 0xC2 \<le> a \<and> a \<le> CHR 0xDF) \<or> (CHR 0xE0 \<le> a \<and> a \<le> CHR 0xEF) \<or> (CHR 0xF0 \<le> a \<and> a \<le> CHR 0xF4)"
  proof (rule ccontr)
    assume "\<not> ?thesis"
    then have "\<not> (CHR 0xC2 \<le> a \<and> a \<le> CHR 0xDF)" "\<not> (CHR 0xE0 \<le> a \<and> a \<le> CHR 0xEF)"
      "\<not> (CHR 0xF0 \<le> a \<and> a \<le> CHR 0xF4)" by blast+
    then have "\<not> utf8_valid (a # s)" using assms(2) by (simp only: utf8_valid.simps if_False simp_thms)
    with assms(1) show False by simp
  qed
  then consider (two) "CHR 0xC2 \<le> a \<and> a \<le> CHR 0xDF"
    | (three) "\<not> (CHR 0xC2 \<le> a \<and> a \<le> CHR 0xDF)" "CHR 0xE0 \<le> a \<and> a \<le> CHR 0xEF"
    | (four) "\<not> (CHR 0xC2 \<le> a \<and> a \<le> CHR 0xDF)" "\<not> (CHR 0xE0 \<le> a \<and> a \<le> CHR 0xEF)" "CHR 0xF0 \<le> a \<and> a \<le> CHR 0xF4"
    by blast
  then show ?thesis
  proof cases
    case two
    then obtain b t where "s = b # t" "cont_byte b" "utf8_valid t"
      using assms by (auto split: list.splits)
    moreover have "transparent [a, b]" using two assms(2) \<open>cont_byte b\<close> by (simp add: transparent_def)
    ultimately show ?thesis by (intro exI[of _ "[b]"] exI[of _ t]) simp
  next
    case three
    then obtain b c t where s: "s = b # c # t" "cont_byte b" "cont_byte c" "utf8_valid t"
      "a = CHR 0xE0 \<longrightarrow> CHR 0xA0 \<le> b" "a = CHR 0xED \<longrightarrow> b \<le> CHR 0x9F"
      using assms(1) by (auto simp add: three assms(2) split: list.splits)
    then have "transparent [a, b, c]" by (simp add: transparent_def three assms(2))
    with s show ?thesis by (intro exI[of _ "[b, c]"] exI[of _ t]) simp
  next
    case four
    then obtain b c d t where s: "s = b # c # d # t" "cont_byte b" "cont_byte c" "cont_byte d" "utf8_valid t"
      "a = CHR 0xF0 \<longrightarrow> CHR 0x90 \<le> b" "a = CHR 0xF4 \<longrightarrow> b \<le> CHR 0x8F"
      using assms(1) by (auto simp add: four assms(2) split: list.splits)
    then have "transparent [a, b, c, d]" by (simp add: transparent_def four assms(2))
    with s show ?thesis by (intro exI[of _ "[b, c, d]"] exI[of _ t]) simp
  qed
qed

lemma transparent_escaped: "utf8_valid s \<Longrightarrow> transparent (concat (map escape_char s))"
proof (induction "length s" arbitrary: s rule: less_induct)
  case less
  show ?case
  proof (cases s)
    case (Cons a r)
    show ?thesis
    proof (cases "a < CHR 0x80")
      case True
      with less Cons show ?thesis by (auto intro!: transparent_append intro: ascii_transparent ascii_escape_char)
    next
      case False
      then obtain p t where p: "r = p @ t" "transparent (a # p)" "list_all cont_byte p" "utf8_valid t"
        using utf8_valid_head less.prems Cons by blast
      have "concat (map escape_char p) = p" using p(3)
        by (induction p) (simp_all add: escape_char_high cont_byte_high)
      then have "concat (map escape_char s) = (a # p) @ concat (map escape_char t)"
        using Cons p(1) False by (simp add: escape_char_high)
      then show ?thesis using less.hyps[of t] p Cons by (metis transparent_append length_Cons length_append
            less_Suc_eq_le le_add2)
    qed
  qed simp
qed

lemma transparent_json_string: "utf8_valid s \<Longrightarrow> transparent (json_string False s)"
  by (auto simp: json_string_def less_char_def intro!: transparent_Cons transparent_append transparent_escaped)

section \<open>Messages\<close>

fun encodable :: "pyval \<Rightarrow> bool" where
  "encodable (PStr s) = utf8_valid s"
| "encodable (PList vs) = list_all encodable vs"
| "encodable (PDict d) = list_all (\<lambda>(k, v). utf8_valid k \<and> encodable v) d"
| "encodable _ = True"

lemma transparent_dumps: "encodable v \<Longrightarrow> transparent (dumps False v)"
proof (induction v)
  case (PList vs)
  then have "transparent (join '','' (map (dumps False) vs))"
    by (intro transparent_join) (auto simp: list_all_iff less_char_def intro: transparent_Cons)
  then show ?case by (auto simp: less_char_def intro!: transparent_append transparent_Cons)
next
  case (PDict d)
  have "transparent (member_text (k, u))" if "(k, u) \<in> set d" for k u
    using PDict that by (fastforce simp: member_text_def list_all_iff less_char_def
        intro!: transparent_append transparent_json_string transparent_Cons)
  then have "transparent (join '','' (map member_text d))"
    by (intro transparent_join) (auto simp: less_char_def intro: transparent_Cons)
  then show ?case unfolding dumps_dict by (auto simp: less_char_def intro!: transparent_append transparent_Cons)
qed (auto simp: transparent_json_string ascii_json_float less_char_def intro!: ascii_transparent)

lemma encode_encodable:
  assumes "encodable (PDict m)"
  shows "\<exists>bs. encode_json_line m = Inr bs"
proof -
  have "transparent (dumps False (PDict m) @ [CHR 0x0A])"
    using transparent_dumps[OF assms] by (intro transparent_append transparent_Cons) (simp_all add: less_char_def)
  then show ?thesis by (auto simp: encode_json_line_def utf8_encode_def dest: transparent_valid)
qed

end
