(* ===== verification/Config.thy ===== *)
theory Config
  imports PyValue
begin

text \<open>
  \<^verbatim>\<open>rpi/backend/sdr_backend/config.py\<close>. The sections of the configuration are dataclass
  instances that \<open>_merge_dataclass\<close> reads and writes by attribute name and that the file may give
  values of any type, so an instance is the dictionary of its attributes in the order of
  declaration, which is also what \<open>asdict\<close> returns. \<open>AppConfig\<close> is the record of its sections.

  What \<open>yaml.safe_load\<close> returns is a parameter: a mapping whose keys are strings or something else
  (\<open>KOther\<close>) and whose values are mappings again, or any other value. \<open>class_attr\<close> stands for the
  names \<open>hasattr\<close> also finds on every instance (\<open>__doc__\<close>, \<open>__class__\<close>, ...), with the
  exception the interpreter raises when one of them is assigned.

  Shown here: loading keeps exactly the declared attributes, and each has the value the file gives
  it or its default, whatever else the file holds.
\<close>

section \<open>Sections\<close>

definition DeviceConfig :: pydict where
  "DeviceConfig = [(''host'', PStr ''127.0.0.1''), (''control_port'', PInt 9000),
     (''raw_capture_port'', PInt 9004), (''client_name'', PStr ''rpi-sdr-backend'')]"

definition UdpConfig :: pydict where
  "UdpConfig = [(''bind_host'', PStr ''0.0.0.0''), (''iq_port'', PInt 9001), (''psd_port'', PInt 9002),
     (''status_port'', PInt 9003)]"

definition FrontendConfig :: pydict where
  "FrontendConfig = [(''attenuator_db'', PInt 10), (''lna'', PStr ''bypass''), (''filter'', PStr ''LPF_108M'')]"

definition RxConfig :: pydict where
  "RxConfig = [(''stream_id'', PInt 0), (''adc_channel'', PInt 0), (''frequency_hz'', PInt 98500000),
     (''mode'', PStr ''WFM''), (''iq_sample_rate_hz'', PInt 1000000), (''bandwidth_hz'', PInt 250000),
     (''sample_format'', PStr ''SC16_LE''), (''enable'', PBool True)]"

definition PsdConfig :: pydict where
  "PsdConfig = [(''psd_id'', PInt 0), (''source'', PStr ''adc0''), (''enable'', PBool True),
     (''start_frequency_hz'', PInt 500000), (''stop_frequency_hz'', PInt 108000000),
     (''fft_size'', PInt 16384), (''output_bins'', PInt 4096), (''fps'', PInt 10),
     (''sample_format'', PStr ''I16_DBFS_Q8'')]"

definition DspConfig :: pydict where
  "DspConfig = [(''audio_sample_rate_hz'', PInt 48000), (''audio_frame_ms'', PInt 20),
     (''fft_size'', PInt 2048), (''wfm_deemphasis_us'', PFloat (FFin 50)), (''squelch_db'', PFloat (FFin (- 80)))]"

definition WebConfig :: pydict where
  "WebConfig = [(''host'', PStr ''0.0.0.0''), (''port'', PInt 8080), (''static_dir'', PStr ''rpi/frontend/dist'')]"

record AppConfig =
  ac_device :: pydict
  ac_udp :: pydict
  ac_frontend :: pydict
  ac_rx :: pydict
  ac_psd :: pydict
  ac_dsp :: pydict
  ac_web :: pydict

definition app_config_default :: AppConfig where
  "app_config_default = \<lparr>ac_device = DeviceConfig, ac_udp = UdpConfig, ac_frontend = FrontendConfig,
     ac_rx = RxConfig, ac_psd = PsdConfig, ac_dsp = DspConfig, ac_web = WebConfig\<rparr>"

section \<open>Loading\<close>

datatype ykey = KStr string | KOther
type_synonym ymapping = "(ykey \<times> pyval) list"
datatype yvalue = YMap ymapping | YPlain pyval
datatype yfile = NoPath | NoFile | NoYaml | Broken exn | Document pyval | Sections "(ykey \<times> yvalue) list"

type_synonym class_attrs = "string \<Rightarrow> exn option"

text \<open>
  \<open>hasattr\<close> wants a string; an attribute that is neither a field nor of the class is skipped.
\<close>

fun merge_dataclass :: "class_attrs \<Rightarrow> ymapping \<Rightarrow> pydict \<Rightarrow> pydict \<times> unit result" where
  "merge_dataclass class_attr [] inst = (inst, Inr ())"
| "merge_dataclass class_attr ((KOther, v) # entries) inst =
     (inst, Inl (Exn TypeError ''attribute name must be string''))"
| "merge_dataclass class_attr ((KStr key, v) # entries) inst =
     (if map_of inst key \<noteq> None then merge_dataclass class_attr entries (dset inst key v)
      else case class_attr key of Some e \<Rightarrow> (inst, Inl e)
           | None \<Rightarrow> merge_dataclass class_attr entries inst)"

definition merge_section :: "class_attrs \<Rightarrow> (ykey \<times> yvalue) list \<Rightarrow> string \<Rightarrow> pydict \<Rightarrow> pydict result" where
  "merge_section class_attr data section_name section =
     (case map_of data (KStr section_name) of
        Some (YMap entries) \<Rightarrow>
          (case merge_dataclass class_attr entries section of (s, Inr _) \<Rightarrow> Inr s | (s, Inl e) \<Rightarrow> Inl e)
      | _ \<Rightarrow> Inr section)"

definition merge_sections :: "class_attrs \<Rightarrow> (ykey \<times> yvalue) list \<Rightarrow> AppConfig result" where
  "merge_sections class_attr data =
     rbind (merge_section class_attr data ''device'' DeviceConfig) (\<lambda>device.
     rbind (merge_section class_attr data ''udp'' UdpConfig) (\<lambda>udp.
     rbind (merge_section class_attr data ''frontend'' FrontendConfig) (\<lambda>frontend.
     rbind (merge_section class_attr data ''rx'' RxConfig) (\<lambda>rx.
     rbind (merge_section class_attr data ''psd'' PsdConfig) (\<lambda>psd.
     rbind (merge_section class_attr data ''dsp'' DspConfig) (\<lambda>dsp.
     rbind (merge_section class_attr data ''web'' WebConfig) (\<lambda>web.
     Inr \<lparr>ac_device = device, ac_udp = udp, ac_frontend = frontend, ac_rx = rx, ac_psd = psd,
          ac_dsp = dsp, ac_web = web\<rparr>)))))))"

text \<open>
  The file: no path given, no such file, no YAML library, an exception of the parser, or what the
  parser returned: \<open>Sections\<close>, a mapping, or \<open>Document\<close>, any value that is not a mapping.
\<close>

fun load_config :: "class_attrs \<Rightarrow> yfile \<Rightarrow> AppConfig result" where
  "load_config class_attr NoPath = Inr app_config_default"
| "load_config class_attr NoFile = Inr app_config_default"
| "load_config class_attr NoYaml = Inl (Exn RuntimeError ''PyYAML is required to load YAML config files'')"
| "load_config class_attr (Broken e) = Inl e"
| "load_config class_attr (Document v) =
     (if py_bool v then Inl (Exn ValueError ''config file must contain a mapping'')
      else Inr app_config_default)"
| "load_config class_attr (Sections data) = merge_sections class_attr data"

text \<open>\<open>main\<close> of \<^verbatim>\<open>main.py\<close> between loading and serving: the command line overrides the web section.\<close>

definition override_web :: "string option \<Rightarrow> int option \<Rightarrow> AppConfig \<Rightarrow> AppConfig" where
  "override_web host port config =
     (let c1 = (case host of Some h \<Rightarrow> if h \<noteq> [] then config\<lparr>ac_web := dset (ac_web config) ''host'' (PStr h)\<rparr> else config
                | None \<Rightarrow> config)
      in case port of Some p \<Rightarrow> if p \<noteq> 0 then c1\<lparr>ac_web := dset (ac_web c1) ''port'' (PInt p)\<rparr> else c1
         | None \<Rightarrow> c1)"

section \<open>What a loaded configuration holds\<close>

definition config_sections :: "(string \<times> (AppConfig \<Rightarrow> pydict) \<times> pydict) list" where
  "config_sections =
     [(''device'', ac_device, DeviceConfig), (''udp'', ac_udp, UdpConfig),
      (''frontend'', ac_frontend, FrontendConfig), (''rx'', ac_rx, RxConfig), (''psd'', ac_psd, PsdConfig),
      (''dsp'', ac_dsp, DspConfig), (''web'', ac_web, WebConfig)]"

text \<open>What the file says about an attribute; of several entries the last one counts.\<close>

definition given :: "(ykey \<times> yvalue) list \<Rightarrow> string \<Rightarrow> string \<Rightarrow> pyval option" where
  "given data section key =
     (case map_of data (KStr section) of Some (YMap entries) \<Rightarrow> map_of (rev entries) (KStr key) | _ \<Rightarrow> None)"

definition assignable :: "class_attrs \<Rightarrow> (ykey \<times> yvalue) list \<Rightarrow> bool" where
  "assignable class_attr data \<longleftrightarrow>
     list_all (\<lambda>(s, y). case y of YPlain v \<Rightarrow> True
       | YMap entries \<Rightarrow> list_all (\<lambda>(k, v). case k of KOther \<Rightarrow> False | KStr n \<Rightarrow> class_attr n = None) entries) data"

text \<open>Exactly the attributes of the defaults, each with its given value or its default.\<close>

definition overlaid :: "(string \<Rightarrow> pyval option) \<Rightarrow> pydict \<Rightarrow> pydict \<Rightarrow> bool" where
  "overlaid g defaults inst \<longleftrightarrow> set (map fst inst) = set (map fst defaults) \<and>
     (\<forall>k. map_of inst k = (if map_of defaults k = None then None
        else case g k of Some v \<Rightarrow> Some v | None \<Rightarrow> map_of defaults k))"

lemma overlaid_none: "overlaid (\<lambda>k. None) inst inst"
  by (simp add: overlaid_def)

lemma overlaid_dset:
  assumes "overlaid g (dset inst key v) inst'" and "map_of inst key \<noteq> None"
  shows "overlaid (\<lambda>k. case g k of Some w \<Rightarrow> Some w | None \<Rightarrow> if k = key then Some v else None) inst inst'"
proof -
  have "set (map fst (dset inst key v)) = set (map fst inst)"
    using keys_dset[of inst key v] assms(2) by (auto simp: map_of_eq_None_iff)
  with assms show ?thesis by (auto simp: overlaid_def split: option.splits)
qed

lemma overlaid_skip:
  assumes "overlaid g inst inst'" and "map_of inst key = None"
  shows "overlaid (\<lambda>k. case g k of Some w \<Rightarrow> Some w | None \<Rightarrow> if k = key then Some v else None) inst inst'"
  using assms by (auto simp: overlaid_def split: option.splits)

lemma merge_dataclass_ok:
  assumes "list_all (\<lambda>(k, v). case k of KOther \<Rightarrow> False | KStr n \<Rightarrow> class_attr n = None) entries"
  shows "\<exists>inst'. merge_dataclass class_attr entries inst = (inst', Inr ())
    \<and> overlaid (\<lambda>k. map_of (rev entries) (KStr k)) inst inst'"
  using assms
proof (induction class_attr entries inst rule: merge_dataclass.induct)
  case (1 class_attr inst)
  show ?case by (simp add: overlaid_none)
next
  case (3 class_attr key v entries inst)
  let ?g = "\<lambda>k. map_of (rev entries) (KStr k)"
  have g: "(\<lambda>k. map_of (rev ((KStr key, v) # entries)) (KStr k)) =
      (\<lambda>k. case ?g k of Some w \<Rightarrow> Some w | None \<Rightarrow> if k = key then Some v else None)"
    by (auto simp: map_add_def split: option.splits)
  have ok: "list_all (\<lambda>(k, v). case k of KOther \<Rightarrow> False | KStr n \<Rightarrow> class_attr n = None) entries"
    and c: "class_attr key = None" using 3 by simp_all
  show ?case
  proof (cases "map_of inst key = None")
    case True
    with 3(2)[OF _ c ok] obtain inst' where
      "merge_dataclass class_attr entries inst = (inst', Inr ())" "overlaid ?g inst inst'" by auto
    with True c show ?thesis unfolding g using overlaid_skip by simp
  next
    case False
    with 3(1)[OF False ok] obtain inst' where
      "merge_dataclass class_attr entries (dset inst key v) = (inst', Inr ())"
      "overlaid ?g (dset inst key v) inst'" by auto
    with False show ?thesis unfolding g using overlaid_dset by simp
  qed
qed simp

lemma merge_section_ok:
  assumes "assignable class_attr data"
  shows "\<exists>s. merge_section class_attr data name inst = Inr s \<and> overlaid (given data name) inst s"
proof (cases "\<exists>entries. map_of data (KStr name) = Some (YMap entries)")
  case True
  then obtain entries where y: "map_of data (KStr name) = Some (YMap entries)" by blast
  then have "(KStr name, YMap entries) \<in> set data" by (rule map_of_SomeD)
  with assms have "list_all (\<lambda>(k, v). case k of KOther \<Rightarrow> False | KStr n \<Rightarrow> class_attr n = None) entries"
    unfolding assignable_def by (subst (asm) list_all_iff) fastforce
  then obtain inst' where "merge_dataclass class_attr entries inst = (inst', Inr ())"
    "overlaid (\<lambda>k. map_of (rev entries) (KStr k)) inst inst'" using merge_dataclass_ok by blast
  with y show ?thesis by (simp add: merge_section_def given_def[abs_def])
next
  case False
  then have "given data name = (\<lambda>k. None)" "merge_section class_attr data name inst = Inr inst"
    by (auto simp: given_def merge_section_def split: option.splits yvalue.splits)
  then show ?thesis by (simp add: overlaid_none)
qed

text \<open>
  C28 (a configuration file is an overlay of the defaults). When the attribute names in the file are
  strings and none is a special name of the class, loading succeeds: every section has exactly its
  declared attributes, and each has the value the file gives in that section, or else its default;
  unknown attributes and sections that are not mappings are ignored.
\<close>

theorem load_config_overlays_defaults:
  assumes "assignable class_attr data"
  shows "\<exists>config. load_config class_attr (Sections data) = Inr config \<and>
    list_all (\<lambda>(name, sel, defaults). overlaid (given data name) defaults (sel config)) config_sections"
proof -
  note ok = merge_section_ok[OF assms]
  obtain a where a: "merge_section class_attr data ''device'' DeviceConfig = Inr a" using ok by blast
  obtain b where b: "merge_section class_attr data ''udp'' UdpConfig = Inr b" using ok by blast
  obtain c where c: "merge_section class_attr data ''frontend'' FrontendConfig = Inr c" using ok by blast
  obtain d where d: "merge_section class_attr data ''rx'' RxConfig = Inr d" using ok by blast
  obtain e where e: "merge_section class_attr data ''psd'' PsdConfig = Inr e" using ok by blast
  obtain f where f: "merge_section class_attr data ''dsp'' DspConfig = Inr f" using ok by blast
  obtain g where g: "merge_section class_attr data ''web'' WebConfig = Inr g" using ok by blast
  note parts = a b c d e f g
  have loaded: "load_config class_attr (Sections data) = Inr \<lparr>ac_device = a, ac_udp = b, ac_frontend = c,
      ac_rx = d, ac_psd = e, ac_dsp = f, ac_web = g\<rparr>"
    by (simp add: merge_sections_def parts)
  have "overlaid (given data name) defaults s" if "merge_section class_attr data name defaults = Inr s"
    for name defaults s using ok[of name defaults] that by auto
  note part = parts[THEN this]
  show ?thesis using loaded by (simp add: config_sections_def part)
qed

theorem load_config_overlays_defaults_witness:
  "\<exists>config. load_config (\<lambda>_. None) (Sections [(KStr ''device'', YMap [(KStr ''host'', PStr ''10.0.0.2''),
      (KStr ''colour'', PInt 3)]), (KStr ''udp'', YPlain PNone)]) = Inr config
    \<and> map_of (ac_device config) ''host'' = Some (PStr ''10.0.0.2'')
    \<and> map_of (ac_device config) ''control_port'' = Some (PInt 9000)
    \<and> map_of (ac_device config) ''colour'' = None
    \<and> map_of (ac_udp config) ''iq_port'' = Some (PInt 9001)"
proof -
  let ?data = "[(KStr ''device'', YMap [(KStr ''host'', PStr ''10.0.0.2''), (KStr ''colour'', PInt 3)]),
      (KStr ''udp'', YPlain PNone)]"
  have "assignable (\<lambda>_. None) ?data" by (simp add: assignable_def)
  from load_config_overlays_defaults[OF this] obtain config where
    c: "load_config (\<lambda>_. None) (Sections ?data) = Inr config" and
    s: "overlaid (given ?data ''device'') DeviceConfig (ac_device config)"
      "overlaid (given ?data ''udp'') UdpConfig (ac_udp config)"
    by (auto simp: config_sections_def)
  then show ?thesis
    by (intro exI[of _ config]) (simp add: overlaid_def given_def DeviceConfig_def UdpConfig_def)
qed

end
