(* ===== verification/Device_Client.thy ===== *)
theory Device_Client
  imports Message_Encoding Config
begin

text \<open>
  \<^verbatim>\<open>rpi/backend/sdr_backend/device_client.py\<close>: the client of the control connection. Reader and
  writer are set and cleared together; they are a \<open>link\<close> with the bytes received and not yet read
  and the bytes written. The lock of \<open>request\<close> makes one request a step: what the network does
  during it is an \<open>io\<close>: an exception of \<open>drain\<close>, the bytes that arrive before the deadline of
  five seconds, whether the peer has closed its side, and the exception a broken connection leaves
  in the reader. \<open>open_connection\<close> is the exception it raises, if any.

  Shown here: a connection attempt ends connected with a running heartbeat or completely closed, a
  request returns only answers to itself, and an answer that comes after its deadline puts the
  client one answer behind for the rest of the connection.
\<close>

section \<open>State\<close>

record link =
  lk_closing :: bool
  lk_buffer :: bytes
  lk_sent :: bytes

record DeviceClient =
  dc_device :: pydict
  dc_udp :: pydict
  dc_link :: "link option"
  dc_request_id :: int
  dc_heartbeat :: bool

record io =
  io_drain :: "exn option"
  io_failed :: "exn option"
  io_arrived :: bytes
  io_eof :: bool

definition client_init :: "pydict \<Rightarrow> pydict \<Rightarrow> DeviceClient" where
  "client_init device udp = \<lparr>dc_device = device, dc_udp = udp, dc_link = None, dc_request_id = 0,
     dc_heartbeat = False\<rparr>"

definition fresh_link :: link where
  "fresh_link = \<lparr>lk_closing = False, lk_buffer = [], lk_sent = []\<rparr>"

definition connected :: "DeviceClient \<Rightarrow> bool" where
  "connected c = (case dc_link c of None \<Rightarrow> False | Some l \<Rightarrow> \<not> lk_closing l)"

section \<open>Requests\<close>

text \<open>Calling \<open>f(..., **fields)\<close> where a field has the name of a positional parameter.\<close>

definition call_kwargs :: "string \<Rightarrow> string list \<Rightarrow> pydict \<Rightarrow> unit result" where
  "call_kwargs fn params kw =
     (case filter (\<lambda>k. k \<in> set params) (map fst kw) of [] \<Rightarrow> Inr ()
      | k # _ \<Rightarrow> Inl (Exn TypeError (fn @ ''() got multiple values for argument '' @ repr_str k)))"

definition await_line :: "io \<Rightarrow> bytes \<Rightarrow> bytes \<times> bytes result" where
  "await_line io buffer =
     (case io_failed io of Some e \<Rightarrow> (buffer, Inl e)
      | None \<Rightarrow>
        (let b = buffer @ io_arrived io in
         if newline \<in> set b then (snd (readline b), Inr (fst (readline b)))
         else if io_eof io then ([], Inr b)
         else (b, Inl (Exn TimeoutError ''''))))"

text \<open>The part of \<open>request\<close> after the line was read.\<close>

definition accept_response :: "int \<Rightarrow> bytes \<Rightarrow> pydict result" where
  "accept_response request_id line =
     (if line = [] then Inl (Exn DeviceClientError ''device closed control connection'')
      else rbind (decode_json_line line) (\<lambda>response.
        if \<not> py_eq_int (dget response ''request_id'' PNone) request_id
        then Inl (Exn DeviceClientError ''response request_id mismatch'')
        else if \<not> py_bool (dget response ''ok'' (PBool False))
        then (let error = dget response ''error'' PNone in
              case (if py_bool error then error else PDict []) of
                PDict d \<Rightarrow> Inl (Exn DeviceClientError
                  (py_str (dget d ''code'' (PStr ''error'')) @ '': '' @ py_str (dget d ''message'' (PStr ''''))))
              | v \<Rightarrow> Inl (Exn AttributeError (repr_str (type_name v) @ '' object has no attribute '' @ repr_str ''get'')))
        else Inr response))"

definition request :: "io \<Rightarrow> string \<Rightarrow> pydict \<Rightarrow> DeviceClient \<Rightarrow> DeviceClient \<times> pydict result" where
  "request io cmd kw c =
     (case call_kwargs ''DeviceClient.request'' [''self'', ''cmd''] kw of Inl e \<Rightarrow> (c, Inl e)
      | Inr _ \<Rightarrow>
      (case dc_link c of None \<Rightarrow> (c, Inl (Exn DeviceClientError ''device is not connected''))
       | Some link \<Rightarrow>
         (let request_id = dc_request_id c + 1;
              c1 = c\<lparr>dc_request_id := request_id\<rparr>
          in case rbind (call_kwargs ''build_request'' [''request_id'', ''cmd''] kw) (\<lambda>_.
                  encode_json_line (build_request request_id cmd kw)) of
               Inl e \<Rightarrow> (c1, Inl e)
             | Inr line \<Rightarrow>
               (let link1 = link\<lparr>lk_sent := lk_sent link @ line\<rparr> in
                case io_drain io of Some e \<Rightarrow> (c1\<lparr>dc_link := Some link1\<rparr>, Inl e)
                | None \<Rightarrow>
                  (let (rest, r) = await_line io (lk_buffer link1)
                   in (c1\<lparr>dc_link := Some (link1\<lparr>lk_buffer := rest\<rparr>)\<rparr>, rbind r (accept_response request_id)))))))"

definition client_call :: "string \<Rightarrow> io \<Rightarrow> pydict \<Rightarrow> DeviceClient \<Rightarrow> DeviceClient \<times> pydict result" where
  "client_call cmd io kw c =
     (case call_kwargs (''DeviceClient.'' @ cmd) [''self''] kw of Inl e \<Rightarrow> (c, Inl e)
      | Inr _ \<Rightarrow> request io cmd kw c)"

definition client_set_frontend :: "io \<Rightarrow> pydict \<Rightarrow> DeviceClient \<Rightarrow> DeviceClient \<times> pydict result" where
  "client_set_frontend = client_call ''set_frontend''"

definition client_set_rx :: "io \<Rightarrow> pydict \<Rightarrow> DeviceClient \<Rightarrow> DeviceClient \<times> pydict result" where
  "client_set_rx = client_call ''set_rx''"

definition client_set_psd :: "io \<Rightarrow> pydict \<Rightarrow> DeviceClient \<Rightarrow> DeviceClient \<times> pydict result" where
  "client_set_psd = client_call ''set_psd''"

definition client_stop_all :: "io \<Rightarrow> DeviceClient \<Rightarrow> DeviceClient \<times> pydict result" where
  "client_stop_all io = request io ''stop_all'' []"

definition client_get_status :: "io \<Rightarrow> DeviceClient \<Rightarrow> DeviceClient \<times> pydict result" where
  "client_get_status io = request io ''get_status'' []"

section \<open>Connecting and closing\<close>

definition close :: "DeviceClient \<Rightarrow> DeviceClient" where
  "close c = c\<lparr>dc_heartbeat := False, dc_link := None\<rparr>"

definition hello_fields :: "DeviceClient \<Rightarrow> pydict" where
  "hello_fields c =
     [(''protocol_version'', PInt 1), (''client_name'', dget (dc_device c) ''client_name'' PNone),
      (''udp'', PDict [(''iq_port'', dget (dc_udp c) ''iq_port'' PNone),
         (''psd_port'', dget (dc_udp c) ''psd_port'' PNone),
         (''status_port'', dget (dc_udp c) ''status_port'' PNone)])]"

definition connect_failed :: "exn \<Rightarrow> DeviceClient \<Rightarrow> DeviceClient \<times> pydict result" where
  "connect_failed e c =
     (close c,
      Inl (if subclass_of (exn_cls e) OSError \<or> subclass_of (exn_cls e) TimeoutError
           then Exn DeviceClientError (''could not connect to '' @ py_str (dget (dc_device c) ''host'' PNone) @ '':'' @
             py_str (dget (dc_device c) ''control_port'' PNone) @ '': '' @ exn_str e)
           else e))"

definition connect :: "string option \<Rightarrow> exn option \<Rightarrow> io \<Rightarrow> DeviceClient \<Rightarrow> DeviceClient \<times> pydict result" where
  "connect host open_connection io c =
     (let c1 = (case host of Some h \<Rightarrow> if h \<noteq> [] then c\<lparr>dc_device := dset (dc_device c) ''host'' (PStr h)\<rparr> else c
                | None \<Rightarrow> c);
          c2 = close c1
      in case open_connection of Some e \<Rightarrow> connect_failed e c2
         | None \<Rightarrow>
           (case request io ''hello'' (hello_fields c2) (c2\<lparr>dc_link := Some fresh_link\<rparr>) of
              (c3, Inl e) \<Rightarrow> connect_failed e c3
            | (c3, Inr hello) \<Rightarrow> (c3\<lparr>dc_heartbeat := True\<rparr>, Inr hello)))"

text \<open>One round of \<open>_heartbeat_loop\<close>; any exception of the ping closes the client.\<close>

definition heartbeat_tick :: "io \<Rightarrow> DeviceClient \<Rightarrow> DeviceClient" where
  "heartbeat_tick io c =
     (if dc_heartbeat c \<and> connected c
      then (case request io ''ping'' [(''client_time_ms'', PInt 0)] c of
              (c1, Inl e) \<Rightarrow> close c1 | (c1, Inr _) \<Rightarrow> c1)
      else c)"

section \<open>What a request does\<close>

text \<open>A response the client takes for the answer to its request \<open>i\<close>.\<close>

definition answers :: "int \<Rightarrow> pydict \<Rightarrow> bool" where
  "answers i resp \<longleftrightarrow> py_eq_int (dget resp ''request_id'' PNone) i \<and> py_bool (dget resp ''ok'' (PBool False))"

lemma accept_response_Inr: "accept_response i line = Inr resp \<Longrightarrow> decode_json_line line = Inr resp \<and> answers i resp"
  by (auto simp: accept_response_def answers_def rbind_eq_Inr Let_def split: if_splits pyval.splits)

lemma accept_response_mismatch:
  assumes "line \<noteq> []" "decode_json_line line = Inr resp" "\<not> py_eq_int (dget resp ''request_id'' PNone) i"
  shows "accept_response i line = Inl (Exn DeviceClientError ''response request_id mismatch'')"
  using assms by (simp add: accept_response_def)

lemma request_Inr:
  assumes "request io cmd kw c = (c', Inr resp)"
  shows "dc_request_id c' = dc_request_id c + 1 \<and> answers (dc_request_id c') resp \<and> dc_heartbeat c' = dc_heartbeat c
    \<and> connected c' = connected c \<and> dc_link c' \<noteq> None"
  using assms
  by (auto simp: request_def Let_def rbind_eq_Inr connected_def split: sum.splits option.splits prod.splits
      dest!: accept_response_Inr)

lemma request_frame:
  "dc_device (fst (request io cmd kw c)) = dc_device c" "dc_udp (fst (request io cmd kw c)) = dc_udp c"
  "dc_heartbeat (fst (request io cmd kw c)) = dc_heartbeat c"
  "dc_link (fst (request io cmd kw c)) = None \<longleftrightarrow> dc_link c = None"
  "connected (fst (request io cmd kw c)) = connected c"
  by (auto simp: request_def Let_def connected_def split: sum.splits option.splits prod.splits)

lemma close_simps [simp]:
  "dc_link (close c) = None" "dc_heartbeat (close c) = False" "dc_device (close c) = dc_device c"
  "dc_udp (close c) = dc_udp c" "dc_request_id (close c) = dc_request_id c" "connected (close c) = False"
  by (simp_all add: close_def connected_def)

lemma connect_failed_eq:
  "connect_failed e c = (c', Inl e') \<Longrightarrow> c' = close c \<and> \<not> subclass_of (exn_cls e') OSError"
  "connect_failed e c \<noteq> (c', Inr r)"
  by (auto simp: connect_failed_def subclass_of_def split: if_splits)

lemma connect_Inr:
  assumes "connect host opened io c = (c', Inr hello)"
  shows "connected c' \<and> dc_heartbeat c' \<and> dc_request_id c' = dc_request_id c + 1
    \<and> answers (dc_request_id c') hello"
  using assms
  by (auto simp: connect_def Let_def connected_def fresh_link_def connect_failed_eq(2)
      split: option.splits sum.splits prod.splits if_splits dest!: request_Inr)

lemma connect_Inl:
  assumes "connect host opened io c = (c', Inl e)"
  shows "\<exists>c''. c' = close c'' \<and> \<not> subclass_of (exn_cls e) OSError"
  using assms
  by (auto simp: connect_def Let_def split: option.splits sum.splits prod.splits if_splits
      dest!: connect_failed_eq(1))

text \<open>
  A connection attempt is all or nothing. \<open>connect\<close> returns the device's answer to its hello,
  with the client connected and the heartbeat running; or it raises, and then nothing is left of
  the new or of the old connection and no error of the operating system escapes as such.
\<close>

theorem connect_outcome:
  "case connect host open_connection io c of
     (c', Inr hello) \<Rightarrow> connected c' \<and> dc_heartbeat c' \<and> dc_request_id c' = dc_request_id c + 1
       \<and> answers (dc_request_id c') hello
   | (c', Inl e) \<Rightarrow> dc_link c' = None \<and> \<not> dc_heartbeat c' \<and> \<not> connected c' \<and> \<not> subclass_of (exn_cls e) OSError"
  by (auto split: prod.splits sum.splits dest: connect_Inr connect_Inl)

section \<open>The client as an event machine\<close>

datatype client_event =
    ConnectTo "string option" "exn option" io | Call string pydict io | Heartbeat io | CloseClient | LinkLost

fun client_step :: "DeviceClient \<Rightarrow> client_event \<Rightarrow> DeviceClient" where
  "client_step c (ConnectTo host opened io) = fst (connect host opened io c)"
| "client_step c (Call cmd kw io) = fst (client_call cmd io kw c)"
| "client_step c (Heartbeat io) = heartbeat_tick io c"
| "client_step c CloseClient = close c"
| "client_step c LinkLost = c\<lparr>dc_link := map_option (\<lambda>l. l\<lparr>lk_closing := True\<rparr>) (dc_link c)\<rparr>"

definition client_inv :: "DeviceClient \<Rightarrow> bool" where
  "client_inv c \<longleftrightarrow> (dc_heartbeat c \<longrightarrow> dc_link c \<noteq> None)"

lemma client_inv_close [simp]: "client_inv (close c)"
  by (simp add: client_inv_def)

lemma client_inv_request: "client_inv c \<Longrightarrow> client_inv (fst (request io cmd kw c))"
  by (simp add: client_inv_def request_frame)

lemma client_inv_connect: "client_inv (fst (connect host opened io c))"
proof (cases "connect host opened io c")
  case (Pair c' r)
  then show ?thesis
    by (cases r) (auto simp: client_inv_def connected_def split: option.splits dest: connect_Inr dest!: connect_Inl)
qed

lemma client_inv_step: "client_inv c \<Longrightarrow> client_inv (client_step c e)"
proof (cases e)
  case (Heartbeat io)
  assume "client_inv c"
  then show ?thesis using client_inv_request[of c io "''ping''" "[(''client_time_ms'', PInt 0)]"] Heartbeat
    by (auto simp: heartbeat_tick_def split: prod.splits sum.splits)
next
  case LinkLost
  then show "client_inv c \<Longrightarrow> ?thesis" by (simp add: client_inv_def)
qed (simp_all add: client_inv_connect client_inv_request client_call_def split: sum.splits)

interpretation clim: event_machine client_step client_inv
  by unfold_locales (rule client_inv_step)

lemma heartbeat_needs_link: "dc_heartbeat (foldl client_step (client_init device udp) es) \<Longrightarrow>
    dc_link (foldl client_step (client_init device udp) es) \<noteq> None"
  using clim.run_inv[of "client_init device udp" es] by (simp add: client_inv_def client_init_def)

section \<open>Answers in and out of step\<close>

text \<open>A request that can be sent: no field has the name of a parameter, and the message has an encoding.\<close>

definition sendable_request :: "int \<Rightarrow> string \<Rightarrow> pydict \<Rightarrow> bool" where
  "sendable_request i cmd kw \<longleftrightarrow> {''self'', ''cmd'', ''request_id''} \<inter> set (map fst kw) = {}
     \<and> (\<exists>line. encode_json_line (build_request i cmd kw) = Inr line)"

definition a_line :: "bytes \<Rightarrow> bool" where
  "a_line bs \<longleftrightarrow> bs \<noteq> [] \<and> last bs = newline \<and> newline \<notin> set (butlast bs)"

lemma readline_a_line: "a_line l \<Longrightarrow> newline \<in> set (l @ rest) \<and> readline (l @ rest) = (l, rest)"
proof -
  assume "a_line l"
  then have l: "l = butlast l @ [newline]" "newline \<notin> set (butlast l)"
    by (auto simp: a_line_def) (metis append_butlast_last_id)
  show ?thesis using readline_line[OF l(2), of rest] l(1) by (metis append.assoc append_Cons append_Nil in_set_conv_decomp)
qed

lemma encode_a_line: "encode_json_line m = Inr bs \<Longrightarrow> a_line bs"
  by (drule encode_line_shape) (auto simp: a_line_def)

lemma call_kwargs_ok: "set params \<inter> set (map fst kw) = {} \<Longrightarrow> call_kwargs fn params kw = Inr ()"
proof -
  assume "set params \<inter> set (map fst kw) = {}"
  then have "filter (\<lambda>k. k \<in> set params) (map fst kw) = []" by (auto simp: filter_empty_conv)
  then show ?thesis by (simp add: call_kwargs_def)
qed

lemma request_sent:
  assumes "sendable_request (dc_request_id c + 1) cmd kw" and "dc_link c = Some l" and "io_drain io = None"
    and "await_line io (lk_buffer l) = (rest, r)"
  shows "\<exists>l'. lk_buffer l' = rest \<and> lk_closing l' = lk_closing l \<and>
    request io cmd kw c = (c\<lparr>dc_request_id := dc_request_id c + 1, dc_link := Some l'\<rparr>,
      rbind r (accept_response (dc_request_id c + 1)))"
proof -
  obtain line where e: "encode_json_line (build_request (dc_request_id c + 1) cmd kw) = Inr line"
    using assms(1) by (auto simp: sendable_request_def)
  have k: "call_kwargs ''DeviceClient.request'' [''self'', ''cmd''] kw = Inr ()"
    "call_kwargs ''build_request'' [''request_id'', ''cmd''] kw = Inr ()"
    using assms(1) by (intro call_kwargs_ok; auto simp: sendable_request_def)+
  show ?thesis
    by (rule exI[of _ "l\<lparr>lk_sent := lk_sent l @ line, lk_buffer := rest\<rparr>"])
      (simp add: request_def Let_def k e assms(2-4))
qed

lemma sendable_requestI:
  assumes "{''self'', ''cmd'', ''request_id''} \<inter> set (map fst kw) = {}" and "utf8_valid cmd" and "encodable (PDict kw)"
  shows "sendable_request i cmd kw"
proof -
  have "encodable (PDict (build_request i cmd kw))" using assms(2,3)
    by (auto simp: build_request_def less_char_def intro!: list_all_dupdate)
  with assms(1) show ?thesis using encode_encodable by (auto simp: sendable_request_def)
qed

lemma sendable_ping: "sendable_request i ''ping'' [(''client_time_ms'', PInt 0)]"
  by (rule sendable_requestI) (simp_all add: less_char_def)

text \<open>
  C39 (a late answer puts the client out of step). When the answer to a request comes after the
  deadline, the request fails with a timeout and the connection stays open; the next request then
  reads that late answer, fails with a mismatch of the identifiers and leaves its own answer in the
  buffer for the request after it. A running heartbeat, whose ping fails the same way, closes the
  connection.
\<close>

theorem late_answer_desynchronises:
  assumes "dc_link c = Some l" and "lk_buffer l = []" and "i = dc_request_id c + 1"
    and "sendable_request i cmd1 kw1" and "sendable_request (i + 1) cmd2 kw2"
    and "a_line late" and "decode_json_line late = Inr resp" and "dget resp ''request_id'' PNone = PInt i"
    and "a_line own"
    and "quiet_io = \<lparr>io_drain = None, io_failed = None, io_arrived = [], io_eof = False\<rparr>"
  shows "\<exists>c1 c2 l2. request quiet_io cmd1 kw1 c = (c1, Inl (Exn TimeoutError ''''))
    \<and> request (quiet_io\<lparr>io_arrived := late @ own\<rparr>) cmd2 kw2 c1 =
        (c2, Inl (Exn DeviceClientError ''response request_id mismatch''))
    \<and> dc_link c2 = Some l2 \<and> lk_buffer l2 = own
    \<and> (dc_heartbeat c \<and> \<not> lk_closing l \<longrightarrow> heartbeat_tick (quiet_io\<lparr>io_arrived := late @ own\<rparr>) c1 =
         close (fst (request (quiet_io\<lparr>io_arrived := late @ own\<rparr>) ''ping'' [(''client_time_ms'', PInt 0)] c1)))"
proof -
  note io = assms(10)
  have "await_line quiet_io (lk_buffer l) = ([], Inl (Exn TimeoutError ''''))"
    by (simp add: await_line_def io assms(2) readline_def)
  from request_sent[OF assms(4)[unfolded assms(3)] assms(1) _ this] io obtain l1 where l1: "lk_buffer l1 = []"
    "lk_closing l1 = lk_closing l"
    and r1: "request quiet_io cmd1 kw1 c = (c\<lparr>dc_request_id := i, dc_link := Some l1\<rparr>, Inl (Exn TimeoutError ''''))"
    (is "_ = (?c1, _)") using assms(3) by auto
  let ?io = "quiet_io\<lparr>io_arrived := late @ own\<rparr>"
  have w: "await_line ?io (lk_buffer l1) = (own, Inr late)"
    using readline_a_line[OF assms(6), of own] by (simp add: await_line_def io l1)
  have bad: "accept_response (i + 1) late = Inl (Exn DeviceClientError ''response request_id mismatch'')"
    using assms(6-8) by (intro accept_response_mismatch) (auto simp: a_line_def)
  have s2: "sendable_request (dc_request_id ?c1 + 1) cmd2 kw2" using assms(5) by simp
  have d: "io_drain ?io = None" "dc_link ?c1 = Some l1" by (simp_all add: io)
  from request_sent[OF s2 d(2) d(1) w] obtain l2 where l2: "lk_buffer l2 = own"
    and r2: "request ?io cmd2 kw2 ?c1 = (?c1\<lparr>dc_request_id := i + 1, dc_link := Some l2\<rparr>,
        Inl (Exn DeviceClientError ''response request_id mismatch''))" using bad by auto
  have sp: "sendable_request (dc_request_id ?c1 + 1) ''ping'' [(''client_time_ms'', PInt 0)]"
    by (rule sendable_ping)
  from request_sent[OF sp d(2) d(1) w] bad have
    "snd (request ?io ''ping'' [(''client_time_ms'', PInt 0)] ?c1) =
      Inl (Exn DeviceClientError ''response request_id mismatch'')" by auto
  then have "heartbeat_tick ?io ?c1 = close (fst (request ?io ''ping'' [(''client_time_ms'', PInt 0)] ?c1))"
    if "dc_heartbeat c" "\<not> lk_closing l" using that l1
    by (auto simp: heartbeat_tick_def connected_def split: prod.splits sum.splits)
  with r1 r2 l2 show ?thesis by auto
qed

definition demo_client :: DeviceClient where
  "demo_client = (client_init DeviceConfig UdpConfig)\<lparr>dc_link := Some fresh_link, dc_heartbeat := True\<rparr>"

theorem late_answer_desynchronises_witness:
  "\<exists>late own quiet_io c1 c2 l2. encode_json_line (build_response (PInt 1) True []) = Inr late
    \<and> encode_json_line (build_response (PInt 2) True []) = Inr own
    \<and> request quiet_io ''stop_all'' [] demo_client = (c1, Inl (Exn TimeoutError ''''))
    \<and> request (quiet_io\<lparr>io_arrived := late @ own\<rparr>) ''get_status'' [] c1 =
        (c2, Inl (Exn DeviceClientError ''response request_id mismatch''))
    \<and> dc_link c2 = Some l2 \<and> lk_buffer l2 = own"
proof -
  let ?m = "\<lambda>n. build_response (PInt n) True []"
  have m: "?m n = [(''request_id'', PInt n), (''ok'', PBool True)]" for n
    by (simp add: build_response_eq dict_ok_def)
  have e: "encodable (PDict (?m n))" for n by (simp add: m less_char_def)
  obtain late own where l: "encode_json_line (?m 1) = Inr late" "encode_json_line (?m 2) = Inr own"
    using encode_encodable[OF e] by blast
  have d: "decode_json_line late = Inr (?m 1)" by (rule decode_encode[OF l(1)]) (simp add: m dict_ok_def)
  have s: "sendable_request i ''stop_all'' []" "sendable_request i ''get_status'' []" for i
    by (rule sendable_requestI; simp add: less_char_def)+
  have c: "dc_link demo_client = Some fresh_link" "lk_buffer fresh_link = []" "1 = dc_request_id demo_client + 1"
    by (simp_all add: demo_client_def client_init_def fresh_link_def)
  have r: "dget (?m 1) ''request_id'' PNone = PInt 1" by (simp add: m dget_def)
  from late_answer_desynchronises[OF c s encode_a_line[OF l(1)] d r encode_a_line[OF l(2)] refl] l
  show ?thesis by blast
qed

end
