(* ===== verification/Broadcast.thy ===== *)
theory Broadcast
  imports Prelude "HOL-Library.Sublist"
begin

text \<open>
  \<^verbatim>\<open>rpi/backend/sdr_backend/broadcast.py\<close>: one bounded \<open>asyncio.Queue\<close> per subscriber. A queue is
  the list of its items, oldest first; the set of queues is an association list from the identity
  of a queue to its items (a new queue gets a fresh identity). \<open>publish\<close> puts the item into every
  queue and throws the oldest item of a full queue away. The loop is written out with the two
  exceptions of \<open>asyncio.Queue\<close>, of which the source catches only \<open>QueueEmpty\<close> in the second
  attempt.
\<close>

section \<open>asyncio.Queue\<close>

definition q_full :: "int \<Rightarrow> 'a list \<Rightarrow> bool" where
  "q_full maxsize q \<longleftrightarrow> 0 < maxsize \<and> maxsize \<le> int (length q)"

definition put_nowait :: "int \<Rightarrow> 'a list \<Rightarrow> 'a \<Rightarrow> 'a list option" where
  "put_nowait maxsize q x = (if q_full maxsize q then None else Some (q @ [x]))"

definition get_nowait :: "'a list \<Rightarrow> ('a \<times> 'a list) option" where
  "get_nowait q = (case q of [] \<Rightarrow> None | x # xs \<Rightarrow> Some (x, xs))"

section \<open>Broadcaster\<close>

record 'a Broadcaster =
  b_max_queue :: int
  b_queues :: "(nat \<times> 'a list) list"

definition broadcaster_init :: "int \<Rightarrow> 'a Broadcaster" where
  "broadcaster_init max_queue = \<lparr>b_max_queue = max_queue, b_queues = []\<rparr>"

definition subscribe :: "nat \<Rightarrow> 'a Broadcaster \<Rightarrow> 'a Broadcaster" where
  "subscribe i b = b\<lparr>b_queues := dset (b_queues b) i []\<rparr>"

definition unsubscribe :: "nat \<Rightarrow> 'a Broadcaster \<Rightarrow> 'a Broadcaster" where
  "unsubscribe i b = b\<lparr>b_queues := ddel (b_queues b) i\<rparr>"

fun publish_loop :: "int \<Rightarrow> 'a \<Rightarrow> (nat \<times> 'a list) list \<Rightarrow> (nat \<times> 'a list) list \<times> nat list \<times> unit result" where
  "publish_loop m x [] = ([], [], Inr ())"
| "publish_loop m x ((i, q) # rest) =
     (let (rs, stale, r) = publish_loop m x rest
      in case put_nowait m q x of Some q' \<Rightarrow> ((i, q') # rs, stale, r)
         | None \<Rightarrow>
           (case get_nowait q of None \<Rightarrow> ((i, q) # rs, i # stale, r)
            | Some (_, q1) \<Rightarrow>
              (case put_nowait m q1 x of Some q2 \<Rightarrow> ((i, q2) # rs, stale, r)
               | None \<Rightarrow> ((i, q1) # rest, [], Inl (Exn Exception ''QueueFull'')))))"

definition publish :: "'a \<Rightarrow> 'a Broadcaster \<Rightarrow> 'a Broadcaster \<times> unit result" where
  "publish item b =
     (case publish_loop (b_max_queue b) item (b_queues b) of
        (qs, stale, Inl e) \<Rightarrow> (b\<lparr>b_queues := qs\<rparr>, Inl e)
      | (qs, stale, Inr _) \<Rightarrow> (b\<lparr>b_queues := foldl ddel qs stale\<rparr>, Inr ()))"

text \<open>A subscriber takes the next item of its queue (\<open>await queue.get()\<close> when one is there).\<close>

definition take_item :: "nat \<Rightarrow> 'a Broadcaster \<Rightarrow> ('a \<times> 'a Broadcaster) option" where
  "take_item i b =
     (case map_of (b_queues b) i of None \<Rightarrow> None
      | Some q \<Rightarrow> (case get_nowait q of None \<Rightarrow> None
                  | Some (x, q1) \<Rightarrow> Some (x, b\<lparr>b_queues := dset (b_queues b) i q1\<rparr>)))"

section \<open>Specification: a sliding window\<close>

definition window :: "int \<Rightarrow> 'a list \<Rightarrow> 'a list" where
  "window m xs = (if 0 < m then drop (length xs - nat m) xs else xs)"

definition bounded :: "int \<Rightarrow> 'a list \<Rightarrow> bool" where
  "bounded m q \<longleftrightarrow> m \<le> 0 \<or> int (length q) \<le> m"

definition b_inv :: "'a Broadcaster \<Rightarrow> bool" where
  "b_inv b \<longleftrightarrow> dict_ok (b_queues b) \<and> (\<forall>(i, q) \<in> set (b_queues b). bounded (b_max_queue b) q)"

lemma bounded_window [simp]: "bounded m (window m xs)"
  by (auto simp: bounded_def window_def)

lemma window_id: "bounded m q \<Longrightarrow> window m q = q"
  by (auto simp: bounded_def window_def)

lemma window_drop: "0 < m \<Longrightarrow> window m xs = drop (length xs - nat m) xs"
  by (simp add: window_def)

lemma window_window_append: "window m (window m xs @ ys) = window m (xs @ ys)"
proof (cases "0 < m \<and> nat m < length xs")
  case True
  then have "window m (window m xs @ ys) = drop (length ys) (drop (length xs - nat m) xs @ ys)"
    by (simp add: window_drop)
  also have "\<dots> = drop (length xs + length ys - nat m) (xs @ ys)"
  proof (cases "length ys \<le> nat m")
    case True
    with \<open>0 < m \<and> nat m < length xs\<close> show ?thesis
      by (simp add: drop_append add.commute)
  next
    case False
    with True show ?thesis by (simp add: drop_append)
  qed
  finally show ?thesis using True by (simp add: window_drop)
qed (auto simp: window_def)

lemma put_window:
  "bounded m q \<Longrightarrow> (case put_nowait m q x of Some q' \<Rightarrow> Some q'
     | None \<Rightarrow> Option.bind (get_nowait q) (\<lambda>(_, q1). put_nowait m q1 x)) = Some (window m (q @ [x]))"
proof (cases q)
  case (Cons a q1)
  assume b: "bounded m q"
  show ?thesis
  proof (cases "q_full m q")
    case True
    with b have "nat m = Suc (length q1)" by (auto simp: q_full_def bounded_def Cons)
    then show ?thesis
      by (auto simp: put_nowait_def q_full_def get_nowait_def window_def Cons)
  next
    case False
    then show ?thesis by (auto simp: put_nowait_def q_full_def window_def)
  qed
qed (auto simp: put_nowait_def q_full_def window_def)

lemma publish_loop_ok:
  "\<forall>(i, q) \<in> set qs. bounded m q \<Longrightarrow>
    publish_loop m x qs = (map (\<lambda>(i, q). (i, window m (q @ [x]))) qs, [], Inr ())"
proof (induction qs)
  case (Cons iq qs)
  obtain i q where iq: "iq = (i, q)" by fastforce
  with Cons.prems have b: "bounded m q" by auto
  from Cons have IH: "publish_loop m x qs = (map (\<lambda>(i, q). (i, window m (q @ [x]))) qs, [], Inr ())"
    by auto
  show ?case
  proof (cases "put_nowait m q x")
    case None
    then obtain y q1 where q: "q = y # q1"
      using b by (cases q) (auto simp: put_nowait_def q_full_def bounded_def split: if_splits)
    with None put_window[OF b, of x] show ?thesis
      by (simp add: iq IH get_nowait_def split: option.splits)
  next
    case (Some q')
    with put_window[OF b, of x] show ?thesis by (simp add: iq IH)
  qed
qed simp

lemma publish_ok:
  "b_inv b \<Longrightarrow> publish x b =
    (b\<lparr>b_queues := map (\<lambda>(i, q). (i, window (b_max_queue b) (q @ [x]))) (b_queues b)\<rparr>, Inr ())"
  unfolding publish_def b_inv_def by (subst publish_loop_ok) auto

lemma map_of_publish:
  "b_inv b \<Longrightarrow> map_of (b_queues (fst (publish x b))) i =
    map_option (\<lambda>q. window (b_max_queue b) (q @ [x])) (map_of (b_queues b) i)"
proof -
  have "map_of (map (\<lambda>(i, q). (i, f q)) qs) i = map_option f (map_of qs i)"
    for f :: "'a list \<Rightarrow> 'a list" and qs :: "(nat \<times> 'a list) list"
    by (induction qs) auto
  then show "b_inv b \<Longrightarrow> ?thesis" by (simp add: publish_ok)
qed

lemma b_inv_publish: "b_inv b \<Longrightarrow> b_inv (fst (publish x b))"
  by (auto simp: publish_ok) (auto simp: b_inv_def dict_ok_def comp_def split_def)

lemma in_set_ddel: "(k', v') \<in> set (ddel d k) \<Longrightarrow> (k', v') \<in> set d"
  by (induction d k rule: ddel.induct) (auto split: if_splits)

lemma b_inv_subscribe: "b_inv b \<Longrightarrow> b_inv (subscribe i b)"
  by (auto simp: b_inv_def subscribe_def bounded_def dest!: in_set_dset)

lemma b_inv_unsubscribe: "b_inv b \<Longrightarrow> b_inv (unsubscribe i b)"
  by (auto simp: b_inv_def unsubscribe_def dest!: in_set_ddel)

lemma b_inv_init: "b_inv (broadcaster_init m)"
  by (simp add: b_inv_def broadcaster_init_def dict_ok_def)

lemma b_inv_take:
  assumes "b_inv b" and "take_item i b = Some (x, b')"
  shows "\<exists>q. map_of (b_queues b) i = Some (x # q) \<and> map_of (b_queues b') i = Some q \<and> b_inv b'"
proof -
  from assms(2) obtain q where q: "map_of (b_queues b) i = Some (x # q)"
    and b': "b' = b\<lparr>b_queues := dset (b_queues b) i q\<rparr>"
    by (auto simp: take_item_def get_nowait_def split: option.splits list.splits)
  have "bounded (b_max_queue b) (x # q)" using assms(1) q by (auto simp: b_inv_def dest: map_of_SomeD)
  then have "bounded (b_max_queue b) q" by (auto simp: bounded_def)
  with assms(1) have "b_inv b'" by (auto simp: b_inv_def b' dest!: in_set_dset)
  with q b' show ?thesis by simp
qed

section \<open>The interface of a lossy buffer\<close>

text \<open>
  One subscriber's life: \<open>Some x\<close> is a publication, \<open>None\<close> an attempt to take an item. The result is
  what the subscriber got, in order, and the buffer at the end.
\<close>

fun life :: "('q \<Rightarrow> 'a \<Rightarrow> 'q) \<Rightarrow> ('q \<Rightarrow> ('a \<times> 'q) option) \<Rightarrow> 'q \<Rightarrow> 'a option list \<Rightarrow> 'a list \<times> 'q" where
  "life offer pick q [] = ([], q)"
| "life offer pick q (Some x # es) = life offer pick (offer q x) es"
| "life offer pick q (None # es) =
     (case pick q of None \<Rightarrow> life offer pick q es
      | Some (y, q') \<Rightarrow> let (ys, q2) = life offer pick q' es in (y # ys, q2))"

definition offered :: "'a option list \<Rightarrow> 'a list" where
  "offered es = concat (map (\<lambda>e. case e of None \<Rightarrow> [] | Some x \<Rightarrow> [x]) es)"

lemma offered_simps [simp]:
  "offered [] = []" "offered (Some x # es) = x # offered es" "offered (None # es) = offered es"
  by (simp_all add: offered_def)

text \<open>
  What a consumer behind a broadcaster relies on: offering an item appends it and may lose old
  items from the front; taking removes the front.
\<close>

locale lossy_buffer =
  fixes offer :: "'q \<Rightarrow> 'a \<Rightarrow> 'q"
    and pick :: "'q \<Rightarrow> ('a \<times> 'q) option"
    and contents :: "'q \<Rightarrow> 'a list"
    and ok :: "'q \<Rightarrow> bool"
  assumes offer_suffix: "ok q \<Longrightarrow> suffix (contents (offer q x)) (contents q @ [x])"
    and offer_ok: "ok q \<Longrightarrow> ok (offer q x)"
    and pick_front: "ok q \<Longrightarrow> pick q = Some (x, q') \<Longrightarrow> contents q = x # contents q' \<and> ok q'"
begin

lemma life_subseq:
  "ok q \<Longrightarrow> life offer pick q es = (ys, q') \<Longrightarrow> subseq (ys @ contents q') (contents q @ offered es)"
proof (induction es arbitrary: q ys)
  case (Cons e es)
  show ?case
  proof (cases e)
    case (Some x)
    with Cons have "subseq (ys @ contents q') (contents (offer q x) @ offered es)"
      using offer_ok by simp
    also have "subseq \<dots> ((contents q @ [x]) @ offered es)"
      using suffix_imp_subseq[OF offer_suffix[OF Cons.prems(1)]] by (intro list_emb_append_mono) auto
    finally show ?thesis by (simp add: Some)
  next
    case None
    show ?thesis
    proof (cases "pick q")
      case (Some yq)
      obtain y q1 where yq: "yq = (y, q1)" by fastforce
      obtain zs q2 where life: "life offer pick q1 es = (zs, q2)" by fastforce
      have "contents q = y # contents q1 \<and> ok q1"
        using pick_front[OF Cons.prems(1)] Some by (simp add: yq)
      then show ?thesis using Cons.IH[of q1 zs] Cons.prems(2) Some life None by (auto simp: yq)
    qed (use Cons None in auto)
  qed
qed simp

end

definition queue_of :: "nat \<Rightarrow> 'a Broadcaster \<Rightarrow> 'a list" where
  "queue_of i b = dget (b_queues b) i []"

lemma suffix_window: "suffix (window m xs) xs"
  by (simp add: window_def suffix_drop)

interpretation subq: lossy_buffer "\<lambda>b x. fst (publish x b)" "take_item i" "queue_of i"
  "\<lambda>b. b_inv b \<and> map_of (b_queues b) i \<noteq> None" for i
proof unfold_locales
  fix b :: "'a Broadcaster" and x
  assume b: "b_inv b \<and> map_of (b_queues b) i \<noteq> None"
  then show "suffix (queue_of i (fst (publish x b))) (queue_of i b @ [x])"
    using suffix_window[of "b_max_queue b"] by (auto simp: queue_of_def dget_def map_of_publish simp del: suffix_snoc)
  from b show "b_inv (fst (publish x b)) \<and> map_of (b_queues (fst (publish x b))) i \<noteq> None"
    by (auto simp: map_of_publish b_inv_publish)
next
  fix b b' :: "'a Broadcaster" and x
  assume "b_inv b \<and> map_of (b_queues b) i \<noteq> None" and "take_item i b = Some (x, b')"
  then show "queue_of i b = x # queue_of i b' \<and> b_inv b' \<and> map_of (b_queues b') i \<noteq> None"
    using b_inv_take[of b i x b'] by (auto simp: queue_of_def dget_def)
qed

section \<open>Properties\<close>

text \<open>
  C21: Publishing never fails, never loses a subscriber and refines a sliding window. From any
  reachable broadcaster \<open>publish\<close> raises nothing, keeps all subscriptions, and every queue becomes
  the newest \<open>max_queue\<close> items of its old contents followed by the item (all of them when
  \<open>max_queue\<close> is not positive).
\<close>

theorem publish_is_sliding_window:
  assumes "b_inv b"
  shows "snd (publish x b) = Inr ()
    \<and> map fst (b_queues (fst (publish x b))) = map fst (b_queues b)
    \<and> map_of (b_queues (fst (publish x b))) i =
        map_option (\<lambda>q. window (b_max_queue b) (q @ [x])) (map_of (b_queues b) i)
    \<and> b_inv (fst (publish x b))"
  using assms b_inv_publish[OF assms, of x] map_of_publish[OF assms, of x i]
  by (simp add: publish_ok comp_def split_def)

theorem publish_is_sliding_window_witness:
  "map_of (b_queues (fst (publish (9 :: int) \<lparr>b_max_queue = 2, b_queues = [(4, [7, 8])]\<rparr>))) 4 = Some [8, 9]"
  using publish_is_sliding_window[of "\<lparr>b_max_queue = 2, b_queues = [(4, [7, 8 :: int])]\<rparr>" 9 4]
  by (simp add: b_inv_def dict_ok_def bounded_def window_def)

text \<open>
  A slow subscriber sees the newest items. Publishing the items \<open>xs\<close> one after the other to a
  subscriber that takes none leaves exactly the newest \<open>max_queue\<close> of what the queue held and of
  \<open>xs\<close> in its queue, in order.
\<close>

theorem publish_all_keeps_newest:
  assumes "b_inv b" and "map_of (b_queues b) i = Some q"
  shows "map_of (b_queues (foldl (\<lambda>b x. fst (publish x b)) b xs)) i = Some (window (b_max_queue b) (q @ xs))"
  using assms
proof (induction xs arbitrary: b q)
  case Nil
  then have "bounded (b_max_queue b) q" by (auto simp: b_inv_def dest: map_of_SomeD)
  with Nil show ?case by (simp add: window_id)
next
  case (Cons x xs)
  let ?b = "fst (publish x b)"
  have max: "b_max_queue ?b = b_max_queue b" using Cons.prems(1) by (simp add: publish_ok)
  have "map_of (b_queues ?b) i = Some (window (b_max_queue b) (q @ [x]))"
    using Cons.prems by (simp add: map_of_publish)
  from Cons.IH[OF b_inv_publish[OF Cons.prems(1)] this] show ?case
    by (simp add: max window_window_append)
qed

theorem publish_all_keeps_newest_witness:
  "map_of (b_queues (foldl (\<lambda>b x. fst (publish x b)) \<lparr>b_max_queue = 2, b_queues = [(4, [])]\<rparr> [1, 2, 3 :: int])) 4
    = Some [2, 3]"
  using publish_all_keeps_newest[of "\<lparr>b_max_queue = 2, b_queues = [(4, [])]\<rparr>" 4 "[]" "[1, 2, 3 :: int]"]
  by (simp add: b_inv_def dict_ok_def bounded_def window_def)

text \<open>
  No reordering and no invention. Whatever the interleaving of publications and of the takes
  of a subscriber, the items the subscriber got followed by those still queued are a subsequence
  of what its queue held and of what was published, in that order.
\<close>

theorem subscriber_sees_subsequence:
  assumes "b_inv b" and "map_of (b_queues b) i = Some q"
    and "life (\<lambda>b x. fst (publish x b)) (take_item i) b es = (ys, b')"
  shows "subseq (ys @ queue_of i b') (q @ offered es)"
  using subq.life_subseq[of b i es ys b'] assms by (simp add: queue_of_def[of i b] dget_def)

theorem subscriber_sees_subsequence_witness:
  "\<exists>ys b'. life (\<lambda>b x. fst (publish x b)) (take_item 4) \<lparr>b_max_queue = 1, b_queues = [(4, [])]\<rparr>
       [Some 1, Some (2 :: int), None, Some 3] = (ys, b') \<and> ys = [2]
     \<and> subseq (ys @ queue_of 4 b') ([] @ offered [Some 1, Some 2, None, Some 3])"
proof -
  let ?b = "\<lparr>b_max_queue = 1, b_queues = [(4, [])]\<rparr> :: int Broadcaster"
  let ?es = "[Some 1, Some 2, None, Some 3] :: int option list"
  have inv: "b_inv ?b" by (simp add: b_inv_def dict_ok_def bounded_def)
  obtain ys b' where l: "life (\<lambda>b x. fst (publish x b)) (take_item 4) ?b ?es = (ys, b')" by fastforce
  then have "ys = [2]"
    by (simp add: publish_def put_nowait_def q_full_def take_item_def get_nowait_def)
  with l subscriber_sees_subsequence[OF inv _ l] show ?thesis by simp
qed

end
