(* ===== verification/Dsp.thy ===== *)
theory Dsp
  imports Signal_Gen
begin

text \<open>
  \<^verbatim>\<open>rpi/backend/sdr_backend/dsp.py\<close>: the demodulator, a pipeline with state between the packets:
  demodulation by mode, resampling, de-emphasis, conditioning, framing into PCM. The element
  functions of NumPy and SciPy on single-precision samples are the fields of a record \<open>numpy\<close>,
  arrays are lists; the arithmetic the code does in Python floats is double arithmetic. A missing
  NumPy is \<open>None\<close>. \<open>_frame_pcm\<close> contains a loop that need not end, so what runs it returns an
  option, with \<open>None\<close> for a call that never returns.

  Shown here: framing returns exactly when a frame has a positive length, framing a stream piece by
  piece gives the frames of the whole stream, and demodulating it piece by piece gives the audio of
  the whole.
\<close>

section \<open>State\<close>

record ('c, 'f) numpy =
  np_sample :: "int \<Rightarrow> int \<Rightarrow> 'c"
  np_abs :: "'c \<Rightarrow> 'f"
  np_real :: "'c \<Rightarrow> 'f"
  np_conj :: "'c \<Rightarrow> 'c"
  np_mul :: "'c \<Rightarrow> 'c \<Rightarrow> 'c"
  np_angle :: "'c \<Rightarrow> 'f"
  np_osc :: "pyfloat \<Rightarrow> pyfloat \<Rightarrow> nat \<Rightarrow> 'c"
  np_resample_poly :: "('f list \<Rightarrow> int \<Rightarrow> int \<Rightarrow> 'f list result) option"
  np_interp :: "pyfloat \<Rightarrow> int \<Rightarrow> 'f list \<Rightarrow> 'f list"
  np_float :: "'f \<Rightarrow> pyfloat"
  np_float32 :: "pyfloat \<Rightarrow> 'f"
  np_mean :: "'f list \<Rightarrow> pyfloat"
  np_minus :: "'f \<Rightarrow> pyfloat \<Rightarrow> 'f"
  np_rms :: "'f list \<Rightarrow> pyfloat"
  np_times :: "'f \<Rightarrow> pyfloat \<Rightarrow> 'f"
  np_clip :: "'f \<Rightarrow> 'f"
  np_i16 :: "'f \<Rightarrow> bytes"

record ('c, 'f) Demodulator =
  dm_audio_sample_rate_hz :: int
  dm_frame_samples :: int
  dm_wfm_deemphasis_us :: pyfloat
  dm_mode :: string
  dm_input_rate :: int
  dm_tail :: "'f list option"
  dm_last_iq :: "'c option"
  dm_cw_phase :: pyfloat
  dm_deemph_last :: pyfloat

definition demodulator_init :: "int \<Rightarrow> int \<Rightarrow> pyfloat \<Rightarrow> ('c, 'f) Demodulator result" where
  "demodulator_init audio_sample_rate_hz audio_frame_ms wfm_deemphasis_us =
     rbind (int_truediv (audio_sample_rate_hz * audio_frame_ms) 1000) (\<lambda>x.
     rbind (int_of_float x) (\<lambda>frame_samples.
     Inr \<lparr>dm_audio_sample_rate_hz = audio_sample_rate_hz, dm_frame_samples = frame_samples,
          dm_wfm_deemphasis_us = wfm_deemphasis_us, dm_mode = ''WFM'', dm_input_rate = 1000000,
          dm_tail = None, dm_last_iq = None, dm_cw_phase = FFin 0, dm_deemph_last = FFin 0\<rparr>))"

definition configure :: "string \<Rightarrow> int \<Rightarrow> ('c, 'f) Demodulator \<Rightarrow> ('c, 'f) Demodulator" where
  "configure mode input_rate_hz d =
     (let mode = py_upper mode;
          d1 = (if mode \<noteq> dm_mode d \<or> input_rate_hz \<noteq> dm_input_rate d
                then d\<lparr>dm_tail := None, dm_last_iq := None, dm_cw_phase := FFin 0, dm_deemph_last := FFin 0\<rparr>
                else d)
      in d1\<lparr>dm_mode := mode, dm_input_rate := input_rate_hz\<rparr>)"

section \<open>Demodulation\<close>

text \<open>\<open>x % y\<close> of floats, for a positive finite \<open>y\<close>: the exact remainder with the sign of \<open>y\<close>.\<close>

fun float_mod :: "pyfloat \<Rightarrow> rat \<Rightarrow> pyfloat" where
  "float_mod (FFin x) y =
     (let r = x - y * of_int (trunc_rat (x / y)) in if r < 0 then fadd (FFin r) (FFin y) else FFin r)"
| "float_mod _ y = FNaN"

definition tau_rat :: rat where
  "tau_rat = 884279719003555 / 140737488355328"

definition discriminate :: "('c, 'f) numpy \<Rightarrow> 'c list \<Rightarrow> 'f list" where
  "discriminate np iq2 = map2 (\<lambda>b a. np_angle np (np_mul np b (np_conj np a))) (tl iq2) (butlast iq2)"

definition demodulate_cw :: "('c, 'f) numpy \<Rightarrow> 'c list \<Rightarrow> ('c, 'f) Demodulator \<Rightarrow> ('c, 'f) Demodulator \<times> 'f list result" where
  "demodulate_cw np iq d =
     (case rbind (phase_step (FFin 700) (dm_input_rate d)) (\<lambda>step.
           rbind (float_of_int (int (length iq))) (\<lambda>n. Inr (step, n))) of
        Inl e \<Rightarrow> (d, Inl e)
      | Inr (step, n) \<Rightarrow>
        (d\<lparr>dm_cw_phase := float_mod (fadd (dm_cw_phase d) (fmul step n)) tau_rat\<rparr>,
         Inr (map (\<lambda>k. np_real np (np_mul np (iq ! k) (np_osc np (dm_cw_phase d) step k))) [0..<length iq])))"

definition demodulate_fm :: "('c, 'f) numpy \<Rightarrow> 'c list \<Rightarrow> ('c, 'f) Demodulator \<Rightarrow> ('c, 'f) Demodulator \<times> 'f list result" where
  "demodulate_fm np iq d =
     (let iq2 = (case dm_last_iq d of Some z \<Rightarrow> z # iq | None \<Rightarrow> iq);
          d1 = d\<lparr>dm_last_iq := Some (last iq)\<rparr>
      in if length iq2 < 2 then (d1, Inr []) else (d1, Inr (discriminate np iq2)))"

text \<open>\<open>_demodulate\<close>; its argument is never empty.\<close>

definition demodulate :: "('c, 'f) numpy \<Rightarrow> 'c list \<Rightarrow> ('c, 'f) Demodulator \<Rightarrow> ('c, 'f) Demodulator \<times> 'f list result" where
  "demodulate np iq d =
     (let mode = dm_mode d in
      if mode = ''AM'' then (d, Inr (map (np_abs np) iq))
      else if mode = ''LSB'' then (d, Inr (map (np_real np \<circ> np_conj np) iq))
      else if mode \<in> {''USB'', ''SSB'', ''IQ''} then (d, Inr (map (np_real np) iq))
      else if mode = ''CW'' then demodulate_cw np iq d
      else if mode \<in> {''NFM'', ''WFM''} then demodulate_fm np iq d
      else (d, Inr (map (np_real np) iq)))"

section \<open>Audio\<close>

definition resample :: "('c, 'f) numpy \<Rightarrow> 'f list \<Rightarrow> int \<Rightarrow> int \<Rightarrow> 'f list result" where
  "resample np data in_rate out_rate =
     (if data = [] \<or> in_rate = out_rate then Inr data
      else case np_resample_poly np of
        Some resample_poly \<Rightarrow>
          (let g = gcd in_rate out_rate in resample_poly data (out_rate div g) (in_rate div g))
      | None \<Rightarrow>
          rbind (float_of_int in_rate) (\<lambda>rate.
          rbind (float_of_int (int (length data))) (\<lambda>n.
          rbind (fdiv n rate) (\<lambda>duration.
          rbind (float_of_int out_rate) (\<lambda>out.
          rbind (int_of_float (fmul duration out)) (\<lambda>count.
          Inr (np_interp np duration (max 1 count) data)))))))"

fun deemphasis_loop :: "('c, 'f) numpy \<Rightarrow> pyfloat \<Rightarrow> 'f list \<Rightarrow> pyfloat \<Rightarrow> 'f list \<times> pyfloat" where
  "deemphasis_loop np alpha [] prev = ([], prev)"
| "deemphasis_loop np alpha (x # xs) prev =
     (let last1 = fadd prev (fmul alpha (fsub (np_float np x) prev));
          (out, final) = deemphasis_loop np alpha xs last1
      in (np_float32 np last1 # out, final))"

definition deemphasis :: "('c, 'f) numpy \<Rightarrow> 'f list \<Rightarrow> ('c, 'f) Demodulator \<Rightarrow> ('c, 'f) Demodulator \<times> 'f list result" where
  "deemphasis np data d =
     (if data = [] then (d, Inr data)
      else
        (let tau = fmul (dm_wfm_deemphasis_us d) (lit (1 / 1000000)) in
         case rbind (float_of_int (dm_audio_sample_rate_hz d)) (\<lambda>rate.
              rbind (fdiv (FFin 1) rate) (\<lambda>dt. fdiv dt (fadd tau dt))) of
           Inl e \<Rightarrow> (d, Inl e)
         | Inr alpha \<Rightarrow>
           (let (out, final) = deemphasis_loop np alpha data (dm_deemph_last d)
            in (d\<lparr>dm_deemph_last := final\<rparr>, Inr out))))"

definition condition_audio :: "('c, 'f) numpy \<Rightarrow> 'f list \<Rightarrow> 'f list result" where
  "condition_audio np data =
     (if data = [] then Inr data
      else
        (let centred = map (\<lambda>x. np_minus np x (np_mean np data)) data;
             rms = np_rms np centred
         in rbind (if flt (lit (1 / 100000)) rms
                   then rbind (fdiv (lit (18 / 100)) rms) (\<lambda>g.
                        Inr (map (\<lambda>x. np_times np x (if flt g (FFin 8) then g else FFin 8)) centred))
                   else Inr centred) (\<lambda>scaled.
            Inr (map (np_clip np) scaled))))"

section \<open>Framing\<close>

partial_function (option) frame_loop :: "int \<Rightarrow> 'f list \<Rightarrow> int \<Rightarrow> ('f list list \<times> int) option" where
  "frame_loop n audio offset =
     (if offset + n \<le> int (length audio)
      then Option.bind (frame_loop n audio (offset + n)) (\<lambda>(frames, final).
             Some (take (nat n) (drop (nat offset) audio) # frames, final))
      else Some ([], offset))"

definition frame_pcm :: "('c, 'f) numpy \<Rightarrow> 'f list \<Rightarrow> ('c, 'f) Demodulator \<Rightarrow> (('c, 'f) Demodulator \<times> bytes list) option" where
  "frame_pcm np audio d =
     (let audio1 = (case dm_tail d of Some t \<Rightarrow> t @ audio | None \<Rightarrow> audio) in
      Option.bind (frame_loop (dm_frame_samples d) audio1 0) (\<lambda>(chunks, offset).
      Some (d\<lparr>dm_tail := Some (drop (nat offset) audio1)\<rparr>, map (\<lambda>c. concat (map (np_i16 np) c)) chunks)))"

section \<open>Packets\<close>

fun i16s :: "bytes \<Rightarrow> int list" where
  "i16s (a # b # rest) = le_sval [a, b] # i16s rest"
| "i16s _ = []"

fun iq_pairs :: "('c, 'f) numpy \<Rightarrow> int list \<Rightarrow> 'c list" where
  "iq_pairs np (i # q # rest) = np_sample np i q # iq_pairs np rest"
| "iq_pairs np _ = []"

definition process_sc16 ::
    "('c, 'f) numpy option \<Rightarrow> bytes \<Rightarrow> ('c, 'f) Demodulator \<Rightarrow> (('c, 'f) Demodulator \<times> bytes list result) option" where
  "process_sc16 numpy payload d =
     (case numpy of None \<Rightarrow> Some (d, Inl (Exn RuntimeError ''NumPy is required for DSP processing''))
      | Some np \<Rightarrow>
        if payload = [] then Some (d, Inr [])
        else if odd (length payload)
        then Some (d, Inl (Exn ValueError ''buffer size must be a multiple of element size''))
        else if length (i16s payload) < 2 then Some (d, Inr [])
        else
          (case demodulate np (iq_pairs np (i16s payload)) d of (d1, Inl e) \<Rightarrow> Some (d1, Inl e)
           | (d1, Inr audio) \<Rightarrow>
             (case resample np audio (dm_input_rate d1) (dm_audio_sample_rate_hz d1) of Inl e \<Rightarrow> Some (d1, Inl e)
              | Inr audio1 \<Rightarrow>
                (case (if dm_mode d1 = ''WFM'' then deemphasis np audio1 d1 else (d1, Inr audio1)) of
                   (d2, Inl e) \<Rightarrow> Some (d2, Inl e)
                 | (d2, Inr audio2) \<Rightarrow>
                   (case condition_audio np audio2 of Inl e \<Rightarrow> Some (d2, Inl e)
                    | Inr audio3 \<Rightarrow>
                      map_option (\<lambda>(d3, frames). (d3, Inr frames)) (frame_pcm np audio3 d2))))))"

section \<open>Framing, piece by piece\<close>

text \<open>The frames of length \<open>n\<close> of a list and what is left.\<close>

function split_frames :: "nat \<Rightarrow> 'f list \<Rightarrow> 'f list list \<times> 'f list" where
  "split_frames n xs =
     (if n = 0 \<or> length xs < n then ([], xs)
      else let (cs, r) = split_frames n (drop n xs) in (take n xs # cs, r))"
  by pat_completeness auto
termination
  by (relation "measure (\<lambda>(n, xs). length xs)") auto

declare split_frames.simps [simp del]

lemma split_frames_rest: "\<exists>ys. xs = ys @ snd (split_frames n xs)"
proof (induction n xs rule: split_frames.induct)
  case (1 n xs)
  show ?case
  proof (cases "n = 0 \<or> length xs < n")
    case True
    then show ?thesis by (subst split_frames.simps) simp
  next
    case False
    then have s: "snd (split_frames n xs) = snd (split_frames n (drop n xs))"
      by (subst split_frames.simps) (simp add: case_prod_beta Let_def)
    from 1 False obtain ys where "drop n xs = ys @ snd (split_frames n (drop n xs))" by blast
    then have "xs = (take n xs @ ys) @ snd (split_frames n xs)"
      using s append_take_drop_id[of n xs] by (metis append.assoc)
    then show ?thesis by blast
  qed
qed

lemma split_frames_append:
  "split_frames n (xs @ ys) = (let (c1, r1) = split_frames n xs; (c2, r2) = split_frames n (r1 @ ys) in (c1 @ c2, r2))"
proof (induction n xs rule: split_frames.induct)
  case (1 n xs)
  show ?case
  proof (cases "n = 0 \<or> length xs < n")
    case True
    then have "split_frames n xs = ([], xs)" by (subst split_frames.simps) simp
    then show ?thesis by (simp add: case_prod_beta Let_def)
  next
    case False
    then have "split_frames n (xs @ ys) = (let (cs, r) = split_frames n (drop n xs @ ys) in (take n xs # cs, r))"
      "split_frames n xs = (let (cs, r) = split_frames n (drop n xs) in (take n xs # cs, r))"
      by (subst split_frames.simps, simp)+
    then show ?thesis using 1 False by (simp add: case_prod_beta Let_def)
  qed
qed

lemma frame_loop_eq:
  assumes "0 < n" and "0 \<le> offset" and "offset \<le> int (length audio)"
  shows "frame_loop n audio offset =
    (let (cs, r) = split_frames (nat n) (drop (nat offset) audio) in Some (cs, int (length audio) - int (length r)))"
  using assms
proof (induction "length audio - nat offset" arbitrary: offset rule: less_induct)
  case less
  show ?case
  proof (cases "offset + n \<le> int (length audio)")
    case True
    then have long: "\<not> length (drop (nat offset) audio) < nat n" using less.prems by auto
    have "frame_loop n audio (offset + n) = (let (cs, r) = split_frames (nat n) (drop (nat (offset + n)) audio)
        in Some (cs, int (length audio) - int (length r)))"
      using less.prems True by (intro less.hyps) auto
    moreover have "drop (nat (offset + n)) audio = drop (nat n) (drop (nat offset) audio)"
      using less.prems by (simp add: nat_add_distrib add.commute)
    ultimately show ?thesis using True long less.prems(1)
      by (subst frame_loop.simps, subst split_frames.simps) (simp add: case_prod_beta Let_def)
  next
    case False
    then have "length (drop (nat offset) audio) < nat n" using less.prems by auto
    with False less.prems show ?thesis
      by (subst frame_loop.simps, subst split_frames.simps) simp
  qed
qed

lemma frame_pcm_eq:
  assumes "0 < dm_frame_samples d"
  shows "frame_pcm np audio d =
    (let (cs, r) = split_frames (nat (dm_frame_samples d)) ((case dm_tail d of Some t \<Rightarrow> t | None \<Rightarrow> []) @ audio)
     in Some (d\<lparr>dm_tail := Some r\<rparr>, map (\<lambda>c. concat (map (np_i16 np) c)) cs))"
proof -
  define audio1 where "audio1 = (case dm_tail d of Some t \<Rightarrow> t | None \<Rightarrow> []) @ audio"
  have a: "(case dm_tail d of Some t \<Rightarrow> t @ audio | None \<Rightarrow> audio) = audio1"
    by (simp add: audio1_def split: option.splits)
  obtain cs r where s: "split_frames (nat (dm_frame_samples d)) audio1 = (cs, r)" by fastforce
  obtain ys where "audio1 = ys @ r" using split_frames_rest[of audio1 "nat (dm_frame_samples d)"] s by auto
  then have r: "r = drop (length audio1 - length r) audio1" by simp
  have "frame_loop (dm_frame_samples d) audio1 0 = Some (cs, int (length audio1) - int (length r))"
    using frame_loop_eq[of "dm_frame_samples d" 0 audio1] assms s by simp
  moreover have "nat (int (length audio1) - int (length r)) = length audio1 - length r" by simp
  ultimately show ?thesis using s r unfolding audio1_def[symmetric] by (simp add: frame_pcm_def a)
qed

text \<open>A loop whose step does not advance never returns.\<close>

lemma frame_loop_diverges:
  assumes "n \<le> 0" and "offset + n \<le> int (length audio)"
  shows "frame_loop n audio offset = None"
proof -
  have "\<not> (n \<le> 0 \<and> offset + n \<le> int (length audio))" if "frame_loop n audio offset = Some y" for y
    using that
  proof (induction n audio offset y rule: frame_loop.raw_induct[rotated, consumes 1, case_names step])
    case (step frame_loop n audio offset y)
    then show ?case by (fastforce simp: Option.bind_eq_Some_conv split: if_splits)
  qed
  with assms show ?thesis by (cases "frame_loop n audio offset") auto
qed

lemma frame_pcm_positive:
  assumes "frame_pcm np audio d = Some r"
  shows "0 < dm_frame_samples d"
proof (rule ccontr)
  assume n: "\<not> 0 < dm_frame_samples d"
  then have "frame_loop (dm_frame_samples d) xs 0 = None" for xs :: "'b list"
    by (intro frame_loop_diverges) auto
  with assms show False by (simp add: frame_pcm_def Let_def)
qed

text \<open>
  C27 (framing returns exactly for frames of positive length). \<open>_frame_pcm\<close> returns if and only if the
  configured frame has at least one sample; with \<open>audio_frame_ms\<close> 0, or a rate and a duration whose
  product is below 1000, the first packet of audio makes it loop forever.
\<close>

theorem frame_pcm_returns_iff: "(\<exists>r. frame_pcm np audio d = Some r) \<longleftrightarrow> 0 < dm_frame_samples d"
  by (auto dest: frame_pcm_positive simp: frame_pcm_eq case_prod_beta Let_def)

text \<open>
  C23 (framing does not depend on the packets). Framing two pieces of audio one after the other gives
  the frames, and leaves the tail, of framing them as one piece: no sample is lost, doubled or moved
  at the border of two packets.
\<close>

theorem frame_pcm_streaming:
  assumes "frame_pcm np a d = Some (d1, f1)" and "frame_pcm np b d1 = Some (d2, f2)"
  shows "frame_pcm np (a @ b) d = Some (d2, f1 @ f2)"
proof -
  note pos = frame_pcm_positive[OF assms(1)]
  define t where "t = (case dm_tail d of Some t \<Rightarrow> t | None \<Rightarrow> [])"
  let ?n = "nat (dm_frame_samples d)"
  obtain c1 r1 where s1: "split_frames ?n (t @ a) = (c1, r1)" by fastforce
  obtain c2 r2 where s2: "split_frames ?n (r1 @ b) = (c2, r2)" by fastforce
  have d1: "d1 = d\<lparr>dm_tail := Some r1\<rparr>" "f1 = map (\<lambda>c. concat (map (np_i16 np) c)) c1"
    using assms(1) by (simp_all add: frame_pcm_eq[OF pos] t_def[symmetric] s1)
  then have pos1: "0 < dm_frame_samples d1" using pos by simp
  have "d2 = d\<lparr>dm_tail := Some r2\<rparr>" "f2 = map (\<lambda>c. concat (map (np_i16 np) c)) c2"
    using assms(2) frame_pcm_eq[OF pos1, of np b] by (simp_all add: d1 s2)
  moreover have "split_frames ?n (t @ a @ b) = (c1 @ c2, r2)"
    using split_frames_append[of ?n "t @ a" b] s1 s2 by simp
  ultimately show ?thesis using d1 by (simp add: frame_pcm_eq[OF pos] t_def[symmetric])
qed

definition toy_numpy :: "(int \<times> int, int) numpy" where
  "toy_numpy = \<lparr>np_sample = Pair, np_abs = (\<lambda>z. \<bar>fst z\<bar> + \<bar>snd z\<bar>), np_real = fst, np_conj = (\<lambda>z. (fst z, - snd z)),
     np_mul = (\<lambda>z w. (fst z * fst w - snd z * snd w, fst z * snd w + snd z * fst w)), np_angle = snd,
     np_osc = (\<lambda>_ _ _. (1, 0)), np_resample_poly = None, np_interp = (\<lambda>_ _ xs. xs),
     np_float = (\<lambda>n. FFin (of_int n)), np_float32 = (\<lambda>x. case x of FFin q \<Rightarrow> \<lfloor>q\<rfloor> | _ \<Rightarrow> 0), np_mean = (\<lambda>_. FFin 0),
     np_minus = (\<lambda>x _. x), np_rms = (\<lambda>_. FFin 0), np_times = (\<lambda>x _. x), np_clip = (\<lambda>x. x),
     np_i16 = (\<lambda>n. [word_of_int n])\<rparr>"

definition toy_demodulator :: "(int \<times> int, int) Demodulator" where
  "toy_demodulator = \<lparr>dm_audio_sample_rate_hz = 2000, dm_frame_samples = 2, dm_wfm_deemphasis_us = FFin 50, dm_mode = ''NFM'',
     dm_input_rate = 2000, dm_tail = None, dm_last_iq = None, dm_cw_phase = FFin 0, dm_deemph_last = FFin 0\<rparr>"

theorem frame_pcm_streaming_witness:
  "\<exists>d2. frame_pcm toy_numpy ([1, 2, 3] @ [4, 5]) toy_demodulator = Some (d2, [[1, 2]] @ [[3, 4]])"
proof -
  have "frame_pcm toy_numpy [1, 2, 3] toy_demodulator = Some (toy_demodulator\<lparr>dm_tail := Some [3]\<rparr>, [[1, 2]])"
    "frame_pcm toy_numpy [4, 5] (toy_demodulator\<lparr>dm_tail := Some [3]\<rparr>) =
       Some (toy_demodulator\<lparr>dm_tail := Some [5]\<rparr>, [[3, 4]])"
    by (simp_all add: frame_pcm_eq toy_demodulator_def toy_numpy_def split_frames.simps)
  from frame_pcm_streaming[OF this] show ?thesis by blast
qed

section \<open>Demodulation, piece by piece\<close>

lemma map2_append: "length xs = length us \<Longrightarrow> map2 f (xs @ ys) (us @ vs) = map2 f xs us @ map2 f ys vs"
  by simp

lemma discriminate_append:
  assumes "xs \<noteq> []" and "ys \<noteq> []"
  shows "discriminate np (xs @ ys) = discriminate np xs @ discriminate np (last xs # ys)"
proof -
  have "tl (xs @ ys) = tl xs @ ys" using assms(1) by simp
  moreover have "butlast (xs @ ys) = butlast xs @ butlast (last xs # ys)"
    using assms by (simp add: butlast_append)
  ultimately show ?thesis by (simp add: discriminate_def)
qed

text \<open>
  C25 (demodulation does not depend on the packets). In every mode but CW, whose oscillator phase is
  rounded between packets, demodulating two nonempty pieces of IQ samples one after the other gives
  the audio, and leaves the state, of demodulating them as one piece; for FM this is what the sample
  kept from the previous packet is for.
\<close>

theorem demodulate_streaming:
  assumes "dm_mode d \<noteq> ''CW''" and "xs \<noteq> []" and "ys \<noteq> []"
    and "demodulate np xs d = (d1, Inr a)" and "demodulate np ys d1 = (d2, Inr b)"
  shows "demodulate np (xs @ ys) d = (d2, Inr (a @ b))"
proof (cases "dm_mode d \<in> {''NFM'', ''WFM''}")
  case True
  define p where "p = (case dm_last_iq d of Some z \<Rightarrow> z # xs | None \<Rightarrow> xs)"
  have p: "p \<noteq> []" "last p = last xs" using assms(2) by (simp_all add: p_def split: option.splits)
  have dfm: "demodulate np zs d = demodulate_fm np zs d" for zs using True by (auto simp: demodulate_def Let_def)
  have short: "discriminate np zs = []" if "length zs < 2" for zs
    using that by (cases zs) (auto simp: discriminate_def)
  have fm: "demodulate_fm np zs e = (e\<lparr>dm_last_iq := Some (last zs)\<rparr>,
      Inr (discriminate np (case dm_last_iq e of Some z \<Rightarrow> z # zs | None \<Rightarrow> zs)))" for zs e
    by (simp add: demodulate_fm_def Let_def short)
  have d1: "d1 = d\<lparr>dm_last_iq := Some (last xs)\<rparr>" "a = discriminate np p"
    using assms(4) by (simp_all add: dfm fm p_def)
  then have "demodulate np ys d1 = demodulate_fm np ys d1" using True by (auto simp: demodulate_def Let_def)
  then have d2: "d2 = d\<lparr>dm_last_iq := Some (last ys)\<rparr>" "b = discriminate np (last xs # ys)"
    using assms(5) by (simp_all add: fm d1)
  have "(case dm_last_iq d of Some z \<Rightarrow> z # xs @ ys | None \<Rightarrow> xs @ ys) = p @ ys"
    by (simp add: p_def split: option.splits)
  then show ?thesis using d1 d2 discriminate_append[OF p(1) assms(3), of np] p(2) assms(3)
    by (simp add: dfm fm)
next
  case False
  with assms show ?thesis by (auto simp: demodulate_def Let_def split: if_splits)
qed

theorem demodulate_streaming_witness:
  "demodulate toy_numpy ([(1, 0)] @ [(0, 1), (2, 2)]) toy_demodulator =
     (toy_demodulator\<lparr>dm_last_iq := Some (2, 2)\<rparr>, Inr ([] @ [1, -2]))"
proof -
  have "dm_mode toy_demodulator \<noteq> ''CW''" by (simp add: toy_demodulator_def)
  moreover have "demodulate toy_numpy [(1, 0)] toy_demodulator = (toy_demodulator\<lparr>dm_last_iq := Some (1, 0)\<rparr>, Inr [])"
    "demodulate toy_numpy [(0, 1), (2, 2)] (toy_demodulator\<lparr>dm_last_iq := Some (1, 0)\<rparr>) =
       (toy_demodulator\<lparr>dm_last_iq := Some (2, 2)\<rparr>, Inr [1, -2])"
    by (simp_all add: demodulate_def demodulate_fm_def discriminate_def toy_demodulator_def toy_numpy_def Let_def)
  ultimately show ?thesis by (intro demodulate_streaming) simp_all
qed

end
