(* ===== verification/Waterfall.thy ===== *)
theory Waterfall
  imports PyValue
begin

text \<open>
  \<^verbatim>\<open>rpi/backend/sdr_backend/waterfall.py\<close>: the engine collects IQ bytes and turns each full chunk into
  one spectrum. The numerical part, from the bytes of the chunk to the rounded levels, is NumPy's and
  is the argument \<open>spectrum\<close>; \<open>has_numpy\<close> says whether the import succeeds. Slices follow Python
  for negative bounds too.

  Shown here: for a positive size the buffer stays bounded and every chunk is one transform long,
  and whole samples in means whole samples left over.
\<close>

section \<open>The engine\<close>

record WaterfallEngine =
  wf_fft_size :: int
  wf_buffer :: bytes

definition waterfall_init :: "int \<Rightarrow> WaterfallEngine" where
  "waterfall_init fft_size = \<lparr>wf_fft_size = fft_size, wf_buffer = []\<rparr>"

definition spectrum_dict :: "int \<Rightarrow> int \<Rightarrow> int \<Rightarrow> pyfloat list \<Rightarrow> pydict result" where
  "spectrum_dict center_frequency_hz sample_rate_hz iq_size bins =
     rbind (float_of_int sample_rate_hz) (\<lambda>rate.
     rbind (float_of_int iq_size) (\<lambda>n.
     rbind (fdiv rate n) (\<lambda>spacing.
     Inr [(''type'', PStr ''local_spectrum''), (''center_frequency_hz'', PInt center_frequency_hz),
          (''sample_rate_hz'', PInt sample_rate_hz), (''fft_size'', PInt iq_size),
          (''bin_spacing_hz'', PFloat spacing), (''bins_dbfs'', PList (map PFloat bins))])))"

definition waterfall_compute ::
    "bool \<Rightarrow> (bytes \<Rightarrow> pyfloat list result) \<Rightarrow> bytes \<Rightarrow> int \<Rightarrow> int \<Rightarrow> WaterfallEngine \<Rightarrow>
     WaterfallEngine \<times> pydict option result" where
  "waterfall_compute has_numpy spectrum payload center_frequency_hz sample_rate_hz w =
     (if \<not> has_numpy then (w, Inr None)
      else
        (let needed_bytes = wf_fft_size w * 4;
             b1 = wf_buffer w @ payload
         in if int (length b1) < needed_bytes then (w\<lparr>wf_buffer := b1\<rparr>, Inr None)
            else
              (let chunk = slice_to needed_bytes b1;
                   b2 = slice_from needed_bytes b1;
                   b3 = (if int (length b2) > needed_bytes * 4 then slice_from (- needed_bytes) b2 else b2)
               in (w\<lparr>wf_buffer := b3\<rparr>,
                   rbind (spectrum chunk) (\<lambda>bins.
                   rbind (spectrum_dict center_frequency_hz sample_rate_hz (int (length chunk div 4)) bins) (\<lambda>d.
                   Inr (Some d)))))))"

section \<open>Bounds\<close>

definition wf_inv :: "WaterfallEngine \<Rightarrow> bool" where
  "wf_inv w \<longleftrightarrow> 0 < wf_fft_size w \<and> int (length (wf_buffer w)) \<le> 16 * wf_fft_size w"

definition wf_aligned :: "WaterfallEngine \<Rightarrow> bool" where
  "wf_aligned w \<longleftrightarrow> 0 < wf_fft_size w \<and> 4 dvd length (wf_buffer w)"

abbreviation wf_step :: "bool \<Rightarrow> (bytes \<Rightarrow> pyfloat list result) \<Rightarrow> WaterfallEngine \<Rightarrow> bytes \<times> int \<times> int \<Rightarrow> WaterfallEngine" where
  "wf_step has_numpy spectrum w e \<equiv> (case e of (payload, f, r) \<Rightarrow> fst (waterfall_compute has_numpy spectrum payload f r w))"

lemma slice_from_neg: "0 < n \<Longrightarrow> slice_from (- n) xs = drop (length xs - nat n) xs"
  by (auto simp: slice_from_def slice_index_def max_def nat_diff_distrib intro!: arg_cong[of _ _ "\<lambda>k. drop k xs"])

lemma length_slice_from_neg: "0 < n \<Longrightarrow> length (slice_from (- n) xs) = min (nat n) (length xs)"
  by (auto simp: slice_from_def slice_index_def min_def max_def)

lemma wf_compute_cases:
  assumes "0 < wf_fft_size w" and "n = nat (4 * wf_fft_size w)" and "b = wf_buffer w @ payload"
  obtains (off) "\<not> has_numpy" "waterfall_compute has_numpy spectrum payload f r w = (w, Inr None)"
  | (short) "has_numpy" "length b < n" "waterfall_compute has_numpy spectrum payload f r w = (w\<lparr>wf_buffer := b\<rparr>, Inr None)"
  | (full) b' where "has_numpy" "n \<le> length b" "length b' = (if 5 * n < length b then n else length b - n)"
      "waterfall_compute has_numpy spectrum payload f r w = (w\<lparr>wf_buffer := b'\<rparr>,
       rbind (spectrum (take n b)) (\<lambda>bins. rbind (spectrum_dict f r (wf_fft_size w) bins) (\<lambda>d. Inr (Some d))))"
proof -
  have n: "int n = wf_fft_size w * 4" "0 < n" using assms(1,2) by simp_all
  consider "\<not> has_numpy" | "has_numpy" "length b < n" | "has_numpy" "n \<le> length b" by linarith
  then show ?thesis
  proof cases
    case 1
    then show ?thesis using off by (simp add: waterfall_compute_def)
  next
    case 2
    then show ?thesis using short n by (simp add: waterfall_compute_def assms(3)[symmetric] Let_def)
  next
    case 3
    have "length (take n b) div 4 = nat (wf_fft_size w)" using 3 assms(1,2) by (simp add: nat_mult_distrib)
    then have sz: "int (length (take n b) div 4) = wf_fft_size w" using assms(1) by simp
    have long: "int (length (drop n b)) > wf_fft_size w * 4 * 4 \<longleftrightarrow> 5 * n < length b" using 3 n by auto
    have "\<not> int (length b) < wf_fft_size w * 4" using 3 n by linarith
    then have "waterfall_compute has_numpy spectrum payload f r w =
      (w\<lparr>wf_buffer := if 5 * n < length b then slice_from (- int n) (drop n b) else drop n b\<rparr>,
       rbind (spectrum (take n b)) (\<lambda>bins. rbind (spectrum_dict f r (wf_fft_size w) bins) (\<lambda>d. Inr (Some d))))"
      using 3(1) sz long
      by (simp add: waterfall_compute_def assms(3)[symmetric] n(1)[symmetric] slice_to_pos slice_from_pos Let_def)
    moreover have "length (if 5 * n < length b then slice_from (- int n) (drop n b) else drop n b) =
        (if 5 * n < length b then n else length b - n)"
      using n(2) by (simp add: length_slice_from_neg)
    ultimately show ?thesis using full 3 by blast
  qed
qed

lemma wf_fft_size_step [simp]: "wf_fft_size (wf_step has_numpy spectrum w e) = wf_fft_size w"
  by (simp add: waterfall_compute_def Let_def split: prod.splits)

lemma wf_inv_step:
  assumes "wf_inv w"
  shows "wf_inv (wf_step has_numpy spectrum w e)"
proof -
  obtain payload f r where e: "e = (payload, f, r)" by (cases e) auto
  have pos: "0 < wf_fft_size w" using assms by (simp add: wf_inv_def)
  show ?thesis
    by (cases rule: wf_compute_cases[OF pos refl refl, of has_numpy spectrum payload f r])
      (use assms pos in \<open>auto simp: e wf_inv_def\<close>)
qed

lemma wf_aligned_step:
  assumes "wf_aligned w" and "4 dvd length (fst e)"
  shows "wf_aligned (wf_step has_numpy spectrum w e)"
proof -
  obtain payload f r where e: "e = (payload, f, r)" by (cases e) auto
  have pos: "0 < wf_fft_size w" using assms by (simp add: wf_aligned_def)
  let ?n = "nat (4 * wf_fft_size w)"
  have n: "4 dvd ?n" by (simp add: nat_mult_distrib)
  have b: "4 dvd length (wf_buffer w @ payload)" using assms by (simp add: wf_aligned_def e)
  show ?thesis
    by (cases rule: wf_compute_cases[OF pos refl refl, of has_numpy spectrum payload f r])
      (use assms n b in \<open>auto simp: e wf_aligned_def\<close>)
qed

interpretation wfb: event_machine "wf_step has_numpy spectrum" wf_inv for has_numpy spectrum
  by unfold_locales (rule wf_inv_step)

interpretation wfa: guarded_machine "wf_step has_numpy spectrum" wf_aligned "\<lambda>e. 4 dvd length (fst e)"
  for has_numpy spectrum
  by unfold_locales (rule wf_aligned_step)

lemma waterfall_init_ok: "0 < n \<Longrightarrow> wf_inv (waterfall_init n) \<and> wf_aligned (waterfall_init n)"
  by (simp add: wf_inv_def wf_aligned_def waterfall_init_def)

text \<open>
  C29 (the waterfall engine is bounded). With a positive transform size, whatever payloads arrive, the
  engine never holds more than four transforms of IQ bytes; as long as the payloads are whole
  samples, so is what it holds, and what it hands to the transform is always exactly one transform
  of consecutive bytes, the oldest it holds. These bytes are removed; when more than four transforms
  are left, all but the newest transform are dropped.
\<close>

theorem waterfall_bounded:
  assumes "0 < n" and "w = foldl (wf_step True spectrum) (waterfall_init n) es"
  shows "int (length (wf_buffer w)) \<le> 4 * (4 * n)
    \<and> (list_all (\<lambda>e. 4 dvd length (fst e)) es \<longrightarrow> 4 dvd length (wf_buffer w))
    \<and> (nat (4 * n) \<le> length (wf_buffer w @ payload) \<longrightarrow>
        snd (waterfall_compute True spectrum payload f r w) =
          rbind (spectrum (take (nat (4 * n)) (wf_buffer w @ payload))) (\<lambda>bins.
          rbind (spectrum_dict f r n bins) (\<lambda>d. Inr (Some d)))
        \<and> wf_buffer (fst (waterfall_compute True spectrum payload f r w)) =
          (let left = drop (nat (4 * n)) (wf_buffer w @ payload)
           in if 4 * (4 * n) < int (length left) then drop (length left - nat (4 * n)) left else left))"
proof -
  have inv: "wf_inv w" unfolding assms(2) by (rule wfb.run_inv) (simp add: waterfall_init_ok assms(1))
  have al: "list_all (\<lambda>e. 4 dvd length (fst e)) es \<Longrightarrow> wf_aligned w"
    unfolding assms(2) by (rule wfa.legal_run_inv) (simp add: waterfall_init_ok assms(1))
  have size: "wf_fft_size (foldl (wf_step True spectrum) w0 es) = wf_fft_size w0" for w0
    by (induction es arbitrary: w0) simp_all
  then have n: "wf_fft_size w = n" by (simp add: assms(2) waterfall_init_def)
  have "snd (waterfall_compute True spectrum payload f r w) =
          rbind (spectrum (take (nat (4 * n)) (wf_buffer w @ payload))) (\<lambda>bins.
          rbind (spectrum_dict f r n bins) (\<lambda>d. Inr (Some d)))" if "nat (4 * n) \<le> length (wf_buffer w @ payload)"
    by (cases rule: wf_compute_cases[of w, OF _ refl refl, of True spectrum payload f r])
      (use that n assms(1) in auto)
  moreover have "wf_buffer (fst (waterfall_compute True spectrum payload f r w)) =
      (let left = drop (nat (4 * n)) (wf_buffer w @ payload)
       in if 4 * (4 * n) < int (length left) then drop (length left - nat (4 * n)) left else left)"
    if "nat (4 * n) \<le> length (wf_buffer w @ payload)"
    using that assms(1) n by (auto simp: waterfall_compute_def Let_def slice_from_pos slice_from_neg mult.commute[of _ 4])
  ultimately show ?thesis using inv al n by (simp add: wf_inv_def wf_aligned_def)
qed

theorem waterfall_bounded_witness:
  "let w = foldl (wf_step True (\<lambda>_. Inr [FFin 0])) (waterfall_init 1) [([1, 2, 3, 4, 5, 6, 7, 8], 100, 1000)] in
   wf_buffer w = [5, 6, 7, 8] \<and>
   snd (waterfall_compute True (\<lambda>c. Inr (map (\<lambda>_. FFin 0) c)) [9, 9, 9, 9] 100 1000 w) =
     rbind (Inr (map (\<lambda>_. FFin 0) [5, 6, 7, 8 :: 8 word])) (\<lambda>bins. rbind (spectrum_dict 100 1000 1 bins) (\<lambda>d. Inr (Some d)))"
proof -
  let ?f = "\<lambda>c :: bytes. Inr (map (\<lambda>_. FFin 0) c)"
  let ?w = "foldl (wf_step True ?f) (waterfall_init 1) [([1, 2, 3, 4, 5, 6, 7, 8], 100, 1000)]"
  have w: "wf_buffer ?w = [5, 6, 7, 8]"
    "wf_buffer (foldl (wf_step True (\<lambda>_. Inr [FFin 0])) (waterfall_init 1) [([1, 2, 3, 4, 5, 6, 7, 8], 100, 1000)]) = [5, 6, 7, 8]"
    by (simp_all add: waterfall_compute_def waterfall_init_def slice_from_def slice_index_def Let_def)
  have "?w = foldl (wf_step True (\<lambda>_. Inr [FFin 0])) (waterfall_init 1) [([1, 2, 3, 4, 5, 6, 7, 8], 100, 1000)]"
    by (simp add: waterfall_compute_def waterfall_init_def Let_def)
  moreover have "snd (waterfall_compute True ?f [9, 9, 9, 9] 100 1000 ?w) =
      rbind (?f [5, 6, 7, 8]) (\<lambda>bins. rbind (spectrum_dict 100 1000 1 bins) (\<lambda>d. Inr (Some d)))"
    using waterfall_bounded[OF _ refl, of 1 ?f "[([1, 2, 3, 4, 5, 6, 7, 8], 100, 1000)]" "[9, 9, 9, 9]" 100 1000] w
    by simp
  ultimately show ?thesis using w by (simp add: Let_def)
qed

end
