(* ===== verification/Raw_Capture.thy ===== *)
theory Raw_Capture
  imports Message_Encoding
begin

text \<open>
  \<^verbatim>\<open>rpi/backend/sdr_backend/raw_capture.py\<close>. A capture opens a connection of its own, sends one
  request, reads one response line and then the announced number of raw bytes into a file. The
  connection and the file system are a \<open>capture_env\<close>: what opening, draining, reading and writing
  give. The result carries what was sent, whether the connection is still open at the end, and the
  files written.

  Shown here: a capture that returns has written exactly the announced bytes and closed its
  connection, one that raises has written nothing (a file whose writing failed counts as not written),
  and after an accepted request a failure leaves the connection open.
\<close>

record capture_env =
  ce_open :: "exn option"
  ce_drain :: "exn option"
  ce_line :: "bytes result"
  ce_read :: "int \<Rightarrow> bytes result"
  ce_write :: "exn option"

record capture =
  cp_sent :: bytes
  cp_open :: bool
  cp_files :: "(string \<times> bytes) list"

definition capture_request :: "int \<Rightarrow> int \<Rightarrow> pydict" where
  "capture_request adc_channel sample_count =
     build_request 1 ''capture_raw'' [(''adc_channel'', PInt adc_channel), (''sample_count'', PInt sample_count),
       (''sample_format'', PStr ''S16_LE'')]"

definition refusal :: "pydict \<Rightarrow> exn" where
  "refusal response =
     (case dget response ''error'' (PDict []) of
        PDict d \<Rightarrow> Exn RuntimeError (py_str (dget d ''message'' (PStr ''raw capture failed'')))
      | v \<Rightarrow> Exn AttributeError (repr_str (type_name v) @ '' object has no attribute '' @ repr_str ''get''))"

definition save_payload ::
    "capture_env \<Rightarrow> string \<Rightarrow> pydict \<Rightarrow> capture \<Rightarrow> capture \<times> pydict result" where
  "save_payload env output_path response c =
     (case rbind (dgetitem response ''payload_bytes'') py_int of Inl e \<Rightarrow> (c, Inl e)
      | Inr payload_bytes \<Rightarrow>
        (case ce_read env payload_bytes of Inl e \<Rightarrow> (c, Inl e)
         | Inr payload \<Rightarrow>
           (case ce_write env of Some e \<Rightarrow> (c, Inl e)
            | None \<Rightarrow> (c\<lparr>cp_files := cp_files c @ [(output_path, payload)], cp_open := False\<rparr>,
                       Inr (dset response ''path'' (PStr output_path))))))"

definition capture_raw :: "capture_env \<Rightarrow> int \<Rightarrow> int \<Rightarrow> string \<Rightarrow> capture \<times> pydict result" where
  "capture_raw env adc_channel sample_count output_path =
     (let c0 = \<lparr>cp_sent = [], cp_open = False, cp_files = []\<rparr> in
      case ce_open env of Some e \<Rightarrow> (c0, Inl e)
      | None \<Rightarrow>
        (let c1 = c0\<lparr>cp_open := True\<rparr> in
         case encode_json_line (capture_request adc_channel sample_count) of Inl e \<Rightarrow> (c1, Inl e)
         | Inr bs \<Rightarrow>
           (let c2 = c1\<lparr>cp_sent := bs\<rparr> in
            case ce_drain env of Some e \<Rightarrow> (c2, Inl e)
            | None \<Rightarrow>
              (case rbind (ce_line env) decode_json_line of Inl e \<Rightarrow> (c2, Inl e)
               | Inr response \<Rightarrow>
                 if \<not> py_bool (dget response ''ok'' PNone)
                 then (c2\<lparr>cp_open := False\<rparr>, Inl (refusal response))
                 else save_payload env output_path response c2))))"

section \<open>Outcome\<close>

lemma capture_request_encodes: "\<exists>bs. encode_json_line (capture_request ch n) = Inr bs"
  by (rule encode_encodable) (simp add: capture_request_def build_request_def dupdate_def less_char_def)

lemma capture_raw_opened:
  assumes "ce_open env = None" and "ce_drain env = None" and "rbind (ce_line env) decode_json_line = Inr response"
  shows "\<exists>c. cp_open c \<and> cp_files c = [] \<and> encode_json_line (capture_request ch n) = Inr (cp_sent c) \<and>
    capture_raw env ch n path =
      (if py_bool (dget response ''ok'' PNone) then save_payload env path response c
       else (c\<lparr>cp_open := False\<rparr>, Inl (refusal response)))"
proof -
  obtain bs where "encode_json_line (capture_request ch n) = Inr bs" using capture_request_encodes by blast
  then show ?thesis
    by (intro exI[of _ "\<lparr>cp_sent = bs, cp_open = True, cp_files = []\<rparr>"]) (simp add: capture_raw_def Let_def assms)
qed

text \<open>
  A raw capture saves what was announced. Reading exactly \<open>n\<close> bytes gives \<open>n\<close> bytes. Then a
  capture that returns has sent its request, written one file with as many bytes as the response
  announced, closed its connection, and returns the response with the path; a capture that raises
  has written no file. If the device accepted and a later step fails, the connection stays open.
\<close>

theorem capture_raw_outcome:
  assumes "\<forall>k bs. ce_read env k = Inr bs \<longrightarrow> int (length bs) = k"
    and "capture_raw env ch n path = (c, r)"
  shows "case r of
      Inr resp \<Rightarrow> \<not> cp_open c \<and> (\<exists>response k payload. rbind (ce_line env) decode_json_line = Inr response
        \<and> py_bool (dget response ''ok'' PNone) \<and> rbind (dgetitem response ''payload_bytes'') py_int = Inr k
        \<and> cp_files c = [(path, payload)] \<and> int (length payload) = k
        \<and> encode_json_line (capture_request ch n) = Inr (cp_sent c) \<and> resp = dset response ''path'' (PStr path))
    | Inl e \<Rightarrow> cp_files c = [] \<and> (ce_open env = None \<and> ce_drain env = None \<longrightarrow>
        (\<forall>response. rbind (ce_line env) decode_json_line = Inr response \<longrightarrow>
          cp_open c = py_bool (dget response ''ok'' PNone)))"
proof (cases "ce_open env = None \<and> ce_drain env = None \<and> (\<exists>response. rbind (ce_line env) decode_json_line = Inr response)")
  case True
  then obtain response where o: "ce_open env = None" "ce_drain env = None"
    and l: "rbind (ce_line env) decode_json_line = Inr response" by blast
  from capture_raw_opened[OF o l, of ch n path] obtain c0 where c0: "cp_open c0" "cp_files c0 = []"
    "encode_json_line (capture_request ch n) = Inr (cp_sent c0)"
    and cap: "capture_raw env ch n path = (if py_bool (dget response ''ok'' PNone)
       then save_payload env path response c0 else (c0\<lparr>cp_open := False\<rparr>, Inl (refusal response)))" by blast
  show ?thesis using assms(2) l c0 assms(1)
    by (auto simp: cap save_payload_def split: if_splits sum.splits option.splits)
next
  case False
  obtain bs where "encode_json_line (capture_request ch n) = Inr bs" using capture_request_encodes by blast
  with False assms(2) show ?thesis
    by (auto simp: capture_raw_def Let_def split: option.splits sum.splits)
qed

theorem capture_raw_outcome_witness:
  "\<exists>line c. encode_json_line [(''ok'', PBool True), (''payload_bytes'', PInt 2)] = Inr line \<and>
     capture_raw \<lparr>ce_open = None, ce_drain = None, ce_line = Inr line, ce_read = (\<lambda>k. Inr (replicate (nat k) 7)),
       ce_write = None\<rparr> 0 1 ''/tmp/x'' =
       (c, Inr [(''ok'', PBool True), (''payload_bytes'', PInt 2), (''path'', PStr ''/tmp/x'')])
     \<and> \<not> cp_open c \<and> cp_files c = [(''/tmp/x'', [7, 7])]
   \<and> (\<exists>c'. capture_raw \<lparr>ce_open = None, ce_drain = None, ce_line = Inr line,
         ce_read = (\<lambda>k. Inl (Exn TimeoutError '''')), ce_write = None\<rparr> 0 1 ''/tmp/x'' =
       (c', Inl (Exn TimeoutError '''')) \<and> cp_open c' \<and> cp_files c' = [])"
proof -
  let ?m = "[(''ok'', PBool True), (''payload_bytes'', PInt 2)]"
  have "encodable (PDict ?m)" by (simp add: less_char_def)
  then obtain line where line: "encode_json_line ?m = Inr line" using encode_encodable by blast
  then have dec: "decode_json_line line = Inr ?m" by (rule decode_encode) (simp add: dict_ok_def)
  obtain bs where bs: "encode_json_line (capture_request 0 1) = Inr bs" using capture_request_encodes by blast
  let ?bad = "\<lparr>ce_open = None, ce_drain = None, ce_line = Inr line,
      ce_read = (\<lambda>k. Inl (Exn TimeoutError '''')), ce_write = None\<rparr>"
  let ?c = "\<lparr>cp_sent = bs, cp_open = True, cp_files = []\<rparr>"
  have bad: "capture_raw ?bad 0 1 ''/tmp/x'' = (?c, Inl (Exn TimeoutError ''''))"
    by (simp add: capture_raw_def save_payload_def Let_def dec bs dget_def dgetitem_def)
  have "\<forall>k bs. ce_read ?bad k = Inr bs \<longrightarrow> int (length bs) = k" by simp
  from capture_raw_outcome[OF this bad] have "cp_open ?c \<and> cp_files ?c = []" by (simp add: dec dget_def)
  moreover have "capture_raw \<lparr>ce_open = None, ce_drain = None, ce_line = Inr line,
      ce_read = (\<lambda>k. Inr (replicate (nat k) 7)), ce_write = None\<rparr> 0 1 ''/tmp/x'' =
      (?c\<lparr>cp_files := [(''/tmp/x'', [7, 7])], cp_open := False\<rparr>,
       Inr [(''ok'', PBool True), (''payload_bytes'', PInt 2), (''path'', PStr ''/tmp/x'')])"
    by (simp add: capture_raw_def save_payload_def Let_def dec bs dget_def dgetitem_def numeral_2_eq_2)
  ultimately show ?thesis using line bad by (intro exI conjI) (assumption | simp)+
qed

end
