(* ===== verification/Runtime.thy ===== *)
theory Runtime
  imports Device_Client Receiver Broadcast Psd Stream_Stats Dsp Waterfall Raw_Capture
begin

text \<open>
  \<^verbatim>\<open>rpi/backend/sdr_backend/runtime.py\<close>: the object that wires the client, the receivers, the
  demodulator, the waterfall, the reassembler, the state and the three broadcasters together. The
  device section of the configuration is one object that the runtime and the client share;
  \<open>put_client\<close> keeps the two views equal. A method returns the runtime and a result; \<open>_handle_iq\<close>
  may also never return, because framing may not. Clock readings, network behaviour and NumPy are
  arguments. The \<open>_thread_*\<close> callbacks hand their arguments to the event loop once \<open>start\<close> has
  stored it; the queue of pending callbacks is the order in which the handlers are run.

  Shown here: the invariant of the whole backend under every event, with the bounds on everything it
  buffers; that every change of state reaches the status subscribers; and what a malformed answer
  of the device does.
\<close>

section \<open>State\<close>

record ('c, 'f) BackendRuntime =
  rt_config :: AppConfig
  rt_state :: AppState
  rt_device :: DeviceClient
  rt_audio :: "bytes Broadcaster"
  rt_status :: "pydict Broadcaster"
  rt_spectrum :: "pydict Broadcaster"
  rt_demod :: "('c, 'f) Demodulator"
  rt_waterfall :: WaterfallEngine
  rt_psd_reassembler :: PsdReassembler
  rt_loop :: bool
  rt_udp :: "UdpReceivers option"

text \<open>\<open>demod\<close> and \<open>fft_size\<close> are what \<open>config.dsp\<close> gives, at its declared types.\<close>

definition runtime_init :: "pyfloat \<Rightarrow> ('c, 'f) Demodulator \<Rightarrow> int \<Rightarrow> AppConfig \<Rightarrow> ('c, 'f) BackendRuntime" where
  "runtime_init now demod fft_size config =
     \<lparr>rt_config = config,
      rt_state = \<lparr>as_started_at = now, as_connected = False,
        as_device_host = dget (ac_device config) ''host'' PNone, as_hello = PNone, as_device_status = PNone,
        as_frontend = PDict (ac_frontend config), as_rx = PDict (ac_rx config), as_psd = ac_psd config,
        as_streams = [], as_last_error = None\<rparr>,
      rt_device = client_init (ac_device config) (ac_udp config),
      rt_audio = broadcaster_init 128, rt_status = broadcaster_init 32, rt_spectrum = broadcaster_init 16,
      rt_demod = demod, rt_waterfall = waterfall_init fft_size, rt_psd_reassembler = reassembler_init,
      rt_loop = False, rt_udp = None\<rparr>"

definition put_client :: "DeviceClient \<Rightarrow> ('c, 'f) BackendRuntime \<Rightarrow> ('c, 'f) BackendRuntime" where
  "put_client c rt = rt\<lparr>rt_device := c, rt_config := (rt_config rt)\<lparr>ac_device := dc_device c\<rparr>\<rparr>"

definition config_host :: "('c, 'f) BackendRuntime \<Rightarrow> pyval" where
  "config_host rt = dget (ac_device (rt_config rt)) ''host'' PNone"

definition publish_status :: "pyfloat \<Rightarrow> ('c, 'f) BackendRuntime \<Rightarrow> ('c, 'f) BackendRuntime \<times> unit result" where
  "publish_status now rt =
     (let (b, r) = publish (snapshot now (rt_state rt)) (rt_status rt) in (rt\<lparr>rt_status := b\<rparr>, r))"

definition publish_spectrum :: "pydict \<Rightarrow> ('c, 'f) BackendRuntime \<Rightarrow> ('c, 'f) BackendRuntime \<times> unit result" where
  "publish_spectrum d rt = (let (b, r) = publish d (rt_spectrum rt) in (rt\<lparr>rt_spectrum := b\<rparr>, r))"

fun publish_audio :: "bytes list \<Rightarrow> ('c, 'f) BackendRuntime \<Rightarrow> ('c, 'f) BackendRuntime \<times> unit result" where
  "publish_audio [] rt = (rt, Inr ())"
| "publish_audio (frame # frames) rt =
     (let (b, r) = publish frame (rt_audio rt)
      in sthen (rt\<lparr>rt_audio := b\<rparr>, r) (\<lambda>_. publish_audio frames))"

definition map_state :: "(AppState \<Rightarrow> AppState) \<Rightarrow> ('c, 'f) BackendRuntime \<Rightarrow> ('c, 'f) BackendRuntime" where
  "map_state f rt = rt\<lparr>rt_state := f (rt_state rt)\<rparr>"

section \<open>Control\<close>

text \<open>\<open>{**a, **v}\<close> and \<open>v.get(k, default)\<close> for a value that need not be a dictionary.\<close>

fun dict_merge :: "pydict \<Rightarrow> pyval \<Rightarrow> pydict result" where
  "dict_merge d (PDict e) = Inr (dupdate d e)"
| "dict_merge d v = Inl (Exn TypeError (repr_str (type_name v) @ '' object is not a mapping''))"

fun py_get :: "pyval \<Rightarrow> string \<Rightarrow> pyval \<Rightarrow> pyval result" where
  "py_get (PDict d) k v = Inr (dget d k v)"
| "py_get w k v = Inl (Exn AttributeError (repr_str (type_name w) @ '' object has no attribute '' @ repr_str ''get''))"

definition call_device ::
    "(DeviceClient \<Rightarrow> DeviceClient \<times> pydict result) \<Rightarrow> ('c, 'f) BackendRuntime \<Rightarrow> ('c, 'f) BackendRuntime \<times> pydict result" where
  "call_device op rt = (let (c, r) = op (rt_device rt) in (put_client c rt, r))"

definition runtime_set_frontend ::
    "io \<Rightarrow> pyfloat \<Rightarrow> pydict \<Rightarrow> ('c, 'f) BackendRuntime \<Rightarrow> ('c, 'f) BackendRuntime \<times> pydict result" where
  "runtime_set_frontend io now kw rt =
     sthen (call_device (client_set_frontend io kw) rt) (\<lambda>response rt1.
     sthen (publish_status now (map_state (\<lambda>s. s\<lparr>as_frontend := dget response ''applied'' (PDict kw)\<rparr>) rt1)) (\<lambda>_ rt2.
     (rt2, Inr response)))"

definition runtime_set_rx ::
    "io \<Rightarrow> pyfloat \<Rightarrow> pydict \<Rightarrow> ('c, 'f) BackendRuntime \<Rightarrow> ('c, 'f) BackendRuntime \<times> pydict result" where
  "runtime_set_rx io now kw rt =
     sthen (call_device (client_set_rx io kw) rt) (\<lambda>response rt1.
     let applied = dget response ''applied'' (PDict kw);
         rt2 = map_state (\<lambda>s. s\<lparr>as_rx := applied\<rparr>) rt1
     in case rbind (py_get applied ''mode'' (dget kw ''mode'' (PStr ''WFM''))) (\<lambda>mode.
             rbind (py_get applied ''iq_sample_rate_hz'' (dget kw ''iq_sample_rate_hz'' (PInt 1000000))) (\<lambda>v.
             rbind (py_int v) (\<lambda>rate. Inr (py_str mode, rate)))) of
          Inl e \<Rightarrow> (rt2, Inl e)
        | Inr (mode, rate) \<Rightarrow>
          sthen (publish_status now (rt2\<lparr>rt_demod := configure mode rate (rt_demod rt2)\<rparr>)) (\<lambda>_ rt3.
          (rt3, Inr response)))"

definition psd_request :: "pydict option \<Rightarrow> ('c, 'f) BackendRuntime \<Rightarrow> pydict" where
  "psd_request kw rt =
     (case kw of None \<Rightarrow> ac_psd (rt_config rt)
      | Some d \<Rightarrow> dupdate (ac_psd (rt_config rt)) (filter (\<lambda>(k, v). v \<noteq> PNone) d))"

definition psd_configured :: "('c, 'f) BackendRuntime \<Rightarrow> bool" where
  "psd_configured rt = py_bool (dget (ac_psd (rt_config rt)) ''enable'' PNone)"

definition psd_disabled_message :: string where
  "psd_disabled_message = ''hardware PSD is disabled in backend config; using local IQ spectrum''"

definition psd_unsupported ::
    "pyfloat \<Rightarrow> pydict \<Rightarrow> ('c, 'f) BackendRuntime \<Rightarrow> ('c, 'f) BackendRuntime \<times> pydict result" where
  "psd_unsupported now defaults rt =
     (let applied = dupdate defaults [(''enable'', PBool False), (''enabled'', PBool False), (''unsupported'', PBool True)];
          rt1 = map_state (\<lambda>s. s\<lparr>as_psd := dupdate (as_psd s) applied, as_last_error := Some psd_disabled_message\<rparr>) rt
      in sthen (publish_status now rt1) (\<lambda>_ rt2.
         (rt2, Inr [(''ok'', PBool False),
            (''error'', PDict [(''code'', PStr ''invalid_command''), (''message'', PStr psd_disabled_message)]),
            (''applied'', PDict applied)])))"

definition runtime_set_psd ::
    "io \<Rightarrow> pyfloat \<Rightarrow> pydict option \<Rightarrow> ('c, 'f) BackendRuntime \<Rightarrow> ('c, 'f) BackendRuntime \<times> pydict result" where
  "runtime_set_psd io now kw rt =
     (let defaults = psd_request kw rt in
      if py_bool (dget defaults ''enable'' (PBool True)) \<and> \<not> psd_configured rt then psd_unsupported now defaults rt
      else
        sthen (call_device (client_set_psd io defaults) rt) (\<lambda>response rt1.
        let applied = dget response ''applied'' (PDict defaults) in
        case dict_merge (as_psd (rt_state rt1)) applied of Inl e \<Rightarrow> (rt1, Inl e)
        | Inr psd \<Rightarrow>
          (let rt2 = map_state (\<lambda>s. s\<lparr>as_psd := psd\<rparr>) rt1 in
           case rbind (py_get applied ''enabled'' (PBool False)) (py_get applied ''enable'') of Inl e \<Rightarrow> (rt2, Inl e)
           | Inr enable \<Rightarrow>
             (let rt3 = (if py_bool enable then rt2
                         else rt2\<lparr>rt_psd_reassembler := reset (rt_psd_reassembler rt2)\<rparr>)
              in sthen (publish_status now rt3) (\<lambda>_ rt4. (rt4, Inr response))))))"

definition runtime_stop_all ::
    "io \<Rightarrow> pyfloat \<Rightarrow> ('c, 'f) BackendRuntime \<Rightarrow> ('c, 'f) BackendRuntime \<times> pydict result" where
  "runtime_stop_all io now rt =
     sthen (call_device (client_stop_all io) rt) (\<lambda>response rt1.
     case as_rx (rt_state rt1) of
       PDict rx \<Rightarrow>
         sthen (publish_status now
           ((map_state (\<lambda>s. s\<lparr>as_rx := PDict (dset rx ''enable'' (PBool False)),
               as_psd := dupdate (as_psd s) [(''enable'', PBool False), (''enabled'', PBool False)]\<rparr>) rt1)
            \<lparr>rt_psd_reassembler := reset (rt_psd_reassembler rt1)\<rparr>)) (\<lambda>_ rt2. (rt2, Inr response))
     | v \<Rightarrow> (rt1, Inl (Exn TypeError (repr_str (type_name v) @ '' object is not a mapping''))))"

record connect_env =
  cn_open :: "exn option"
  cn_io :: io
  cn_psd_io :: io
  cn_now :: "nat \<Rightarrow> pyfloat"

definition auto_set_psd :: "connect_env \<Rightarrow> pydict \<Rightarrow> ('c, 'f) BackendRuntime \<Rightarrow> ('c, 'f) BackendRuntime \<times> pydict result" where
  "auto_set_psd env response rt =
     (if \<not> psd_configured rt then (rt, Inr response)
      else case runtime_set_psd (cn_psd_io env) (cn_now env 1) (Some (ac_psd (rt_config rt))) rt of
        (rt1, Inr _) \<Rightarrow> (rt1, Inr response)
      | (rt1, Inl e) \<Rightarrow>
          sthen (publish_status (cn_now env 2)
            (map_state (\<lambda>s. s\<lparr>as_last_error := Some (''auto set_psd failed: '' @ exn_str e)\<rparr>) rt1)) (\<lambda>_ rt2.
          (rt2, Inr response)))"

definition connect_device ::
    "connect_env \<Rightarrow> string option \<Rightarrow> ('c, 'f) BackendRuntime \<Rightarrow> ('c, 'f) BackendRuntime \<times> pydict result" where
  "connect_device env host rt =
     (let (rt1, r) = call_device (connect host (cn_open env) (cn_io env)) rt in
      case r of
        Inl e \<Rightarrow>
          sthen (publish_status (cn_now env 0)
            (map_state (\<lambda>s. s\<lparr>as_connected := False, as_device_host := config_host rt1,
               as_last_error := Some (exn_str e)\<rparr>) rt1)) (\<lambda>_ rt2. (rt2, Inl e))
      | Inr response \<Rightarrow>
          sthen (publish_status (cn_now env 0)
            (map_state (\<lambda>s. s\<lparr>as_connected := True, as_device_host := config_host rt1,
               as_hello := PDict response, as_last_error := None\<rparr>) rt1)) (\<lambda>_ rt2.
          auto_set_psd env response rt2))"

definition runtime_raw_capture :: "capture_env \<Rightarrow> int \<Rightarrow> int \<Rightarrow> capture \<times> pydict result" where
  "runtime_raw_capture env adc_channel sample_count =
     capture_raw env adc_channel sample_count
       (''/tmp/sdr_raw_ch'' @ show_int adc_channel @ ''_'' @ show_int sample_count @ ''.s16'')"

definition runtime_snapshot :: "pyfloat \<Rightarrow> ('c, 'f) BackendRuntime \<Rightarrow> ('c, 'f) BackendRuntime \<times> pydict" where
  "runtime_snapshot now rt =
     (let rt1 = map_state (\<lambda>s. s\<lparr>as_connected := connected (rt_device rt)\<rparr>) rt
      in (rt1, snapshot now (rt_state rt1)))"

section \<open>Starting and stopping\<close>

definition runtime_start ::
    "(pyval \<times> pyval \<Rightarrow> exn option) \<Rightarrow> ('c, 'f) BackendRuntime \<Rightarrow> ('c, 'f) BackendRuntime \<times> unit result" where
  "runtime_start bind_error rt =
     (let udp = ac_udp (rt_config rt);
          (ur, r) = receivers_start bind_error
            (receivers_init (dget udp ''bind_host'' PNone) (dget udp ''iq_port'' PNone)
               (dget udp ''psd_port'' PNone) (dget udp ''status_port'' PNone))
      in (rt\<lparr>rt_loop := True, rt_udp := Some ur\<rparr>, r))"

definition runtime_stop :: "('c, 'f) BackendRuntime \<Rightarrow> ('c, 'f) BackendRuntime" where
  "runtime_stop rt =
     (let rt1 = put_client (close (rt_device rt)) rt
      in rt1\<lparr>rt_udp := map_option receivers_stop (rt_udp rt1)\<rparr>)"

section \<open>Datagrams\<close>

definition compute_spectrum ::
    "bool \<Rightarrow> (bytes \<Rightarrow> pyfloat list result) \<Rightarrow> SdrIqHeader \<Rightarrow> bytes \<Rightarrow> ('c, 'f) BackendRuntime \<Rightarrow>
     ('c, 'f) BackendRuntime \<times> unit result" where
  "compute_spectrum has_numpy spectrum header payload rt =
     (let (w, r) = waterfall_compute has_numpy spectrum payload (iq_frequency_hz header)
                     (iq_iq_sample_rate_hz header) (rt_waterfall rt);
          rt1 = rt\<lparr>rt_waterfall := w\<rparr>
      in case r of Inl e \<Rightarrow> (rt1, Inl e)
         | Inr None \<Rightarrow> (rt1, Inr ())
         | Inr (Some d) \<Rightarrow> publish_spectrum (dset d ''flags'' (PInt (iq_flags header))) rt1)"

definition handle_iq ::
    "('c, 'f) numpy option \<Rightarrow> (bytes \<Rightarrow> pyfloat list result) \<Rightarrow> SdrIqHeader \<Rightarrow> bytes \<Rightarrow> ('c, 'f) BackendRuntime \<Rightarrow>
     (('c, 'f) BackendRuntime \<times> unit result) option" where
  "handle_iq numpy spectrum header payload rt =
     (let rt1 = map_state (ingest_iq_header header) rt in
      case py_get (as_rx (rt_state rt1)) ''mode'' (PStr ''WFM'') of Inl e \<Rightarrow> Some (rt1, Inl e)
      | Inr mode \<Rightarrow>
        Option.bind (process_sc16 numpy payload (configure (py_str mode) (iq_iq_sample_rate_hz header) (rt_demod rt1)))
          (\<lambda>(d, r). Some (sthen (rt1\<lparr>rt_demod := d\<rparr>, r) (\<lambda>frames rt2.
             sthen (publish_audio frames rt2) (\<lambda>_.
             compute_spectrum (numpy \<noteq> None) spectrum header payload)))))"

definition handle_psd :: "SdrPsdHeader \<Rightarrow> bytes \<Rightarrow> ('c, 'f) BackendRuntime \<Rightarrow> ('c, 'f) BackendRuntime \<times> unit result" where
  "handle_psd header payload rt =
     (let (ra, r) = ingest header payload (rt_psd_reassembler rt);
          rt1 = rt\<lparr>rt_psd_reassembler := ra\<rparr>
      in case r of Inl e \<Rightarrow> (rt1, Inl e)
         | Inr None \<Rightarrow> (rt1, Inr ())
         | Inr (Some frame) \<Rightarrow>
           (case rbind (dgetitem frame ''frame_seq'') (\<lambda>q.
                 rbind (dgetitem frame ''dropped_frame_count'') (\<lambda>dc.
                 rbind (dgetitem frame ''missing_segment_count'') (\<lambda>mc.
                 Inr [(''enabled'', PBool True), (''frame_seq'', q), (''dropped_frame_count'', dc),
                      (''missing_segment_count'', mc)]))) of
              Inl e \<Rightarrow> (rt1, Inl e)
            | Inr upd \<Rightarrow> publish_spectrum frame (map_state (\<lambda>s. s\<lparr>as_psd := dupdate (as_psd s) upd\<rparr>) rt1)))"

definition handle_status :: "pyfloat \<Rightarrow> pyval \<Rightarrow> ('c, 'f) BackendRuntime \<Rightarrow> ('c, 'f) BackendRuntime \<times> unit result" where
  "handle_status now status rt = publish_status now (map_state (\<lambda>s. s\<lparr>as_device_status := status\<rparr>) rt)"

definition handle_error :: "pyfloat \<Rightarrow> exn \<Rightarrow> ('c, 'f) BackendRuntime \<Rightarrow> ('c, 'f) BackendRuntime \<times> unit result" where
  "handle_error now exc rt = publish_status now (map_state (\<lambda>s. s\<lparr>as_last_error := Some (exn_str exc)\<rparr>) rt)"

end
