(* ===== verification/Runtime_Inv.thy ===== *)
theory Runtime_Inv
  imports Runtime
begin

text \<open>
  The backend as one event machine: everything the web side, the device side, the heartbeat and the
  subscribers can do to the runtime, in any order, with its invariant.
\<close>

section \<open>The invariant\<close>

definition bcast_ok :: "int \<Rightarrow> 'a Broadcaster \<Rightarrow> bool" where
  "bcast_ok m b \<longleftrightarrow> b_inv b \<and> b_max_queue b = m"

text \<open>A demodulator with frames of positive length, and less than a frame of audio left over.\<close>

definition demod_ok :: "('c, 'f) Demodulator \<Rightarrow> bool" where
  "demod_ok d \<longleftrightarrow> 0 < dm_frame_samples d
     \<and> int (length (case dm_tail d of None \<Rightarrow> [] | Some tail \<Rightarrow> tail)) < dm_frame_samples d"

lemma demod_ok_configure: "demod_ok d \<Longrightarrow> demod_ok (configure mode rate d)"
  by (simp add: demod_ok_def configure_def Let_def)

definition rt_inv :: "('c, 'f) BackendRuntime \<Rightarrow> bool" where
  "rt_inv rt \<longleftrightarrow> bcast_ok 128 (rt_audio rt) \<and> bcast_ok 32 (rt_status rt) \<and> bcast_ok 16 (rt_spectrum rt)
     \<and> ra_inv (rt_psd_reassembler rt) \<and> wf_inv (rt_waterfall rt) \<and> client_inv (rt_device rt)
     \<and> demod_ok (rt_demod rt) \<and> ac_device (rt_config rt) = dc_device (rt_device rt)"

lemma bcast_ok_publish: "bcast_ok m b \<Longrightarrow> publish x b = (b', r) \<Longrightarrow> bcast_ok m b' \<and> r = Inr ()"
  using b_inv_publish[of b x] by (auto simp: bcast_ok_def publish_ok)

lemma bcast_ok_subscribe: "bcast_ok m b \<Longrightarrow> bcast_ok m (subscribe i b)"
  using b_inv_subscribe by (auto simp: bcast_ok_def subscribe_def)

lemma bcast_ok_unsubscribe: "bcast_ok m b \<Longrightarrow> bcast_ok m (unsubscribe i b)"
  using b_inv_unsubscribe by (auto simp: bcast_ok_def unsubscribe_def)

lemma bcast_ok_take: "bcast_ok m b \<Longrightarrow> take_item i b = Some (x, b') \<Longrightarrow> bcast_ok m b'"
  using b_inv_take by (fastforce simp: bcast_ok_def take_item_def split: option.splits)

lemma bcast_ok_init: "bcast_ok m (broadcaster_init m)"
  by (simp add: bcast_ok_def b_inv_init) (simp add: broadcaster_init_def)

lemma bcast_ok_bound: "bcast_ok m b \<Longrightarrow> 0 < m \<Longrightarrow> map_of (b_queues b) i = Some q \<Longrightarrow> int (length q) \<le> m"
  by (fastforce simp: bcast_ok_def b_inv_def bounded_def dest: map_of_SomeD)

section \<open>Building blocks\<close>

lemma rt_inv_map_state [simp]: "rt_inv (map_state f rt) = rt_inv rt"
  by (simp add: rt_inv_def map_state_def)

lemma rt_inv_put_client: "rt_inv rt \<Longrightarrow> client_inv c \<Longrightarrow> rt_inv (put_client c rt)"
  by (simp add: rt_inv_def put_client_def)

lemma publish_status_ok:
  assumes "rt_inv rt"
  shows "snd (publish_status now rt) = Inr () \<and> rt_inv (fst (publish_status now rt))
    \<and> rt_state (fst (publish_status now rt)) = rt_state rt"
  using assms by (auto simp: publish_status_def rt_inv_def split: prod.splits dest: bcast_ok_publish)

lemma publish_spectrum_ok:
  assumes "rt_inv rt"
  shows "snd (publish_spectrum d rt) = Inr () \<and> rt_inv (fst (publish_spectrum d rt))"
  using assms by (auto simp: publish_spectrum_def rt_inv_def split: prod.splits dest: bcast_ok_publish)

lemma publish_audio_ok: "rt_inv rt \<Longrightarrow> snd (publish_audio fs rt) = Inr () \<and> rt_inv (fst (publish_audio fs rt))"
proof (induction fs arbitrary: rt)
  case (Cons f fs)
  obtain b r where p: "publish f (rt_audio rt) = (b, r)" by fastforce
  with Cons.prems have "bcast_ok 128 b" "r = Inr ()" by (auto simp: rt_inv_def dest: bcast_ok_publish)
  with Cons.prems p Cons.IH[of "rt\<lparr>rt_audio := b\<rparr>"] show ?case by (simp add: rt_inv_def)
qed simp

text \<open>Whatever follows a publication of a status runs.\<close>

lemma sthen_publish_status:
  assumes "rt_inv rt"
  shows "sthen (publish_status now rt) k = k () (fst (publish_status now rt))"
  using publish_status_ok[OF assms, of now] by (cases "publish_status now rt") (auto simp: sthen_def)

lemma rt_inv_sthen:
  assumes "rt_inv (fst p)" and "\<And>x s. rt_inv s \<Longrightarrow> rt_inv (fst (k x s))"
  shows "rt_inv (fst (sthen p k))"
  using assms by (auto simp: sthen_def split: prod.splits sum.splits)

lemma client_inv_call: "client_inv c \<Longrightarrow> client_inv (fst (client_call cmd io kw c))"
  by (auto simp: client_call_def client_inv_request split: sum.splits)

lemma rt_inv_call_device:
  assumes "rt_inv rt" and "\<And>c. client_inv c \<Longrightarrow> client_inv (fst (op c))"
  shows "rt_inv (fst (call_device op rt))"
  using assms(1) assms(2)[of "rt_device rt"]
  by (auto simp: call_device_def rt_inv_def put_client_def split: prod.splits)

lemmas device_calls = client_set_frontend_def client_set_rx_def client_set_psd_def client_stop_all_def

section \<open>Operations\<close>

lemma rt_inv_set_frontend: "rt_inv rt \<Longrightarrow> rt_inv (fst (runtime_set_frontend io now kw rt))"
  unfolding runtime_set_frontend_def
  by (auto intro!: rt_inv_sthen rt_inv_call_device simp: device_calls client_inv_call publish_status_ok)

lemma rt_inv_set_rx: "rt_inv rt \<Longrightarrow> rt_inv (fst (runtime_set_rx io now kw rt))"
  unfolding runtime_set_rx_def
proof (intro rt_inv_sthen rt_inv_call_device)
  fix response and s :: "('a, 'b) BackendRuntime"
  assume s: "rt_inv s"
  have "rt_inv (s\<lparr>rt_demod := configure mode rate (rt_demod s)\<rparr>)" for mode rate
    using s by (simp add: rt_inv_def demod_ok_configure)
  then have "rt_inv ((map_state f s)\<lparr>rt_demod := configure mode rate (rt_demod (map_state f s))\<rparr>)" for mode rate f
    by (simp add: map_state_def rt_inv_def)
  then show "rt_inv (fst (let applied = dget response ''applied'' (PDict kw); rt2 = map_state (as_rx_update (\<lambda>_. applied)) s
      in case rbind (py_get applied ''mode'' (dget kw ''mode'' (PStr ''WFM''))) (\<lambda>mode.
              rbind (py_get applied ''iq_sample_rate_hz'' (dget kw ''iq_sample_rate_hz'' (PInt 1000000))) (\<lambda>v.
              rbind (py_int v) (\<lambda>rate. Inr (py_str mode, rate)))) of
           Inl e \<Rightarrow> (rt2, Inl e)
         | Inr (mode, rate) \<Rightarrow> sthen (publish_status now (rt2\<lparr>rt_demod := configure mode rate (rt_demod rt2)\<rparr>))
             (\<lambda>_ rt3. (rt3, Inr response))))"
    using s by (auto simp: Let_def publish_status_ok intro!: rt_inv_sthen split: sum.splits prod.splits)
qed (auto simp: device_calls client_inv_call)

lemma rt_inv_reset [simp]: "rt_inv rt \<Longrightarrow> rt_inv (rt\<lparr>rt_psd_reassembler := reset r\<rparr>)"
  by (simp add: rt_inv_def ra_inv_init)

lemma rt_inv_psd_unsupported: "rt_inv rt \<Longrightarrow> rt_inv (fst (psd_unsupported now d rt))"
  unfolding psd_unsupported_def Let_def by (auto intro!: rt_inv_sthen simp: publish_status_ok)

lemma rt_inv_set_psd: "rt_inv rt \<Longrightarrow> rt_inv (fst (runtime_set_psd io now kw rt))"
  unfolding runtime_set_psd_def Let_def
  by (auto intro!: rt_inv_sthen rt_inv_call_device rt_inv_reset rt_inv_psd_unsupported
      simp: device_calls client_inv_call publish_status_ok split: sum.splits)

lemma rt_inv_stop_all: "rt_inv rt \<Longrightarrow> rt_inv (fst (runtime_stop_all io now rt))"
  unfolding runtime_stop_all_def
  by (auto intro!: rt_inv_sthen rt_inv_call_device rt_inv_reset
      simp: device_calls client_inv_request publish_status_ok split: pyval.splits)

lemma rt_inv_auto_set_psd: "rt_inv rt \<Longrightarrow> rt_inv (fst (auto_set_psd env response rt))"
  using rt_inv_set_psd[of rt "cn_psd_io env" "cn_now env 1" "Some (ac_psd (rt_config rt))"]
  by (auto simp: auto_set_psd_def publish_status_ok intro!: rt_inv_sthen split: prod.splits sum.splits)

lemma rt_inv_connect: "rt_inv rt \<Longrightarrow> rt_inv (fst (connect_device env host rt))"
  using rt_inv_call_device[of rt "connect host (cn_open env) (cn_io env)"]
  by (auto simp: connect_device_def publish_status_ok client_inv_connect rt_inv_auto_set_psd
      intro!: rt_inv_sthen split: prod.splits sum.splits)

lemma rt_inv_stop: "rt_inv rt \<Longrightarrow> rt_inv (runtime_stop rt)"
  by (simp add: runtime_stop_def Let_def rt_inv_def put_client_def)

lemma rt_inv_start: "rt_inv rt \<Longrightarrow> rt_inv (fst (runtime_start b rt))"
  by (simp add: runtime_start_def Let_def rt_inv_def split: prod.splits)

section \<open>Datagrams\<close>

lemma demodulate_framing: "demodulate np iq d = (d1, r) \<Longrightarrow> dm_frame_samples d1 = dm_frame_samples d \<and> dm_tail d1 = dm_tail d"
  by (auto simp: demodulate_def demodulate_cw_def demodulate_fm_def Let_def split: if_splits sum.splits prod.splits)

lemma deemphasis_framing: "deemphasis np data d = (d1, r) \<Longrightarrow> dm_frame_samples d1 = dm_frame_samples d \<and> dm_tail d1 = dm_tail d"
  by (auto simp: deemphasis_def Let_def split: if_splits sum.splits prod.splits)

lemma demod_ok_cong:
  "dm_frame_samples d1 = dm_frame_samples d \<and> dm_tail d1 = dm_tail d \<Longrightarrow> demod_ok d1 = demod_ok d"
  by (simp add: demod_ok_def)

lemma demod_ok_init: "demodulator_init rate ms us = Inr d \<Longrightarrow> 0 < dm_frame_samples d \<Longrightarrow> demod_ok d"
  by (auto simp: demod_ok_def demodulator_init_def rbind_eq_Inr)

lemma split_frames_short: "0 < n \<Longrightarrow> length (snd (split_frames n xs)) < n"
proof (induction n xs rule: split_frames.induct)
  case (1 n xs)
  then show ?case
    by (subst split_frames.simps) (simp add: case_prod_beta Let_def)
qed

lemma frame_pcm_returns:
  assumes "demod_ok d"
  shows "\<exists>d' fs. frame_pcm np audio d = Some (d', fs) \<and> demod_ok d'"
proof -
  have pos: "0 < dm_frame_samples d" using assms by (simp add: demod_ok_def)
  show ?thesis
    using frame_pcm_eq[OF pos, of np audio] pos
      split_frames_short[of "nat (dm_frame_samples d)" "(case dm_tail d of Some t \<Rightarrow> t | None \<Rightarrow> []) @ audio"]
    by (simp add: case_prod_beta Let_def demod_ok_def)
qed

lemma process_sc16_returns:
  assumes "demod_ok d"
  shows "\<exists>d' r. process_sc16 numpy payload d = Some (d', r) \<and> demod_ok d'"
proof (cases "numpy = None \<or> payload = [] \<or> odd (length payload) \<or> length (i16s payload) < 2")
  case True
  then show ?thesis using assms by (auto simp: process_sc16_def split: option.splits)
next
  case False
  then obtain np where np: "numpy = Some np" "payload \<noteq> []" "even (length payload)" "\<not> length (i16s payload) < 2" by auto
  obtain d1 r1 where d1: "demodulate np (iq_pairs np (i16s payload)) d = (d1, r1)" by fastforce
  have f1: "demod_ok d1" using demod_ok_cong[OF demodulate_framing[OF d1]] assms by simp
  note start = process_sc16_def np d1
  show ?thesis
  proof (cases "rbind r1 (\<lambda>audio. resample np audio (dm_input_rate d1) (dm_audio_sample_rate_hz d1))")
    case (Inl e)
    then show ?thesis using f1 by (auto simp: start rbind_eq_Inl)
  next
    case (Inr audio1)
    then obtain audio where r1: "r1 = Inr audio"
      "resample np audio (dm_input_rate d1) (dm_audio_sample_rate_hz d1) = Inr audio1" by (auto simp: rbind_eq_Inr)
    obtain d2 r2 where d2: "(if dm_mode d1 = ''WFM'' then deemphasis np audio1 d1 else (d1, Inr audio1)) = (d2, r2)"
      by fastforce
    then have f2: "demod_ok d2"
      using f1 by (auto simp: demod_ok_def dest!: deemphasis_framing split: if_splits)
    show ?thesis
    proof (cases "rbind r2 (condition_audio np)")
      case (Inl e)
      then show ?thesis using f2 by (auto simp: start r1 d2 rbind_eq_Inl)
    next
      case (Inr audio3)
      then obtain audio2 where r2: "r2 = Inr audio2" "condition_audio np audio2 = Inr audio3"
        by (auto simp: rbind_eq_Inr)
      obtain d3 fs where "frame_pcm np audio3 d2 = Some (d3, fs)" "demod_ok d3"
        using frame_pcm_returns[OF f2, of np audio3] by blast
      then show ?thesis by (simp add: start r1 d2 r2)
    qed
  qed
qed

lemma rt_inv_compute_spectrum: "rt_inv rt \<Longrightarrow> rt_inv (fst (compute_spectrum b sp h p rt))"
proof -
  assume inv: "rt_inv rt"
  obtain w r where w: "waterfall_compute b sp p (iq_frequency_hz h) (iq_iq_sample_rate_hz h) (rt_waterfall rt) = (w, r)"
    by fastforce
  have "wf_inv w" using wf_inv_step[of "rt_waterfall rt" b sp "(p, iq_frequency_hz h, iq_iq_sample_rate_hz h)"] inv w
    by (simp add: rt_inv_def)
  then have "rt_inv (rt\<lparr>rt_waterfall := w\<rparr>)" using inv by (simp add: rt_inv_def)
  then show ?thesis by (auto simp: compute_spectrum_def Let_def w publish_spectrum_ok split: sum.splits option.splits)
qed

lemma rt_inv_handle_iq:
  assumes "rt_inv rt"
  shows "\<exists>rt' r. handle_iq numpy sp h p rt = Some (rt', r) \<and> rt_inv rt'"
proof (cases "py_get (as_rx (rt_state (map_state (ingest_iq_header h) rt))) ''mode'' (PStr ''WFM'')")
  case (Inl e)
  then show ?thesis using assms by (simp add: handle_iq_def Let_def)
next
  case (Inr mode)
  let ?rt1 = "map_state (ingest_iq_header h) rt"
  let ?d = "configure (py_str mode) (iq_iq_sample_rate_hz h) (rt_demod ?rt1)"
  have "demod_ok ?d" using assms by (intro demod_ok_configure) (simp add: map_state_def rt_inv_def)
  then obtain d' r where d': "process_sc16 numpy p ?d = Some (d', r)" "demod_ok d'"
    using process_sc16_returns by blast
  have "rt_inv (?rt1\<lparr>rt_demod := d'\<rparr>)" using assms d'(2) by (simp add: rt_inv_def map_state_def)
  then have "rt_inv (fst (sthen (?rt1\<lparr>rt_demod := d'\<rparr>, r) (\<lambda>frames rt2. sthen (publish_audio frames rt2)
      (\<lambda>_. compute_spectrum (numpy \<noteq> None) sp h p))))" (is "rt_inv (fst ?out)")
    by (intro rt_inv_sthen) (simp_all add: publish_audio_ok rt_inv_compute_spectrum)
  moreover have "handle_iq numpy sp h p rt = Some ?out"
    unfolding handle_iq_def Let_def Inr by (simp only: sum.case d'(1) Option.bind.bind_lunit prod.case)
  ultimately show ?thesis by (cases ?out) simp
qed

lemma rt_inv_handle_psd: "rt_inv rt \<Longrightarrow> rt_inv (fst (handle_psd h p rt))"
proof -
  assume inv: "rt_inv rt"
  obtain ra r where ra: "ingest h p (rt_psd_reassembler rt) = (ra, r)" by fastforce
  then have "ra_inv ra" using ra_inv_ingest[of "rt_psd_reassembler rt" h p] inv by (simp add: rt_inv_def)
  then have "rt_inv (rt\<lparr>rt_psd_reassembler := ra\<rparr>)" using inv by (simp add: rt_inv_def)
  then show ?thesis by (auto simp: handle_psd_def Let_def ra publish_spectrum_ok split: sum.splits option.splits)
qed

lemma rt_inv_handle_status: "rt_inv rt \<Longrightarrow> rt_inv (fst (handle_status now v rt)) \<and> rt_inv (fst (handle_error now e rt))"
  by (simp add: handle_status_def handle_error_def publish_status_ok)

section \<open>The backend as an event machine\<close>

datatype channel = AudioChannel | StatusChannel | SpectrumChannel

datatype rt_event =
    ConnectDevice connect_env "string option" | SetFrontend io pyfloat pydict | SetRx io pyfloat pydict
  | SetPsd io pyfloat "pydict option" | StopAll io pyfloat | TakeSnapshot pyfloat
  | StartRuntime "pyval \<times> pyval \<Rightarrow> exn option" | StopRuntime | Ping io
  | IqPacket "bytes \<Rightarrow> pyfloat list result" SdrIqHeader bytes | PsdPacket SdrPsdHeader bytes
  | StatusReport pyfloat pyval | ErrorReport pyfloat exn
  | Subscribe channel nat | Unsubscribe channel nat | TakeItem channel nat

definition taken :: "nat \<Rightarrow> 'a Broadcaster \<Rightarrow> 'a Broadcaster" where
  "taken i b = (case take_item i b of None \<Rightarrow> b | Some (x, b') \<Rightarrow> b')"

fun on_channel :: "channel \<Rightarrow> (bytes Broadcaster \<Rightarrow> bytes Broadcaster) \<Rightarrow> (pydict Broadcaster \<Rightarrow> pydict Broadcaster) \<Rightarrow>
    ('c, 'f) BackendRuntime \<Rightarrow> ('c, 'f) BackendRuntime" where
  "on_channel AudioChannel f g rt = rt\<lparr>rt_audio := f (rt_audio rt)\<rparr>"
| "on_channel StatusChannel f g rt = rt\<lparr>rt_status := g (rt_status rt)\<rparr>"
| "on_channel SpectrumChannel f g rt = rt\<lparr>rt_spectrum := g (rt_spectrum rt)\<rparr>"

text \<open>An exception of a handler is the event loop's or the web server's to report; the runtime goes on.\<close>

fun runtime_step :: "('c, 'f) numpy option \<Rightarrow> ('c, 'f) BackendRuntime \<Rightarrow> rt_event \<Rightarrow> ('c, 'f) BackendRuntime option" where
  "runtime_step numpy rt (ConnectDevice env host) = Some (fst (connect_device env host rt))"
| "runtime_step numpy rt (SetFrontend io now kw) = Some (fst (runtime_set_frontend io now kw rt))"
| "runtime_step numpy rt (SetRx io now kw) = Some (fst (runtime_set_rx io now kw rt))"
| "runtime_step numpy rt (SetPsd io now kw) = Some (fst (runtime_set_psd io now kw rt))"
| "runtime_step numpy rt (StopAll io now) = Some (fst (runtime_stop_all io now rt))"
| "runtime_step numpy rt (TakeSnapshot now) = Some (fst (runtime_snapshot now rt))"
| "runtime_step numpy rt (StartRuntime b) = Some (fst (runtime_start b rt))"
| "runtime_step numpy rt StopRuntime = Some (runtime_stop rt)"
| "runtime_step numpy rt (Ping io) = Some (put_client (heartbeat_tick io (rt_device rt)) rt)"
| "runtime_step numpy rt (IqPacket sp h p) = map_option fst (handle_iq numpy sp h p rt)"
| "runtime_step numpy rt (PsdPacket h p) = Some (fst (handle_psd h p rt))"
| "runtime_step numpy rt (StatusReport now v) = Some (fst (handle_status now v rt))"
| "runtime_step numpy rt (ErrorReport now e) = Some (fst (handle_error now e rt))"
| "runtime_step numpy rt (Subscribe ch i) = Some (on_channel ch (subscribe i) (subscribe i) rt)"
| "runtime_step numpy rt (Unsubscribe ch i) = Some (on_channel ch (unsubscribe i) (unsubscribe i) rt)"
| "runtime_step numpy rt (TakeItem ch i) = Some (on_channel ch (taken i) (taken i) rt)"

definition run_step :: "('c, 'f) numpy option \<Rightarrow> ('c, 'f) BackendRuntime option \<Rightarrow> rt_event \<Rightarrow> ('c, 'f) BackendRuntime option" where
  "run_step numpy s e = Option.bind s (\<lambda>rt. runtime_step numpy rt e)"

definition running_ok :: "('c, 'f) BackendRuntime option \<Rightarrow> bool" where
  "running_ok s \<longleftrightarrow> (\<exists>rt. s = Some rt \<and> rt_inv rt)"

lemma bcast_ok_taken: "bcast_ok m b \<Longrightarrow> bcast_ok m (taken i b)"
  by (auto simp: taken_def split: option.splits dest: bcast_ok_take)

lemma rt_inv_on_channel:
  assumes "rt_inv rt" and "\<And>m b. bcast_ok m b \<Longrightarrow> bcast_ok m (f b)" and "\<And>m b. bcast_ok m b \<Longrightarrow> bcast_ok m (g b)"
  shows "rt_inv (on_channel ch f g rt)"
  using assms by (cases ch) (simp_all add: rt_inv_def)

lemma rt_inv_snapshot: "rt_inv rt \<Longrightarrow> rt_inv (fst (runtime_snapshot now rt))"
  by (simp add: runtime_snapshot_def Let_def)

lemma rt_inv_ping: "rt_inv rt \<Longrightarrow> rt_inv (put_client (heartbeat_tick io (rt_device rt)) rt)"
  using client_inv_step[of "rt_device rt" "Heartbeat io"] by (intro rt_inv_put_client) (simp_all add: rt_inv_def)

lemmas rt_inv_ops = rt_inv_connect rt_inv_set_frontend rt_inv_set_rx rt_inv_set_psd rt_inv_stop_all rt_inv_snapshot
  rt_inv_start rt_inv_stop rt_inv_ping rt_inv_handle_psd rt_inv_handle_status

lemma rt_inv_step: "rt_inv rt \<Longrightarrow> running_ok (runtime_step numpy rt e)"
proof (cases e)
  case (IqPacket sp h p)
  assume "rt_inv rt"
  then show ?thesis using rt_inv_handle_iq[of rt numpy sp h p] IqPacket by (auto simp: running_ok_def)
qed (auto simp: running_ok_def rt_inv_ops intro!: rt_inv_on_channel bcast_ok_subscribe bcast_ok_unsubscribe bcast_ok_taken)

lemma running_ok_step: "running_ok s \<Longrightarrow> running_ok (run_step numpy s e)"
  using rt_inv_step by (auto simp: running_ok_def[of s] run_step_def)

interpretation rtm: event_machine "run_step numpy" running_ok for numpy
  by unfold_locales (rule running_ok_step)

lemma rt_inv_init:
  assumes "demod_ok demod" and "0 < fft_size"
  shows "rt_inv (runtime_init now demod fft_size config)"
  using assms waterfall_init_ok
  by (simp add: rt_inv_def runtime_init_def bcast_ok_init ra_inv_init client_inv_def client_init_def)

text \<open>
  C3 (the backend keeps running; its queues, its IQ buffer and its audio remainder are bounded). With
  frames and transforms of positive length, whatever the web clients, the device, the network and the
  subscribers do, in any order: every handler returns, no subscriber's queue ever holds more than 128
  audio frames, 32 status or 16 spectrum messages, the waterfall buffer stays within four transforms,
  the demodulator keeps less than one frame of audio, the heartbeat runs only on an open connection,
  and the runtime and its client agree on the device section of the configuration. The frames pending
  in the PSD reassembler are not bounded: \<open>descending_frames_stay_pending\<close>.
\<close>

theorem runtime_invariant:
  assumes "demodulator_init rate ms us = Inr demod" and "0 < dm_frame_samples demod" and "0 < fft_size"
  shows "\<exists>rt. foldl (run_step numpy) (Some (runtime_init now demod fft_size config)) es = Some rt
    \<and> (\<forall>i q. map_of (b_queues (rt_audio rt)) i = Some q \<longrightarrow> length q \<le> 128)
    \<and> (\<forall>i q. map_of (b_queues (rt_status rt)) i = Some q \<longrightarrow> length q \<le> 32)
    \<and> (\<forall>i q. map_of (b_queues (rt_spectrum rt)) i = Some q \<longrightarrow> length q \<le> 16)
    \<and> int (length (wf_buffer (rt_waterfall rt))) \<le> 16 * wf_fft_size (rt_waterfall rt)
    \<and> (\<forall>tail. dm_tail (rt_demod rt) = Some tail \<longrightarrow> int (length tail) < dm_frame_samples (rt_demod rt))
    \<and> (dc_heartbeat (rt_device rt) \<longrightarrow> dc_link (rt_device rt) \<noteq> None)
    \<and> ac_device (rt_config rt) = dc_device (rt_device rt)"
proof -
  have "demod_ok demod" using demod_ok_init assms(1,2) by blast
  then have "running_ok (foldl (run_step numpy) (Some (runtime_init now demod fft_size config)) es)"
    by (intro rtm.run_inv) (simp add: running_ok_def rt_inv_init assms)
  then obtain rt where rt: "foldl (run_step numpy) (Some (runtime_init now demod fft_size config)) es = Some rt"
    and inv: "rt_inv rt" by (auto simp: running_ok_def)
  have "int (length q) \<le> 128" if "map_of (b_queues (rt_audio rt)) i = Some q" for i q
    using bcast_ok_bound[OF _ _ that, of 128] inv by (simp add: rt_inv_def)
  moreover have "int (length q) \<le> 32" if "map_of (b_queues (rt_status rt)) i = Some q" for i q
    using bcast_ok_bound[OF _ _ that, of 32] inv by (simp add: rt_inv_def)
  moreover have "int (length q) \<le> 16" if "map_of (b_queues (rt_spectrum rt)) i = Some q" for i q
    using bcast_ok_bound[OF _ _ that, of 16] inv by (simp add: rt_inv_def)
  moreover have "\<forall>tail. dm_tail (rt_demod rt) = Some tail \<longrightarrow> int (length tail) < dm_frame_samples (rt_demod rt)"
    using inv by (auto simp: rt_inv_def demod_ok_def)
  ultimately show ?thesis using rt inv by (fastforce simp: rt_inv_def wf_inv_def client_inv_def)
qed

text \<open>The demodulator of the default configuration: 20 ms of audio at 48 kHz are 960 samples.\<close>

definition default_demodulator :: "('c, 'f) Demodulator" where
  "default_demodulator = \<lparr>dm_audio_sample_rate_hz = 48000, dm_frame_samples = 960, dm_wfm_deemphasis_us = FFin 50,
     dm_mode = ''WFM'', dm_input_rate = 1000000, dm_tail = None, dm_last_iq = None, dm_cw_phase = FFin 0,
     dm_deemph_last = FFin 0\<rparr>"

lemma default_demodulator_init: "demodulator_init 48000 20 (FFin 50) = Inr default_demodulator"
proof -
  have "int_truediv (48000 * 20) 1000 = Inr (FFin 960)" by code_simp
  moreover have "int_of_float (FFin 960) = Inr 960" by code_simp
  ultimately show ?thesis by (simp add: demodulator_init_def default_demodulator_def)
qed

theorem runtime_invariant_witness:
  "\<exists>rt. foldl (run_step (Some toy_numpy)) (Some (runtime_init (FFin 0) default_demodulator 2048 app_config_default))
      [Subscribe AudioChannel 1, StatusReport (FFin 1) PNone] = Some rt
    \<and> map_of (b_queues (rt_audio rt)) 1 = Some [] \<and> int (length (wf_buffer (rt_waterfall rt))) \<le> 16 * 2048"
proof -
  let ?rt0 = "runtime_init (FFin 0) default_demodulator 2048 app_config_default"
  have "0 < dm_frame_samples default_demodulator" "0 < (2048 :: int)" by (simp_all add: default_demodulator_def)
  from runtime_invariant[OF default_demodulator_init this, of "Some toy_numpy" "FFin 0" app_config_default
      "[Subscribe AudioChannel 1, StatusReport (FFin 1) PNone]"]
  obtain rt where rt: "foldl (run_step (Some toy_numpy)) (Some ?rt0)
      [Subscribe AudioChannel 1, StatusReport (FFin 1) PNone] = Some rt"
    and b: "int (length (wf_buffer (rt_waterfall rt))) \<le> 16 * wf_fft_size (rt_waterfall rt)" by blast
  have "wf_fft_size (rt_waterfall rt) = 2048" "map_of (b_queues (rt_audio rt)) 1 = Some []"
    using rt by (auto simp: run_step_def handle_status_def publish_status_def map_state_def runtime_init_def
        waterfall_init_def subscribe_def broadcaster_init_def split: prod.splits)
  with rt b show ?thesis by auto
qed

end
