(* ===== verification/Runtime_Status.thy ===== *)
theory Runtime_Status
  imports Runtime_Inv
begin

text \<open>
  What the subscribers of the backend learn: after a control operation that returns, after connecting
  and after a report the newest status message in every queue is the snapshot of the new state, and
  an operation that raises announces nothing; and what an answer of the device with the wrong type in it
  does to the audio path.
\<close>

section \<open>Announcements\<close>

text \<open>The newest item of every status queue is the snapshot of the present state.\<close>

definition announced :: "pyfloat \<Rightarrow> ('c, 'f) BackendRuntime \<Rightarrow> bool" where
  "announced now rt \<longleftrightarrow> (\<forall>i q. map_of (b_queues (rt_status rt)) i = Some q \<longrightarrow>
     q \<noteq> [] \<and> last q = snapshot now (rt_state rt))"

lemma publish_status_announces:
  assumes "rt_inv rt"
  shows "announced now (fst (publish_status now rt))"
proof -
  let ?x = "snapshot now (rt_state rt)"
  have ok: "b_inv (rt_status rt)" "b_max_queue (rt_status rt) = 32" using assms by (simp_all add: rt_inv_def bcast_ok_def)
  have "window 32 (q @ [?x]) \<noteq> [] \<and> last (window 32 (q @ [?x])) = ?x" for q
    by (simp add: window_def)
  then show ?thesis using map_of_publish[OF ok(1), of ?x] ok(2)
    by (auto simp: announced_def publish_status_def split: prod.splits)
qed

lemma sthen_announced:
  assumes "\<And>x rt'. p = (rt', Inr x) \<Longrightarrow> snd (k x rt') = Inr y \<Longrightarrow> announced now (fst (k x rt'))"
    and "snd (sthen p k) = Inr y"
  shows "announced now (fst (sthen p k))"
  using assms by (cases p; cases "snd p") (auto simp: sthen_def)

lemma publish_then_announced:
  assumes "rt_inv rt"
  shows "announced now (fst (sthen (publish_status now rt) (\<lambda>_ rt'. (rt', r))))"
  using publish_status_announces[OF assms] by (simp add: sthen_publish_status[OF assms])

lemma call_device_inv:
  assumes "rt_inv rt" and "\<And>c. client_inv c \<Longrightarrow> client_inv (fst (op c))" and "call_device op rt = (rt', r)"
  shows "rt_inv rt'"
  using rt_inv_call_device[of rt op, OF assms(1,2)] assms(3) by simp

text \<open>A method that calls the device first and announces in what it does with the answer.\<close>

lemma device_call_announced:
  assumes "rt_inv rt" and "\<And>c. client_inv c \<Longrightarrow> client_inv (fst (op c))"
    and "\<And>response rt1. rt_inv rt1 \<Longrightarrow> snd (k response rt1) = Inr y \<Longrightarrow> announced now (fst (k response rt1))"
    and "snd (sthen (call_device op rt) k) = Inr y"
  shows "announced now (fst (sthen (call_device op rt) k))"
  using assms(3) by (rule sthen_announced[OF _ assms(4)]) (rule call_device_inv[OF assms(1,2)])

lemma set_frontend_announced:
  assumes "rt_inv rt" and "snd (runtime_set_frontend io now kw rt) = Inr resp"
  shows "announced now (fst (runtime_set_frontend io now kw rt))"
  unfolding runtime_set_frontend_def
  by (rule device_call_announced[OF assms(1) _ _ assms(2)[unfolded runtime_set_frontend_def]])
    (simp_all add: device_calls client_inv_call publish_then_announced)

lemma set_rx_announced:
  assumes "rt_inv rt" and "snd (runtime_set_rx io now kw rt) = Inr resp"
  shows "announced now (fst (runtime_set_rx io now kw rt))"
proof -
  have demod: "rt_inv (s\<lparr>rt_demod := configure mode rate (rt_demod s)\<rparr>)" if "rt_inv s" for mode rate and s :: "('a, 'b) BackendRuntime"
    using that by (simp add: rt_inv_def demod_ok_configure)
  show ?thesis unfolding runtime_set_rx_def
    by (rule device_call_announced[OF assms(1) _ _ assms(2)[unfolded runtime_set_rx_def]])
      (auto simp: device_calls client_inv_call Let_def intro!: publish_then_announced demod split: sum.splits prod.splits)
qed

lemma stop_all_announced:
  assumes "rt_inv rt" and "snd (runtime_stop_all io now rt) = Inr resp"
  shows "announced now (fst (runtime_stop_all io now rt))"
  unfolding runtime_stop_all_def
  by (rule device_call_announced[OF assms(1) _ _ assms(2)[unfolded runtime_stop_all_def]])
    (auto simp: device_calls client_inv_request publish_then_announced split: pyval.splits)

lemma set_psd_announced:
  assumes "rt_inv rt" and "snd (runtime_set_psd io now kw rt) = Inr resp"
  shows "announced now (fst (runtime_set_psd io now kw rt))"
proof (cases "py_bool (dget (psd_request kw rt) ''enable'' (PBool True)) \<and> \<not> psd_configured rt")
  case True
  then show ?thesis using assms(1)
    by (simp add: runtime_set_psd_def Let_def psd_unsupported_def publish_then_announced)
next
  case False
  note eq = runtime_set_psd_def[unfolded Let_def, THEN trans, OF if_not_P, OF False]
  show ?thesis unfolding eq
    by (rule device_call_announced[OF assms(1) _ _ assms(2)[unfolded eq]])
      (auto simp: device_calls client_inv_call publish_then_announced split: sum.splits if_splits)
qed

lemma connect_announced:
  assumes "rt_inv rt"
  shows "\<exists>k. announced (cn_now env k) (fst (connect_device env host rt))"
proof -
  obtain rt1 r where c: "call_device (connect host (cn_open env) (cn_io env)) rt = (rt1, r)" by fastforce
  have inv: "rt_inv rt1" by (rule call_device_inv[OF assms _ c]) (simp add: client_inv_connect)
  show ?thesis
  proof (cases r)
    case (Inl e)
    with inv show ?thesis by (auto simp: connect_device_def c intro!: exI[of _ 0] publish_then_announced)
  next
    case (Inr response)
    let ?rt2 = "fst (publish_status (cn_now env 0) (map_state (\<lambda>s. s\<lparr>as_connected := True,
        as_device_host := config_host rt1, as_hello := PDict response, as_last_error := None\<rparr>) rt1))"
    have inv2: "rt_inv ?rt2" using inv by (simp add: publish_status_ok)
    have eq: "connect_device env host rt = auto_set_psd env response ?rt2"
      using Inr inv by (simp add: connect_device_def c sthen_publish_status)
    obtain rt3 r3 where s: "runtime_set_psd (cn_psd_io env) (cn_now env 1) (Some (ac_psd (rt_config ?rt2))) ?rt2 = (rt3, r3)"
      by fastforce
    then have inv3: "rt_inv rt3" using rt_inv_set_psd[OF inv2] by (metis fst_conv)
    show ?thesis
    proof (cases "psd_configured ?rt2")
      case False
      then show ?thesis using inv by (auto simp: eq auto_set_psd_def intro!: exI[of _ 0] publish_status_announces)
    next
      case True
      show ?thesis
      proof (cases r3)
        case (Inl e)
        then show ?thesis using True s inv3
          by (auto simp: eq auto_set_psd_def intro!: exI[of _ 2] publish_then_announced)
      next
        case (Inr x)
        then have "announced (cn_now env 1) rt3"
          using set_psd_announced[OF inv2, of "cn_psd_io env" "cn_now env 1" "Some (ac_psd (rt_config ?rt2))" x] s by simp
        then show ?thesis using True s Inr by (auto simp: eq auto_set_psd_def)
      qed
    qed
  qed
qed

subsection \<open>Operations that raise\<close>

text \<open>An operation announces when it returns, and changes neither the state nor a queue when it raises.\<close>

definition announced_or_unchanged :: "pyfloat \<Rightarrow> ('c, 'f) BackendRuntime \<Rightarrow> ('c, 'f) BackendRuntime \<times> 'r result \<Rightarrow> bool" where
  "announced_or_unchanged now rt p \<longleftrightarrow> (case p of (rt', Inr _) \<Rightarrow> announced now rt'
     | (rt', Inl e) \<Rightarrow> rt_state rt' = rt_state rt \<and> rt_status rt' = rt_status rt)"

lemma announced_or_unchangedI:
  assumes "\<And>x. snd p = Inr x \<Longrightarrow> announced now (fst p)"
    and "\<And>e. snd p = Inl e \<Longrightarrow> rt_state (fst p) = rt_state rt \<and> rt_status (fst p) = rt_status rt"
  shows "announced_or_unchanged now rt p"
  using assms by (cases p; cases "snd p") (auto simp: announced_or_unchanged_def)

lemma call_device_unchanged: "call_device op rt = (rt', r) \<Longrightarrow> rt_state rt' = rt_state rt \<and> rt_status rt' = rt_status rt"
  by (auto simp: call_device_def put_client_def split: prod.splits)

text \<open>What follows the device's answer may raise only with the state and the queues as they were.\<close>

lemma device_call_unchanged:
  assumes "rt_inv rt" and "\<And>c. client_inv c \<Longrightarrow> client_inv (fst (op c))"
    and "\<And>response rt1. rt_inv rt1 \<Longrightarrow> snd (k response rt1) = Inl e \<Longrightarrow>
      rt_state (fst (k response rt1)) = rt_state rt1 \<and> rt_status (fst (k response rt1)) = rt_status rt1"
    and "snd (sthen (call_device op rt) k) = Inl e"
  shows "rt_state (fst (sthen (call_device op rt) k)) = rt_state rt \<and> rt_status (fst (sthen (call_device op rt) k)) = rt_status rt"
proof -
  obtain rt1 r where c: "call_device op rt = (rt1, r)" by fastforce
  have "rt_inv rt1" by (rule call_device_inv[OF assms(1,2) c])
  with assms(3)[of rt1] assms(4) call_device_unchanged[OF c] show ?thesis by (cases r) (simp_all add: c)
qed

lemma set_frontend_unchanged:
  assumes "rt_inv rt" and "snd (runtime_set_frontend io now kw rt) = Inl e"
  shows "rt_state (fst (runtime_set_frontend io now kw rt)) = rt_state rt
    \<and> rt_status (fst (runtime_set_frontend io now kw rt)) = rt_status rt"
  unfolding runtime_set_frontend_def
  by (rule device_call_unchanged[OF assms(1) _ _ assms(2)[unfolded runtime_set_frontend_def]])
    (simp_all add: device_calls client_inv_call sthen_publish_status)

lemma stop_all_unchanged:
  assumes "rt_inv rt" and "snd (runtime_stop_all io now rt) = Inl e"
  shows "rt_state (fst (runtime_stop_all io now rt)) = rt_state rt
    \<and> rt_status (fst (runtime_stop_all io now rt)) = rt_status rt"
  unfolding runtime_stop_all_def
  by (rule device_call_unchanged[OF assms(1) _ _ assms(2)[unfolded runtime_stop_all_def]])
    (auto simp: device_calls client_inv_request sthen_publish_status split: pyval.splits)

lemma set_psd_unchanged:
  assumes "rt_inv rt" and "snd (runtime_set_psd io now kw rt) = Inl e"
  shows "rt_state (fst (runtime_set_psd io now kw rt)) = rt_state rt
    \<and> rt_status (fst (runtime_set_psd io now kw rt)) = rt_status rt"
proof (cases "py_bool (dget (psd_request kw rt) ''enable'' (PBool True)) \<and> \<not> psd_configured rt")
  case True
  then show ?thesis using assms
    by (simp add: runtime_set_psd_def Let_def psd_unsupported_def sthen_publish_status)
next
  case False
  note eq = runtime_set_psd_def[unfolded Let_def, THEN trans, OF if_not_P, OF False]
  have merge: "dict_merge m v = Inr psd \<longleftrightarrow> (\<exists>d. v = PDict d \<and> psd = dupdate m d)" for m v psd
    by (cases v) auto
  show ?thesis unfolding eq
    by (rule device_call_unchanged[OF assms(1) _ _ assms(2)[unfolded eq]])
      (auto simp: device_calls client_inv_call sthen_publish_status merge split: sum.splits if_splits)
qed

text \<open>
  \<open>set_rx\<close> stores what the device answered before it reads it: when reading fails, the stored value
  stays, and no subscriber is told.
\<close>

definition stored_unannounced :: "io \<Rightarrow> pydict \<Rightarrow> ('c, 'f) BackendRuntime \<Rightarrow> ('c, 'f) BackendRuntime \<Rightarrow> bool" where
  "stored_unannounced io kw rt rt' \<longleftrightarrow> rt_status rt' = rt_status rt \<and>
     (case client_set_rx io kw (rt_device rt) of
        (c, Inl e) \<Rightarrow> rt_state rt' = rt_state rt
      | (c, Inr response) \<Rightarrow> rt_state rt' = (rt_state rt)\<lparr>as_rx := dget response ''applied'' (PDict kw)\<rparr>)"

lemma set_rx_raises:
  assumes "rt_inv rt" and "snd (runtime_set_rx io now kw rt) = Inl e"
  shows "stored_unannounced io kw rt (fst (runtime_set_rx io now kw rt))"
proof -
  obtain c r where c: "client_set_rx io kw (rt_device rt) = (c, r)" by fastforce
  have "rt_inv (put_client c rt)"
    using rt_inv_call_device[of rt "client_set_rx io kw"] assms(1) c by (simp add: call_device_def device_calls client_inv_call)
  then have inv: "rt_inv (rt\<lparr>rt_device := c, rt_config := (rt_config rt)\<lparr>ac_device := dc_device c\<rparr>, rt_state := st,
      rt_demod := configure mode rate (rt_demod rt)\<rparr>)" for st mode rate
    by (simp add: rt_inv_def put_client_def demod_ok_configure)
  show ?thesis
    using assms(2)
    by (auto simp: stored_unannounced_def runtime_set_rx_def call_device_def c Let_def map_state_def put_client_def
        sthen_publish_status[OF inv] split: sum.splits prod.splits)
qed

text \<open>
  C26 (what the status subscribers are told). Whatever \<open>connect_device\<close> does, it leaves the snapshot of
  the present state as the newest message in every status subscriber's queue, and so does every status
  report and every receiver error. \<open>set_frontend\<close>, \<open>set_psd\<close> and \<open>stop_all\<close> do so when they return; when
  they raise, the state and the queues are as they were. \<open>set_rx\<close> does so when it returns; when it
  raises, the queues are as they were, and so is the state if the device did not answer with success; if it
  did, what it answered as \<open>applied\<close> is stored and not announced.
\<close>

theorem changes_are_announced:
  assumes "rt_inv rt"
  shows "(\<exists>k. announced (cn_now env k) (fst (connect_device env host rt)))
    \<and> announced_or_unchanged now rt (runtime_set_frontend io now kw rt)
    \<and> announced_or_unchanged now rt (runtime_set_psd io now pkw rt)
    \<and> announced_or_unchanged now rt (runtime_stop_all io now rt)
    \<and> (case runtime_set_rx io now kw rt of (rt', Inr resp) \<Rightarrow> announced now rt'
       | (rt', Inl e) \<Rightarrow> stored_unannounced io kw rt rt')
    \<and> announced now (fst (handle_status now v rt)) \<and> announced now (fst (handle_error now e rt))"
proof (intro conjI)
  show "announced_or_unchanged now rt (runtime_set_frontend io now kw rt)"
    using set_frontend_announced[OF assms] set_frontend_unchanged[OF assms] by (rule announced_or_unchangedI)
  show "announced_or_unchanged now rt (runtime_set_psd io now pkw rt)"
    using set_psd_announced[OF assms] set_psd_unchanged[OF assms] by (rule announced_or_unchangedI)
  show "announced_or_unchanged now rt (runtime_stop_all io now rt)"
    using stop_all_announced[OF assms] stop_all_unchanged[OF assms] by (rule announced_or_unchangedI)
  show "case runtime_set_rx io now kw rt of (rt', Inr resp) \<Rightarrow> announced now rt'
      | (rt', Inl e) \<Rightarrow> stored_unannounced io kw rt rt'"
    using set_rx_announced[OF assms, of io now kw] set_rx_raises[OF assms, of io now kw]
    by (cases "runtime_set_rx io now kw rt"; cases "snd (runtime_set_rx io now kw rt)") auto
qed (use assms in \<open>simp_all add: connect_announced handle_status_def handle_error_def publish_status_announces\<close>)

definition demo_runtime :: "(int \<times> int, int) BackendRuntime" where
  "demo_runtime = on_channel StatusChannel (subscribe 7) (subscribe 7)
     (runtime_init (FFin 0) toy_demodulator 2048 app_config_default)"

lemma demo_runtime_inv: "rt_inv demo_runtime"
  unfolding demo_runtime_def
  by (intro rt_inv_on_channel rt_inv_init bcast_ok_subscribe) (simp_all add: demod_ok_def toy_demodulator_def)

theorem changes_are_announced_witness:
  "map_of (b_queues (rt_status (fst (handle_status (FFin 1) (PInt 5) demo_runtime)))) 7 =
     Some [snapshot (FFin 1) ((rt_state demo_runtime)\<lparr>as_device_status := PInt 5\<rparr>)]"
proof -
  let ?rt = "fst (handle_status (FFin 1) (PInt 5) demo_runtime)"
  have st: "rt_state ?rt = (rt_state demo_runtime)\<lparr>as_device_status := PInt 5\<rparr>"
    "\<exists>x. map_of (b_queues (rt_status ?rt)) 7 = Some [x]"
    using demo_runtime_inv
    by (auto simp: handle_status_def publish_status_def map_state_def map_of_publish[unfolded prod.collapse]
        rt_inv_def bcast_ok_def publish_ok split: prod.splits)
      (simp_all add: demo_runtime_def runtime_init_def subscribe_def broadcaster_init_def window_def)
  moreover have "announced (FFin 1) ?rt"
    using changes_are_announced[OF demo_runtime_inv] by blast
  ultimately show ?thesis unfolding announced_def by (metis last.simps)
qed

section \<open>A malformed answer\<close>

text \<open>
  A malformed answer blocks the audio. When the device answers a \<open>set_rx\<close> with success and an
  \<open>applied\<close> that is not an object, the runtime stores it before it fails on it; from then on the
  handling of every IQ packet fails before the demodulator, so no audio frame and no spectrum
  is published until an answer replaces the stored value.
\<close>

theorem malformed_applied_blocks_audio:
  assumes "client_set_rx io kw (rt_device rt) = (c, Inr response)" and "map_of response ''applied'' = Some v"
    and "\<forall>d. v \<noteq> PDict d" and "runtime_set_rx io now kw rt = (rt', r)"
  shows "(\<exists>msg. r = Inl (Exn AttributeError msg)) \<and> as_rx (rt_state rt') = v \<and>
    (\<exists>rt'' msg. handle_iq numpy sp h p rt' = Some (rt'', Inl (Exn AttributeError msg))
       \<and> rt_audio rt'' = rt_audio rt' \<and> rt_spectrum rt'' = rt_spectrum rt' \<and> rt_demod rt'' = rt_demod rt'
       \<and> as_rx (rt_state rt'') = v)"
proof -
  have get: "\<exists>msg. py_get v k w = Inl (Exn AttributeError msg)" for k w
    using assms(3) by (cases v) auto
  obtain m1 where m1: "py_get v ''mode'' (dget kw ''mode'' (PStr ''WFM'')) = Inl (Exn AttributeError m1)"
    using get by blast
  obtain m2 where m2: "py_get v ''mode'' (PStr ''WFM'') = Inl (Exn AttributeError m2)" using get by blast
  have rt': "rt' = map_state (\<lambda>s. s\<lparr>as_rx := v\<rparr>) (put_client c rt)" "r = Inl (Exn AttributeError m1)"
    using assms(4) by (simp_all add: runtime_set_rx_def call_device_def assms(1,2) dget_def m1[unfolded dget_def] Let_def)
  have "as_rx (rt_state (map_state (ingest_iq_header h) rt')) = v"
    by (simp add: rt' map_state_def ingest_iq_header_def)
  then have "handle_iq numpy sp h p rt' = Some (map_state (ingest_iq_header h) rt', Inl (Exn AttributeError m2))"
    by (simp add: handle_iq_def Let_def m2)
  then show ?thesis by (auto simp: rt' map_state_def ingest_iq_header_def)
qed

theorem malformed_applied_blocks_audio_witness:
  "\<exists>io rt' rt'' m1 m2. runtime_set_rx io (FFin 1) [] (demo_runtime\<lparr>rt_device := demo_client\<rparr>) = (rt', Inl (Exn AttributeError m1))
     \<and> as_rx (rt_state rt') = PNone
     \<and> handle_iq (Some toy_numpy) (\<lambda>_. Inr []) iq_default [] rt' = Some (rt'', Inl (Exn AttributeError m2))"
proof -
  let ?resp = "[(''request_id'', PInt 1), (''ok'', PBool True), (''applied'', PNone)]"
  have "encodable (PDict ?resp)" by (simp add: less_char_def)
  then obtain reply where reply: "encode_json_line ?resp = Inr reply" using encode_encodable by blast
  have dec: "decode_json_line reply = Inr ?resp" by (rule decode_encode[OF reply]) (simp add: dict_ok_def)
  let ?io = "\<lparr>io_drain = None, io_failed = None, io_arrived = reply, io_eof = False\<rparr>"
  have send: "sendable_request (dc_request_id demo_client + 1) ''set_rx'' []"
    by (rule sendable_requestI) (simp_all add: less_char_def)
  have link: "dc_link demo_client = Some fresh_link" by (simp add: demo_client_def)
  have "await_line ?io (lk_buffer fresh_link) = ([], Inr reply)"
    using readline_a_line[OF encode_a_line[OF reply], of "[]"] by (simp add: await_line_def fresh_link_def)
  from request_sent[OF send link _ this] obtain c where
    "request ?io ''set_rx'' [] demo_client = (c, accept_response (dc_request_id demo_client + 1) reply)" by auto
  moreover have "accept_response (dc_request_id demo_client + 1) reply = Inr ?resp"
    using encode_a_line[OF reply]
    by (auto simp: accept_response_def dec dget_def demo_client_def client_init_def a_line_def)
  ultimately have call: "client_set_rx ?io [] (rt_device (demo_runtime\<lparr>rt_device := demo_client\<rparr>)) = (c, Inr ?resp)"
    by (simp add: client_set_rx_def client_call_def call_kwargs_def)
  obtain rt' r where rx: "runtime_set_rx ?io (FFin 1) [] (demo_runtime\<lparr>rt_device := demo_client\<rparr>) = (rt', r)" by fastforce
  from malformed_applied_blocks_audio[OF call _ _ rx, of PNone "Some toy_numpy" "\<lambda>_. Inr []" iq_default "[]"] rx
  show ?thesis by auto
qed

end
