(* ===== verification/Web_App.thy ===== *)
theory Web_App
  imports Runtime_Status
begin

text \<open>
  \<^verbatim>\<open>rpi/backend/sdr_backend/app.py\<close>: the ASGI application. What \<open>receive\<close> delivers is a list of
  messages, what \<open>send\<close> is given a list of messages; waiting for a message that never comes is
  \<open>None\<close>. \<open>urllib.parse.parse_qs\<close> is written out; the file system behind the static files (the
  resolved root, \<open>Path.resolve\<close>, \<open>is_file\<close>, \<open>read_bytes\<close>, \<open>mimetypes\<close>) is an argument.
\<close>

section \<open>Messages\<close>

datatype http_in = HttpRequest bytes bool | HttpOther

datatype asgi_out =
    ResponseStart int "(string \<times> string) list" | ResponseBody bytes
  | WsAccept | WsClose int | WsText string | WsBytes bytes
  | StartupComplete | StartupFailed string | ShutdownComplete

text \<open>A request body arrives in pieces; \<open>more_body\<close> says whether another follows.\<close>

fun read_body :: "http_in list \<Rightarrow> bytes option" where
  "read_body [] = None"
| "read_body (HttpOther # ms) = Some []"
| "read_body (HttpRequest body more_body # ms) =
     (if more_body then map_option (\<lambda>rest. body @ rest) (read_body ms) else Some body)"

definition json_body :: "bytes \<Rightarrow> pydict" where
  "json_body body =
     (if body = [] then []
      else case rbind (utf8_decode body) loads of Inl e \<Rightarrow> []
      | Inr (PDict d) \<Rightarrow> d
      | Inr _ \<Rightarrow> [])"

definition read_json_body :: "http_in list \<Rightarrow> pydict option" where
  "read_json_body ms = map_option json_body (read_body ms)"

definition response_headers :: "string \<Rightarrow> bytes \<Rightarrow> (string \<times> string) list" where
  "response_headers content_type body =
     [(''content-type'', content_type), (''content-length'', show_int (int (length body)))]"

definition json_response :: "int \<Rightarrow> pydict \<Rightarrow> asgi_out list result" where
  "json_response status payload =
     rbind (utf8_encode (dumps False (PDict payload))) (\<lambda>body.
     Inr [ResponseStart status
            (response_headers ''application/json; charset=utf-8'' body @
             [(''access-control-allow-origin'', ''*''), (''access-control-allow-methods'', ''GET,POST,OPTIONS''),
              (''access-control-allow-headers'', ''*'')]),
          ResponseBody body])"

definition send_ws_json :: "pydict \<Rightarrow> asgi_out" where
  "send_ws_json payload = WsText (dumps False (PDict payload))"

section \<open>Query strings\<close>

fun split_on :: "char \<Rightarrow> string \<Rightarrow> string list" where
  "split_on c [] = [[]]"
| "split_on c (x # s) = (if x = c then [] # split_on c s
     else case split_on c s of [] \<Rightarrow> [[x]] | w # ws \<Rightarrow> (x # w) # ws)"

text \<open>\<open>%XX\<close> is replaced by its byte; other percent signs stay.\<close>

fun unquote_bytes :: "string \<Rightarrow> string" where
  "unquote_bytes (a # b # c # s) =
     (if a = CHR 0x25 then
        (case (hex_val b, hex_val c) of
           (Some h, Some l) \<Rightarrow> char_of (16 * h + l) # unquote_bytes s
         | _ \<Rightarrow> a # unquote_bytes (b # c # s))
      else a # unquote_bytes (b # c # s))"
| "unquote_bytes s = s"

text \<open>\<open>decode("utf-8", "replace")\<close>: every maximal piece that starts a character and does not finish it becomes U+FFFD.\<close>

definition lead_ok :: "char \<Rightarrow> char \<Rightarrow> bool" where
  "lead_ok a b \<longleftrightarrow> cont_byte b \<and> (a = CHR 0xE0 \<longrightarrow> CHR 0xA0 \<le> b) \<and> (a = CHR 0xED \<longrightarrow> b \<le> CHR 0x9F)
     \<and> (a = CHR 0xF0 \<longrightarrow> CHR 0x90 \<le> b) \<and> (a = CHR 0xF4 \<longrightarrow> b \<le> CHR 0x8F)"

definition seq_length :: "char \<Rightarrow> nat" where
  "seq_length a = (if a < CHR 0x80 then 1 else if CHR 0xC2 \<le> a \<and> a \<le> CHR 0xDF then 2
     else if CHR 0xE0 \<le> a \<and> a \<le> CHR 0xEF then 3 else if CHR 0xF0 \<le> a \<and> a \<le> CHR 0xF4 then 4 else 0)"

text \<open>How many bytes of the text belong to the sequence its first byte starts.\<close>

definition good_prefix :: "string \<Rightarrow> nat" where
  "good_prefix s = (case s of [] \<Rightarrow> 0 | a # r \<Rightarrow>
     (let n = seq_length a in
      if n \<le> 1 then 1
      else case r of [] \<Rightarrow> 1
      | b # r2 \<Rightarrow> if \<not> lead_ok a b then 1
          else 2 + length (takeWhile cont_byte (take (n - 2) r2))))"

lemma good_prefix_pos: "s \<noteq> [] \<Longrightarrow> 0 < good_prefix s"
  by (auto simp: good_prefix_def Let_def split: list.splits)

function utf8_replace :: "string \<Rightarrow> string" where
  "utf8_replace s =
     (if s = [] then []
      else let k = good_prefix s in
           (if k = seq_length (hd s) then take k s else [CHR 0xEF, CHR 0xBF, CHR 0xBD]) @ utf8_replace (drop k s))"
  by pat_completeness auto
termination
  by (relation "measure length") (auto simp: good_prefix_pos)

declare utf8_replace.simps [simp del]

definition unquote_plus :: "string \<Rightarrow> string" where
  "unquote_plus s = utf8_replace (unquote_bytes (map (\<lambda>c. if c = CHR ''+'' then CHR '' '' else c) s))"

definition parse_pair :: "string \<Rightarrow> (string \<times> string) option" where
  "parse_pair s =
     (if CHR ''='' \<notin> set s then None
      else let n = takeWhile ((\<noteq>) (CHR ''='')) s; v = drop (Suc (length n)) s
           in if v = [] then None else Some (unquote_plus n, unquote_plus v))"

definition parse_qs :: "string \<Rightarrow> (string \<times> string) list" where
  "parse_qs s = List.map_filter parse_pair (split_on (CHR ''&'') s)"

text \<open>\<open>self._query(scope).get("host", [None])[0]\<close>\<close>

definition query_host :: "bytes \<Rightarrow> pyval result" where
  "query_host raw =
     (if raw = [] then Inr PNone
      else rbind (utf8_decode raw) (\<lambda>s. Inr (opt_str (map_of (parse_qs s) ''host''))))"

section \<open>Static files\<close>

text \<open>
  The file system is an argument: \<open>fs_root\<close> is the resolved static directory, \<open>None\<close> when it cannot be
  resolved or is no directory; \<open>Path.resolve\<close>, \<open>Path.is_file\<close> and \<open>Path.read_bytes\<close> may raise.
\<close>

record static_fs =
  fs_root :: "string option"
  fs_resolve :: "string \<Rightarrow> string result"
  fs_is_file :: "string \<Rightarrow> bool result"
  fs_read :: "string \<Rightarrow> bytes result"
  fs_mime :: "string \<Rightarrow> string option"

text \<open>The components of a path, as \<open>pathlib\<close> keeps them, and its last one.\<close>

definition path_parts :: "string \<Rightarrow> string list" where
  "path_parts p = filter (\<lambda>w. w \<noteq> [] \<and> w \<noteq> ''.'') (split_on (CHR ''/'') p)"

definition path_name :: "string \<Rightarrow> string" where
  "path_name p = (let ps = path_parts p in if ps = [] then [] else last ps)"

definition relative_to :: "string \<Rightarrow> string \<Rightarrow> bool" where
  "relative_to p base \<longleftrightarrow> prefix (path_parts base) (path_parts p)"

text \<open>
  What \<open>pathlib\<close> documents of \<open>Path.resolve\<close>: symbolic links are followed and \<open>..\<close> is eliminated, so
  that the result has no \<open>..\<close> in it and resolves to itself.
\<close>

definition resolve_ok :: "static_fs \<Rightarrow> bool" where
  "resolve_ok fs \<longleftrightarrow> (\<forall>p q. fs_resolve fs p = Inr q \<longrightarrow> fs_resolve fs q = Inr q \<and> ''..'' \<notin> set (path_parts q))
     \<and> (\<forall>base. fs_root fs = Some base \<longrightarrow> fs_resolve fs base = Inr base)"

text \<open>The file that answers a path: the file itself, the start page for a path without a dot, or none.\<close>

definition static_candidate :: "static_fs \<Rightarrow> string \<Rightarrow> string option result" where
  "static_candidate fs path =
     (case fs_root fs of None \<Rightarrow> Inr None
      | Some base \<Rightarrow>
        (let stripped = dropWhile ((=) (CHR ''/'')) path;
             relative = (if stripped = [] then ''index.html'' else stripped);
             index = base @ ''/index.html''
         in rbind (fs_resolve fs (base @ ''/'' @ relative)) (\<lambda>candidate.
            if \<not> relative_to candidate base then Inr None
            else rbind (fs_is_file fs candidate) (\<lambda>found.
              if found then Inr (Some candidate)
              else if CHR ''.'' \<in> set (path_name relative) then Inr None
              else rbind (fs_is_file fs index) (\<lambda>found_index.
                if found_index then Inr (Some index) else Inr None)))))"

definition static_response :: "static_fs \<Rightarrow> string \<Rightarrow> asgi_out list option result" where
  "static_response fs path =
     rbind (static_candidate fs path) (\<lambda>c.
     case c of None \<Rightarrow> Inr None
     | Some candidate \<Rightarrow>
       rbind (fs_read fs candidate) (\<lambda>body.
       let content_type = (case fs_mime fs (path_name candidate) of Some t \<Rightarrow> if t = [] then ''application/octet-stream'' else t
                           | None \<Rightarrow> ''application/octet-stream'')
       in if \<not> list_all (\<lambda>c. c < CHR 0x80) content_type then Inl (Exn UnicodeEncodeError ''ordinal not in range(128)'')
          else Inr (Some [ResponseStart 200 (response_headers (content_type @ ''; charset=utf-8'') body), ResponseBody body])))"

section \<open>HTTP\<close>

record http_env =
  he_connect :: connect_env
  he_io :: io
  he_now :: pyfloat
  he_capture :: capture_env
  he_fs :: static_fs

definition app_routes :: "string list" where
  "app_routes = [''/'', ''/api/status'', ''/api/device/connect'', ''/api/frontend'', ''/api/rx'', ''/api/psd'',
     ''/api/stop'', ''/api/raw-capture'', ''/api/debug/routes'', ''/ws/status'', ''/ws/spectrum'', ''/ws/audio'']"

definition frontend_fields :: "pydict \<Rightarrow> pydict" where
  "frontend_fields body =
     List.map_filter (\<lambda>key. case map_of body key of Some v \<Rightarrow> if v \<noteq> PNone then Some (key, v) else None | None \<Rightarrow> None)
       [''attenuator_db'', ''lna'', ''filter'']"

definition rx_fields :: "pydict \<Rightarrow> pydict" where
  "rx_fields body =
     dupdate [(''stream_id'', PInt 0), (''adc_channel'', PInt 0), (''frequency_hz'', PInt 98500000),
        (''mode'', PStr ''WFM''), (''iq_sample_rate_hz'', PInt 1000000), (''bandwidth_hz'', PInt 250000),
        (''sample_format'', PStr ''SC16_LE''), (''enable'', PBool True)]
       (filter (\<lambda>(k, v). v \<noteq> PNone) body)"

text \<open>A route computes the payload of a JSON response with status 200, or raises.\<close>

type_synonym ('c, 'f) route = "('c, 'f) BackendRuntime \<Rightarrow> ('c, 'f) BackendRuntime \<times> pydict result"

definition route_connect :: "http_env \<Rightarrow> bytes \<Rightarrow> pydict \<Rightarrow> ('c, 'f) route" where
  "route_connect env query body rt =
     (case query_host query of Inl e \<Rightarrow> (rt, Inl e)
      | Inr q \<Rightarrow>
        (let b = dget body ''host'' PNone; host = (if py_bool b then b else q)
         in connect_device (he_connect env) (if py_bool host then Some (py_str host) else None) rt))"

definition route_raw_capture :: "http_env \<Rightarrow> pydict \<Rightarrow> ('c, 'f) route" where
  "route_raw_capture env body rt =
     (rt, rbind (py_int (dget body ''adc_channel'' (PInt 0))) (\<lambda>ch.
          rbind (py_int (dget body ''sample_count'' (PInt 65536))) (\<lambda>n.
          snd (runtime_raw_capture (he_capture env) ch n))))"

text \<open>\<open>None\<close>: no route of the API matches. The body is read first by the routes that want one.\<close>

definition api_route :: "http_env \<Rightarrow> string \<Rightarrow> string \<Rightarrow> bytes \<Rightarrow> http_in list \<Rightarrow> ('c, 'f) route option option" where
  "api_route env meth path query ms =
     (if meth = ''GET'' \<and> path = ''/api/status'' then
        Some (Some (\<lambda>rt. let (rt1, s) = runtime_snapshot (he_now env) rt in (rt1, Inr s)))
      else if meth = ''GET'' \<and> path = ''/api/debug/routes'' then
        Some (Some (\<lambda>rt. (rt, Inr [(''routes'', PList (map PStr app_routes))])))
      else if meth = ''POST'' \<and> path = ''/api/device/connect'' then
        map_option (\<lambda>body. Some (route_connect env query body)) (read_json_body ms)
      else if meth = ''POST'' \<and> path = ''/api/frontend'' then
        map_option (\<lambda>body. Some (runtime_set_frontend (he_io env) (he_now env) (frontend_fields body))) (read_json_body ms)
      else if meth = ''POST'' \<and> path = ''/api/rx'' then
        map_option (\<lambda>body. Some (runtime_set_rx (he_io env) (he_now env) (rx_fields body))) (read_json_body ms)
      else if meth = ''POST'' \<and> path = ''/api/psd'' then
        map_option (\<lambda>body. Some (runtime_set_psd (he_io env) (he_now env) (Some body))) (read_json_body ms)
      else if meth = ''POST'' \<and> path = ''/api/stop'' then
        map_option (\<lambda>_. Some (runtime_stop_all (he_io env) (he_now env))) (read_body ms)
      else if meth = ''POST'' \<and> path = ''/api/raw-capture'' then
        map_option (\<lambda>body. Some (route_raw_capture env body)) (read_json_body ms)
      else Some None)"

text \<open>The two \<open>except\<close> clauses of \<open>_http\<close>.\<close>

definition error_response :: "exn \<Rightarrow> asgi_out list result" where
  "error_response e =
     (if subclass_of (exn_cls e) DeviceClientError
      then json_response 502 [(''ok'', PBool False),
             (''error'', PDict [(''code'', PStr ''device_error''), (''message'', PStr (exn_str e))])]
      else json_response 500 [(''ok'', PBool False),
             (''error'', PDict [(''code'', PStr ''internal_error''), (''message'', PStr (exn_str e))])])"

definition catch_http :: "asgi_out list result \<Rightarrow> asgi_out list result" where
  "catch_http r = (case r of Inr out \<Rightarrow> Inr out | Inl e \<Rightarrow> error_response e)"

definition not_found :: "asgi_out list result" where
  "not_found = json_response 404 [(''ok'', PBool False), (''error'', PStr ''not found'')]"

definition http ::
    "http_env \<Rightarrow> string \<Rightarrow> string \<Rightarrow> bytes \<Rightarrow> http_in list \<Rightarrow> ('c, 'f) BackendRuntime \<Rightarrow>
     (('c, 'f) BackendRuntime \<times> asgi_out list result) option" where
  "http env meth path query ms rt =
     (let meth = py_upper meth in
      if meth = ''OPTIONS'' then Some (rt, json_response 200 [(''ok'', PBool True)])
      else case api_route env meth path query ms of None \<Rightarrow> None
      | Some (Some route) \<Rightarrow>
          (case route rt of (rt1, r) \<Rightarrow> Some (rt1, catch_http (rbind r (json_response 200))))
      | Some None \<Rightarrow>
          Some (rt, catch_http
            (if meth = ''GET'' \<and> \<not> prefix ''/api/'' path
             then rbind (static_response (he_fs env) path) (\<lambda>s. case s of Some out \<Rightarrow> Inr out | None \<Rightarrow> not_found)
             else not_found)))"

section \<open>Life cycle\<close>

datatype lifespan_in = Startup "pyval \<times> pyval \<Rightarrow> exn option" | Shutdown | LifespanOther

text \<open>\<open>_lifespan\<close> over the messages it receives; it returns at a shutdown and otherwise waits on.\<close>

fun lifespan :: "lifespan_in list \<Rightarrow> ('c, 'f) BackendRuntime \<Rightarrow> ('c, 'f) BackendRuntime \<times> asgi_out list \<times> bool" where
  "lifespan [] rt = (rt, [], False)"
| "lifespan (Startup bind_error # ms) rt =
     (let (rt1, r) = runtime_start bind_error rt;
          out = (case r of Inl e \<Rightarrow> StartupFailed (exn_str e) | Inr _ \<Rightarrow> StartupComplete);
          (rt2, outs, fin) = lifespan ms rt1
      in (rt2, out # outs, fin))"
| "lifespan (Shutdown # ms) rt = (runtime_stop rt, [ShutdownComplete], True)"
| "lifespan (LifespanOther # ms) rt = lifespan ms rt"

section \<open>WebSockets\<close>

text \<open>
  One round of \<open>_ws_queue_loop\<close> waits for an item of the queue and for a message of the client at
  the same time: \<open>ItemReady\<close>, \<open>MessageReady\<close> or, when both tasks are done, \<open>BothReady\<close>; the flag
  says whether the message is a disconnect. \<open>SendRaises\<close> is an item whose \<open>send\<close> raises
  \<open>RuntimeError\<close> (the peer is gone), \<open>Cancelled\<close> the cancellation of the handler while it waits.
\<close>

datatype ws_ready = ItemReady | MessageReady bool | BothReady bool | SendRaises | Cancelled

datatype ws_next = WsContinue | WsReturn

definition ws_send :: "channel \<Rightarrow> pydict + bytes \<Rightarrow> asgi_out" where
  "ws_send ch item = (case item of Inl d \<Rightarrow> send_ws_json d | Inr b \<Rightarrow> WsBytes b)"

definition queue_get :: "channel \<Rightarrow> nat \<Rightarrow> ('c, 'f) BackendRuntime \<Rightarrow> ((pydict + bytes) \<times> ('c, 'f) BackendRuntime) option" where
  "queue_get ch i rt = (case ch of
     AudioChannel \<Rightarrow> map_option (\<lambda>(x, b). (Inr x, rt\<lparr>rt_audio := b\<rparr>)) (take_item i (rt_audio rt))
   | StatusChannel \<Rightarrow> map_option (\<lambda>(x, b). (Inl x, rt\<lparr>rt_status := b\<rparr>)) (take_item i (rt_status rt))
   | SpectrumChannel \<Rightarrow> map_option (\<lambda>(x, b). (Inl x, rt\<lparr>rt_spectrum := b\<rparr>)) (take_item i (rt_spectrum rt)))"

definition ws_round :: "channel \<Rightarrow> nat \<Rightarrow> ws_ready \<Rightarrow> ('c, 'f) BackendRuntime \<Rightarrow>
    (('c, 'f) BackendRuntime \<times> asgi_out list \<times> ws_next) option" where
  "ws_round ch i ready rt = (case ready of
     MessageReady disconnect \<Rightarrow> Some (rt, [], if disconnect then WsReturn else WsContinue)
   | ItemReady \<Rightarrow> map_option (\<lambda>(x, rt1). (rt1, [ws_send ch x], WsContinue)) (queue_get ch i rt)
   | BothReady disconnect \<Rightarrow>
       map_option (\<lambda>(x, rt1). (rt1, [], if disconnect then WsReturn else WsContinue)) (queue_get ch i rt)
   | SendRaises \<Rightarrow> map_option (\<lambda>(x, rt1). (rt1, [], WsReturn)) (queue_get ch i rt)
   | Cancelled \<Rightarrow> Some (rt, [], WsReturn))"

text \<open>The opening of a WebSocket: a known path, the connect message, the first status, the subscription.\<close>

definition ws_channel :: "string \<Rightarrow> channel option" where
  "ws_channel path = (if path = ''/ws/status'' then Some StatusChannel
     else if path = ''/ws/spectrum'' then Some SpectrumChannel
     else if path = ''/ws/audio'' then Some AudioChannel else None)"

definition ws_open :: "pyfloat \<Rightarrow> string \<Rightarrow> bool \<Rightarrow> nat \<Rightarrow> ('c, 'f) BackendRuntime \<Rightarrow>
    ('c, 'f) BackendRuntime \<times> asgi_out list \<times> channel option" where
  "ws_open now path is_connect i rt =
     (case ws_channel path of None \<Rightarrow> (rt, [WsClose 1008], None)
      | Some ch \<Rightarrow>
        if \<not> is_connect then (rt, [WsClose 1002], None)
        else if ch = StatusChannel then
          (let (rt1, s) = runtime_snapshot now rt
           in (on_channel ch (subscribe i) (subscribe i) rt1, [WsAccept, send_ws_json s], Some ch))
        else (on_channel ch (subscribe i) (subscribe i) rt, [WsAccept], Some ch))"

definition ws_leave :: "channel \<Rightarrow> nat \<Rightarrow> ('c, 'f) BackendRuntime \<Rightarrow> ('c, 'f) BackendRuntime" where
  "ws_leave ch i = on_channel ch (unsubscribe i) (unsubscribe i)"

text \<open>
  The loop over its rounds. While a round waits the rest of the backend runs, which is the function
  that comes with the round. The flag of the result says that the handler returned; \<open>None\<close> is a
  schedule that hands out an item no queue holds.
\<close>

type_synonym ('c, 'f) round = "(('c, 'f) BackendRuntime \<Rightarrow> ('c, 'f) BackendRuntime) \<times> ws_ready"

fun ws_queue_loop :: "channel \<Rightarrow> nat \<Rightarrow> ('c, 'f) round list \<Rightarrow> ('c, 'f) BackendRuntime \<Rightarrow>
    (('c, 'f) BackendRuntime \<times> asgi_out list \<times> bool) option" where
  "ws_queue_loop ch i [] rt = Some (rt, [], False)"
| "ws_queue_loop ch i ((others, ready) # rounds) rt =
     (case ws_round ch i ready (others rt) of None \<Rightarrow> None
      | Some (rt1, out, WsReturn) \<Rightarrow> Some (rt1, out, True)
      | Some (rt1, out, WsContinue) \<Rightarrow>
          map_option (\<lambda>(rt2, outs, fin). (rt2, out @ outs, fin)) (ws_queue_loop ch i rounds rt1))"

definition websocket :: "pyfloat \<Rightarrow> string \<Rightarrow> bool \<Rightarrow> nat \<Rightarrow> ('c, 'f) round list \<Rightarrow> ('c, 'f) BackendRuntime \<Rightarrow>
    (('c, 'f) BackendRuntime \<times> asgi_out list \<times> bool) option" where
  "websocket now path is_connect i rounds rt =
     (case ws_open now path is_connect i rt of
        (rt1, out, None) \<Rightarrow> Some (rt1, out, True)
      | (rt1, out, Some ch) \<Rightarrow>
          map_option (\<lambda>(rt2, outs, fin). (if fin then ws_leave ch i rt2 else rt2, out @ outs, fin))
            (ws_queue_loop ch i rounds rt1))"

section \<open>The application\<close>

datatype ('c, 'f) scope =
    LifespanScope "lifespan_in list"
  | HttpScope string string bytes "http_in list"
  | WebSocketScope string bool nat "('c, 'f) round list"
  | OtherScope string

definition app_call :: "http_env \<Rightarrow> ('c, 'f) scope \<Rightarrow> ('c, 'f) BackendRuntime \<Rightarrow>
    (('c, 'f) BackendRuntime \<times> asgi_out list result) option" where
  "app_call env scope rt = (case scope of
     LifespanScope ms \<Rightarrow> (let (rt1, outs, fin) = lifespan ms rt in Some (rt1, Inr outs))
   | HttpScope meth path query ms \<Rightarrow> http env meth path query ms rt
   | WebSocketScope path is_connect i rounds \<Rightarrow>
       map_option (\<lambda>(rt1, outs, fin). (rt1, Inr outs)) (websocket (he_now env) path is_connect i rounds rt)
   | OtherScope t \<Rightarrow> Some (rt, Inl (Exn RuntimeError (''unsupported ASGI scope type '' @ t))))"

section \<open>Every request is answered once\<close>

text \<open>A complete HTTP answer: one start with a known status and the length of the one body after it.\<close>

definition one_response :: "asgi_out list \<Rightarrow> bool" where
  "one_response out \<longleftrightarrow> (\<exists>status headers body. out = [ResponseStart status headers, ResponseBody body]
     \<and> status \<in> {200, 404, 500, 502} \<and> map_of headers ''content-length'' = Some (show_int (int (length body))))"

lemma json_response_one: "json_response status payload = Inr out \<Longrightarrow> status \<in> {200, 404, 500, 502} \<Longrightarrow> one_response out"
  by (auto simp: json_response_def rbind_eq_Inr one_response_def response_headers_def)

lemma json_response_raises: "json_response status payload = Inl e \<Longrightarrow> exn_cls e = UnicodeEncodeError"
  by (auto simp: json_response_def rbind_eq_Inl utf8_encode_def split: if_splits)

lemma json_response_total:
  assumes "encodable (PDict payload)"
  shows "\<exists>out. json_response status payload = Inr out"
  using transparent_dumps[OF assms] by (auto simp: json_response_def utf8_encode_def dest: transparent_valid)

lemma catch_http_one:
  assumes "\<And>out. r = Inr out \<Longrightarrow> one_response out" and "catch_http r = Inr out"
  shows "one_response out"
  using assms by (auto simp: catch_http_def error_response_def split: sum.splits if_splits intro: json_response_one)

lemma catch_http_raises:
  assumes "catch_http r = Inl e"
  shows "\<exists>e'. r = Inl e' \<and> \<not> utf8_valid (exn_str e') \<and> exn_cls e = UnicodeEncodeError"
proof -
  obtain e' where r: "r = Inl e'" and er: "error_response e' = Inl e" using assms by (auto simp: catch_http_def split: sum.splits)
  have "\<not> utf8_valid (exn_str e')"
  proof
    assume "utf8_valid (exn_str e')"
    then have "\<exists>out. error_response e' = Inr out"
      unfolding error_response_def by (auto intro!: json_response_total simp: less_char_def)
    with er show False by simp
  qed
  then show ?thesis using r er by (auto simp: error_response_def split: if_splits dest: json_response_raises)
qed

lemma static_response_Some:
  assumes "static_response fs path = Inr (Some out)"
  shows "\<exists>p body t. static_candidate fs path = Inr (Some p) \<and> fs_read fs p = Inr body
    \<and> out = [ResponseStart 200 (response_headers t body), ResponseBody body]"
proof -
  obtain p where c: "static_candidate fs path = Inr (Some p)"
    using assms by (auto simp: static_response_def rbind_eq_Inr split: option.splits)
  moreover obtain body where "fs_read fs p = Inr body"
    using assms by (auto simp: static_response_def c rbind_eq_Inr)
  ultimately show ?thesis using assms by (auto simp: static_response_def Let_def split: if_splits)
qed

lemma static_response_one: "static_response fs path = Inr (Some out) \<Longrightarrow> one_response out"
  by (auto simp: one_response_def response_headers_def dest!: static_response_Some)

lemma not_found_one: "not_found = Inr out \<Longrightarrow> one_response out"
  by (simp add: not_found_def json_response_one)

lemma api_route_body:
  assumes "read_body ms = Some body"
  shows "\<exists>r. api_route env meth path query ms = Some r"
  using assms by (simp add: api_route_def read_json_body_def)

end
