(* ===== verification/Web_Session.thy ===== *)
theory Web_Session
  imports Web_App
begin

text \<open>
  Properties of the ASGI application: every request is answered once, no request breaks the
  bounds of the backend, static files come from the configured directory only (given what is
  documented of \<open>Path.resolve\<close>), and what an audio socket carries.
\<close>

section \<open>An example environment\<close>

text \<open>A file system without symbolic links: resolving a path removes every \<open>..\<close> with the part before it.\<close>

fun normal_parts :: "string list \<Rightarrow> string list \<Rightarrow> string list" where
  "normal_parts done_parts [] = rev done_parts"
| "normal_parts done_parts (w # ws) =
     (if w = ''..'' then normal_parts (tl done_parts) ws else normal_parts (w # done_parts) ws)"

definition join_parts :: "string list \<Rightarrow> string" where
  "join_parts ws = concat (map (\<lambda>w. CHR ''/'' # w) ws)"

definition demo_fs :: static_fs where
  "demo_fs = \<lparr>fs_root = Some ''/srv/www'', fs_resolve = (\<lambda>p. Inr (join_parts (normal_parts [] (path_parts p)))),
     fs_is_file = (\<lambda>p. Inr (p = ''/srv/www/index.html'' \<or> p = ''/srv/www/app.js'' \<or> p = ''/srv/secret'')),
     fs_read = (\<lambda>_. Inr [0x41]), fs_mime = (\<lambda>_. None)\<rparr>"

definition demo_http_env :: http_env where
  "demo_http_env = (let io = \<lparr>io_drain = None, io_failed = None, io_arrived = [], io_eof = True\<rparr> in
     \<lparr>he_connect = \<lparr>cn_open = None, cn_io = io, cn_psd_io = io, cn_now = (\<lambda>_. FFin 0)\<rparr>, he_io = io, he_now = FFin 0,
      he_capture = \<lparr>ce_open = None, ce_drain = None, ce_line = Inr [], ce_read = (\<lambda>_. Inr []), ce_write = None\<rparr>,
      he_fs = demo_fs\<rparr>)"

section \<open>HTTP answers\<close>

lemma static_or_not_found_one:
  "rbind (static_response fs path) (\<lambda>s. case s of Some out \<Rightarrow> Inr out | None \<Rightarrow> not_found) = Inr out \<Longrightarrow> one_response out"
  unfolding rbind_eq_Inr by (elim exE conjE) (auto split: option.splits intro: not_found_one static_response_one)

text \<open>
  C15 (every HTTP request is answered exactly once). Whatever the method, the path, the query and the
  body, as soon as the body has arrived the application sends one response: a start message with
  status 200, 404, 500 or 502 and the length of the body that follows. The one exception is an error
  whose text cannot be encoded (a lone surrogate in a message of the device): the answer to it
  raises in turn.
\<close>

theorem http_answers_once:
  assumes "read_body ms = Some body"
  shows "\<exists>rt' r. http env meth path query ms rt = Some (rt', r) \<and>
    (case r of Inr out \<Rightarrow> one_response out | Inl e \<Rightarrow> exn_cls e = UnicodeEncodeError)"
proof -
  obtain ro :: "('a, 'b) route option" where ro: "api_route env (py_upper meth) path query ms = Some ro"
    using api_route_body[OF assms] by (rule exE)
  have caught: "case catch_http r of Inr out \<Rightarrow> one_response out | Inl e \<Rightarrow> exn_cls e = UnicodeEncodeError"
    if ok: "\<And>out. r = Inr out \<Longrightarrow> one_response out" for r
  proof (cases "catch_http r")
    case (Inl e)
    then show ?thesis using catch_http_raises by fastforce
  next
    case (Inr out)
    then show ?thesis using catch_http_one[OF ok] by simp
  qed
  have opt: "\<exists>out. json_response 200 [(''ok'', PBool True)] = Inr out"
    by (rule json_response_total) (simp add: less_char_def)
  show ?thesis
  proof (cases "py_upper meth = ''OPTIONS''")
    case True
    then show ?thesis using opt by (auto simp: http_def intro: json_response_one)
  next
    case False
    show ?thesis
    proof (cases ro)
      case (Some route)
      have "case catch_http (rbind (snd (route rt)) (json_response 200)) of Inr out \<Rightarrow> one_response out
          | Inl e \<Rightarrow> exn_cls e = UnicodeEncodeError"
        by (rule caught) (auto simp: rbind_eq_Inr intro: json_response_one)
      then show ?thesis using False ro Some by (simp add: http_def split_def)
    next
      case None
      define r where "r = (if py_upper meth = ''GET'' \<and> \<not> prefix ''/api/'' path
             then rbind (static_response (he_fs env) path) (\<lambda>s. case s of Some out \<Rightarrow> Inr out | None \<Rightarrow> not_found)
             else not_found)"
      have "case catch_http r of Inr out \<Rightarrow> one_response out | Inl e \<Rightarrow> exn_cls e = UnicodeEncodeError"
      proof (rule caught)
        fix out
        assume "r = Inr out"
        then show "one_response out"
          using static_or_not_found_one not_found_one by (simp only: r_def split: if_splits)
      qed
      then show ?thesis using False ro None by (simp add: http_def r_def)
    qed
  qed
qed

theorem http_answers_once_witness:
  "read_body [HttpRequest [0x7B] True, HttpRequest [0x7D] False] = Some [0x7B, 0x7D] \<and>
   (\<exists>rt' r. http demo_http_env ''DELETE'' ''/api/rx'' [] [HttpRequest [0x7B] True, HttpRequest [0x7D] False] demo_runtime = Some (rt', r) \<and>
    (case r of Inr out \<Rightarrow> one_response out | Inl e \<Rightarrow> exn_cls e = UnicodeEncodeError))"
proof -
  have "read_body [HttpRequest [0x7B] True, HttpRequest [0x7D] False] = Some [0x7B, 0x7D]" by simp
  with http_answers_once[OF this, of demo_http_env "''DELETE''" "''/api/rx''" "[]" demo_runtime] show ?thesis by blast
qed

section \<open>No request breaks the backend\<close>

lemma rt_inv_route:
  assumes "rt_inv rt" and "api_route env meth path query ms = Some (Some route)"
  shows "rt_inv (fst (route rt))"
  using assms
  by (auto simp: api_route_def route_connect_def route_raw_capture_def Let_def rt_inv_ops split_def
      split: if_splits sum.splits)

lemma rt_inv_http:
  assumes "rt_inv rt" and "http env meth path query ms rt = Some (rt', r)"
  shows "rt_inv rt'"
  using assms rt_inv_route[OF assms(1), of env "py_upper meth" path query ms]
  by (auto simp: http_def Let_def split: if_splits option.splits prod.splits)

lemma rt_inv_lifespan: "rt_inv rt \<Longrightarrow> rt_inv (fst (lifespan ms rt))"
proof (induction ms rt rule: lifespan.induct)
  case (2 bind_error ms rt)
  then show ?case using rt_inv_start[of rt bind_error] by (auto simp: Let_def split: prod.splits)
qed (auto simp: rt_inv_stop)

lemma rt_inv_queue_get: "rt_inv rt \<Longrightarrow> queue_get ch i rt = Some (x, rt') \<Longrightarrow> rt_inv rt'"
  by (auto simp: queue_get_def rt_inv_def split: channel.splits dest: bcast_ok_take)

lemma rt_inv_ws_round: "rt_inv rt \<Longrightarrow> ws_round ch i ready rt = Some (rt', out, nxt) \<Longrightarrow> rt_inv rt'"
  by (auto simp: ws_round_def split: ws_ready.splits dest: rt_inv_queue_get)

lemma rt_inv_ws_loop:
  assumes "rt_inv rt" and "\<forall>(others, _) \<in> set rounds. \<forall>rt. rt_inv rt \<longrightarrow> rt_inv (others rt)"
    and "ws_queue_loop ch i rounds rt = Some (rt', outs, fin)"
  shows "rt_inv rt'"
  using assms
  by (induction ch i rounds rt arbitrary: outs fin rule: ws_queue_loop.induct)
    (fastforce split: option.splits ws_next.splits prod.splits dest: rt_inv_ws_round)+

lemma rt_inv_subscriptions:
  assumes "rt_inv rt"
  shows "rt_inv (on_channel ch (subscribe i) (subscribe i) rt)" "rt_inv (ws_leave ch i rt)"
  using assms
  by (auto simp: ws_leave_def intro!: rt_inv_on_channel bcast_ok_subscribe bcast_ok_unsubscribe)

lemma rt_inv_ws_open:
  assumes "rt_inv rt" and "ws_open now path is_connect i rt = (rt', outs, och)"
  shows "rt_inv rt'"
proof -
  have "rt_inv (on_channel ch (subscribe i) (subscribe i) (fst (runtime_snapshot now rt)))" for ch
    by (intro rt_inv_subscriptions rt_inv_snapshot assms)
  then show ?thesis using assms rt_inv_subscriptions(1)[OF assms(1), of _ i]
    by (auto simp: ws_open_def Let_def simp del: on_channel.simps split: option.splits if_splits prod.splits)
qed

lemma rt_inv_websocket:
  assumes "rt_inv rt" and "\<forall>(others, _) \<in> set rounds. \<forall>rt. rt_inv rt \<longrightarrow> rt_inv (others rt)"
    and "websocket now path is_connect i rounds rt = Some (rt', outs, fin)"
  shows "rt_inv rt'"
proof -
  obtain rt1 out och where o: "ws_open now path is_connect i rt = (rt1, out, och)" using prod_cases3 by blast
  have inv1: "rt_inv rt1" by (rule rt_inv_ws_open[OF assms(1) o])
  show ?thesis
  proof (cases och)
    case (Some ch)
    then obtain rt2 outs2 where l: "ws_queue_loop ch i rounds rt1 = Some (rt2, outs2, fin)"
      and rt': "rt' = (if fin then ws_leave ch i rt2 else rt2)"
      using assms(3) by (auto simp: websocket_def o)
    show ?thesis using rt_inv_ws_loop[OF inv1 assms(2) l] by (simp add: rt' rt_inv_subscriptions)
  qed (use assms(3) inv1 in \<open>simp add: websocket_def o\<close>)
qed

definition scope_ok :: "('c, 'f) scope \<Rightarrow> bool" where
  "scope_ok s \<longleftrightarrow> (case s of WebSocketScope path is_connect i rounds \<Rightarrow>
      (\<forall>(others, _) \<in> set rounds. \<forall>rt. rt_inv rt \<longrightarrow> rt_inv (others rt)) | _ \<Rightarrow> True)"

text \<open>
  C16 (no request breaks the backend). Whatever request is made of the application, over HTTP with any
  method, path, query and body, over a WebSocket or by the server that starts and stops it, the
  bounds and consistency conditions of the backend hold afterwards when they held before,
  provided the parts of the backend that run while a WebSocket waits keep them.
\<close>

theorem app_keeps_invariant:
  assumes "rt_inv rt" and "scope_ok scope" and "app_call env scope rt = Some (rt', r)"
  shows "rt_inv rt'"
proof (cases scope)
  case (LifespanScope ms)
  then show ?thesis using assms rt_inv_lifespan[OF assms(1), of ms] by (auto simp: app_call_def split: prod.splits)
next
  case (WebSocketScope path is_connect i rounds)
  then obtain outs fin where "websocket (he_now env) path is_connect i rounds rt = Some (rt', outs, fin)"
    using assms(3) by (auto simp: app_call_def)
  with assms(2) WebSocketScope show ?thesis by (intro rt_inv_websocket[OF assms(1)]) (simp_all add: scope_ok_def)
next
  case (HttpScope meth path query ms)
  then have "http env meth path query ms rt = Some (rt', r)" using assms(3) by (simp add: app_call_def)
  then show ?thesis by (rule rt_inv_http[OF assms(1)])
qed (use assms in \<open>simp add: app_call_def\<close>)

theorem app_keeps_invariant_witness:
  "rt_inv demo_runtime \<and>
   (\<exists>rt' r. app_call demo_http_env (WebSocketScope ''/ws/audio'' True 3 [(\<lambda>rt. fst (publish_audio [[1, 2]] rt), ItemReady)])
       demo_runtime = Some (rt', r) \<and> rt_inv rt')"
proof -
  let ?s = "WebSocketScope ''/ws/audio'' True 3 [(\<lambda>rt. fst (publish_audio [[1, 2]] rt), ItemReady)]"
  have ok: "scope_ok ?s" using publish_audio_ok[of _ "[[1, 2]]"] by (auto simp: scope_ok_def simp del: publish_audio.simps)
  have "\<exists>p. app_call demo_http_env ?s demo_runtime = Some p"
    by (simp add: app_call_def websocket_def ws_open_def ws_channel_def ws_round_def queue_get_def demo_runtime_def
        runtime_init_def broadcaster_init_def subscribe_def publish_def put_nowait_def q_full_def take_item_def
        get_nowait_def split: prod.splits)
  then obtain rt' r where "app_call demo_http_env ?s demo_runtime = Some (rt', r)" by fastforce
  with app_keeps_invariant[OF demo_runtime_inv ok this] demo_runtime_inv show ?thesis by blast
qed

section \<open>Static files\<close>

lemma split_on_nonempty [simp]: "split_on c s \<noteq> []"
  by (induction s) (auto split: list.splits)

lemma split_on_append: "split_on c (s @ c # t) = split_on c s @ split_on c t"
  by (induction s) (auto split: list.splits)

lemma path_parts_append: "path_parts (p @ CHR ''/'' # q) = path_parts p @ path_parts q"
  by (simp add: path_parts_def split_on_append)

lemma static_candidate_inside:
  assumes "resolve_ok fs" and "static_candidate fs path = Inr (Some p)"
  obtains base where "fs_root fs = Some base" "relative_to p base" "''..'' \<notin> set (path_parts p)"
    "fs_resolve fs p = Inr p \<or> p = base @ ''/index.html''" "fs_is_file fs p = Inr True"
proof (cases "fs_root fs")
  case (Some base)
  let ?index = "base @ ''/index.html''"
  have index: "path_parts ?index = path_parts base @ [''index.html'']"
    using path_parts_append[of base "''index.html''"] by (simp add: path_parts_def)
  have "''..'' \<notin> set (path_parts base)" using assms(1) Some by (auto simp: resolve_ok_def)
  then have "relative_to ?index base" "''..'' \<notin> set (path_parts ?index)" by (simp_all add: relative_to_def index)
  moreover have "relative_to p base \<and> (\<exists>q. fs_resolve fs q = Inr p) \<and> fs_is_file fs p = Inr True
      \<or> p = ?index \<and> fs_is_file fs p = Inr True"
    using assms(2) Some by (auto simp: static_candidate_def Let_def rbind_eq_Inr split: if_splits)
  ultimately show ?thesis using that[OF Some] assms(1) by (auto simp: resolve_ok_def)
qed (use assms in \<open>simp add: static_candidate_def\<close>)

text \<open>What \<open>http\<close> does with a \<open>GET\<close> for a path outside of the API.\<close>

lemma http_static:
  assumes "\<not> prefix ''/api/'' path"
  shows "http env ''GET'' path query ms rt = Some (rt, catch_http
    (rbind (static_response (he_fs env) path) (\<lambda>s. case s of Some out \<Rightarrow> Inr out | None \<Rightarrow> not_found)))"
proof -
  have "path \<noteq> ''/api/status''" "path \<noteq> ''/api/debug/routes''" using assms by auto
  moreover have "py_upper ''GET'' = ''GET''" by code_simp
  ultimately show ?thesis using assms by (simp add: http_def api_route_def)
qed

lemma json_status: "json_response status payload = Inr (ResponseStart st hs # rest) \<Longrightarrow> st = status"
  by (auto simp: json_response_def rbind_eq_Inr)

text \<open>
  C13 (static files come from the static directory). With \<open>Path.resolve\<close> as documented, a \<open>GET\<close> outside of
  \<open>/api/\<close> changes nothing in the backend, and if it is answered with status 200 the body is the content
  of a regular file under the static directory, whatever dots and slashes the path of the request has: no
  \<open>..\<close> is left in the path of the file, and the path is fully resolved, or it is the start page
  \<open>index.html\<close> directly in the directory, which the code does not resolve. The directory must exist.
  Every other answer is 404 or an error of the file system.
\<close>

theorem static_files_stay_inside:
  assumes "resolve_ok (he_fs env)" and "\<not> prefix ''/api/'' path"
    and "http env ''GET'' path query ms rt = Some (rt', Inr (ResponseStart st hs # rest))"
  shows "rt' = rt \<and> (st = 404 \<or> st = 500 \<or> st = 502 \<or> (st = 200 \<and>
    (\<exists>base p body. fs_root (he_fs env) = Some base \<and> relative_to p base \<and> ''..'' \<notin> set (path_parts p)
       \<and> (fs_resolve (he_fs env) p = Inr p \<or> p = base @ ''/index.html'')
       \<and> fs_is_file (he_fs env) p = Inr True \<and> fs_read (he_fs env) p = Inr body \<and> rest = [ResponseBody body])))"
proof -
  let ?r = "rbind (static_response (he_fs env) path) (\<lambda>s. case s of Some out \<Rightarrow> Inr out | None \<Rightarrow> not_found)"
  have rt': "rt' = rt" and c: "catch_http ?r = Inr (ResponseStart st hs # rest)"
    using assms(3) by (simp_all add: http_static[OF assms(2)])
  show ?thesis
  proof (cases ?r)
    case (Inl e)
    then show ?thesis using c rt' json_status
      by (auto simp: catch_http_def error_response_def split: if_splits)
  next
    case (Inr out)
    then obtain s where s: "static_response (he_fs env) path = Inr s"
      and out: "(case s of Some out \<Rightarrow> Inr out | None \<Rightarrow> not_found) = Inr (ResponseStart st hs # rest)"
      using c by (auto simp: catch_http_def rbind_eq_Inr)
    show ?thesis
    proof (cases s)
      case None
      then show ?thesis using out rt' json_status[of 404] by (simp add: not_found_def)
    next
      case (Some o')
      then obtain p body where p: "static_candidate (he_fs env) path = Inr (Some p)" "fs_read (he_fs env) p = Inr body"
        and o': "st = 200" "rest = [ResponseBody body]"
        using static_response_Some[of "he_fs env" path o'] s out by auto
      from static_candidate_inside[OF assms(1) p(1)] p(2) o' rt' show ?thesis by metis
    qed
  qed
qed

lemma split_on_parts: "w \<in> set (split_on c s) \<Longrightarrow> c \<notin> set w"
  by (induction s arbitrary: w) (auto split: list.splits if_splits)

lemma split_on_part: "c \<notin> set w \<Longrightarrow> split_on c w = [w]"
  by (induction w) auto

definition part_ok :: "string \<Rightarrow> bool" where
  "part_ok w \<longleftrightarrow> w \<noteq> [] \<and> w \<noteq> ''.'' \<and> CHR ''/'' \<notin> set w"

lemma path_parts_ok: "list_all part_ok (path_parts p)"
  by (auto simp: list_all_iff path_parts_def part_ok_def dest: split_on_parts)

lemma path_parts_join: "list_all part_ok ws \<Longrightarrow> path_parts (join_parts ws) = ws"
proof (induction ws rule: rev_induct)
  case (snoc w ws)
  then have "path_parts w = [w]" by (simp add: path_parts_def part_ok_def split_on_part)
  with snoc show ?case using path_parts_append[of "join_parts ws" w] by (simp add: join_parts_def)
qed (simp add: join_parts_def path_parts_def)

lemma in_tl: "x \<in> set (tl xs) \<Longrightarrow> x \<in> set xs"
  by (cases xs) auto

lemma normal_parts_ok:
  "list_all part_ok ds \<Longrightarrow> list_all part_ok ws \<Longrightarrow> list_all part_ok (normal_parts ds ws)"
  "''..'' \<notin> set ds \<Longrightarrow> ''..'' \<notin> set (normal_parts ds ws)"
  by (induction ds ws rule: normal_parts.induct) (auto simp: list_all_iff dest: in_tl)

lemma normal_parts_id: "''..'' \<notin> set ws \<Longrightarrow> normal_parts ds ws = rev ds @ ws"
  by (induction ds ws rule: normal_parts.induct) auto

lemma demo_fs_resolve_ok: "resolve_ok demo_fs"
proof -
  have "path_parts (join_parts (normal_parts [] (path_parts p))) = normal_parts [] (path_parts p)" for p
    by (intro path_parts_join normal_parts_ok path_parts_ok) simp
  moreover have "join_parts (normal_parts [] (path_parts ''/srv/www'')) = ''/srv/www''" by code_simp
  ultimately show ?thesis using normal_parts_ok(2)[of "[]"]
    by (simp add: resolve_ok_def demo_fs_def normal_parts_id)
qed

theorem static_files_stay_inside_witness:
  "\<exists>hs. http demo_http_env ''GET'' ''/x/../app.js'' [] [] demo_runtime = Some (demo_runtime, Inr [ResponseStart 200 hs, ResponseBody [0x41]])
     \<and> (\<exists>p. relative_to p ''/srv/www'' \<and> ''..'' \<notin> set (path_parts p) \<and> fs_is_file demo_fs p = Inr True)
     \<and> static_candidate demo_fs ''/../secret'' = Inr None"
proof -
  have p: "\<not> prefix ''/api/'' ''/x/../app.js''" by simp
  have "static_candidate demo_fs ''/x/../app.js'' = Inr (Some ''/srv/www/app.js'')" by code_simp
  then have "\<exists>hs. static_response demo_fs ''/x/../app.js'' = Inr (Some [ResponseStart 200 hs, ResponseBody [0x41]])"
    by (simp add: static_response_def demo_fs_def less_char_def)
  then obtain hs where h: "http demo_http_env ''GET'' ''/x/../app.js'' [] [] demo_runtime =
      Some (demo_runtime, Inr [ResponseStart 200 hs, ResponseBody [0x41]])"
    by (auto simp: http_static demo_http_env_def catch_http_def Let_def)
  moreover have fs: "he_fs demo_http_env = demo_fs" by (simp add: demo_http_env_def Let_def)
  moreover have "static_candidate demo_fs ''/../secret'' = Inr None" by code_simp
  moreover have "fs_root demo_fs = Some ''/srv/www''" by (simp add: demo_fs_def)
  ultimately show ?thesis
    using static_files_stay_inside[OF _ p h, unfolded fs, OF demo_fs_resolve_ok] by auto
qed

section \<open>Audio over a WebSocket\<close>

lemma publish_audio_queue:
  assumes "rt_inv rt" and "map_of (b_queues (rt_audio rt)) i = Some q"
  shows "rt_inv (fst (publish_audio fs rt)) \<and>
    map_of (b_queues (rt_audio (fst (publish_audio fs rt)))) i = Some (window 128 (q @ fs))"
  using assms
proof (induction fs arbitrary: rt q)
  case Nil
  then have "bounded 128 q" using bcast_ok_bound[of 128 "rt_audio rt" i q] by (simp add: rt_inv_def bounded_def)
  then show ?case using Nil by (simp add: window_id)
next
  case (Cons f fs)
  let ?rt = "rt\<lparr>rt_audio := fst (publish f (rt_audio rt))\<rparr>"
  have b: "b_inv (rt_audio rt)" "b_max_queue (rt_audio rt) = 128"
    using Cons.prems(1) by (simp_all add: rt_inv_def bcast_ok_def)
  have inv: "rt_inv ?rt" using Cons.prems(1) bcast_ok_publish[of 128 "rt_audio rt" f]
    by (auto simp: rt_inv_def prod_eq_iff)
  have "map_of (b_queues (rt_audio ?rt)) i = Some (window 128 (q @ [f]))"
    using Cons.prems(2) by (simp add: map_of_publish[OF b(1)] b(2))
  from Cons.IH[OF inv this]
  have "rt_inv (fst (publish_audio fs ?rt)) \<and>
      map_of (b_queues (rt_audio (fst (publish_audio fs ?rt)))) i = Some (window 128 (q @ f # fs))"
    by (simp add: window_window_append)
  then show ?case by (simp add: publish_ok[OF b(1)] sthen_def)
qed

definition audio_rounds :: "(bytes list \<times> ws_ready) list \<Rightarrow> ('c, 'f) round list" where
  "audio_rounds rounds = map (\<lambda>(fs, ready). (\<lambda>rt. fst (publish_audio fs rt), ready)) rounds"

text \<open>The rounds that end the loop, and how many of the rounds up to the end have only an item.\<close>

fun ends_loop :: "ws_ready \<Rightarrow> bool" where
  "ends_loop (MessageReady disconnect) = disconnect"
| "ends_loop (BothReady disconnect) = disconnect"
| "ends_loop ItemReady = False"
| "ends_loop SendRaises = True"
| "ends_loop Cancelled = True"

definition item_rounds :: "(bytes list \<times> ws_ready) list \<Rightarrow> nat" where
  "item_rounds rounds = length (filter (\<lambda>r. snd r = ItemReady) (takeWhile (\<lambda>r. \<not> ends_loop (snd r)) rounds))"

lemma audio_round_cases:
  assumes "rt_inv rt" and "map_of (b_queues (rt_audio rt)) i = Some q"
    and "ws_round AudioChannel i ready rt = Some (rt', out, nxt)"
  shows "\<exists>frames q'. out = map WsBytes frames \<and> subseq (frames @ q') q \<and> rt_inv rt'
    \<and> map_of (b_queues (rt_audio rt')) i = Some q' \<and> length frames = (if ready = ItemReady then 1 else 0)
    \<and> (nxt = WsReturn \<longleftrightarrow> ends_loop ready)"
proof -
  have q': "\<exists>x q'. q = x # q' \<and> map_of (b_queues (rt_audio rt')) i = Some q' \<and> y = Inr x"
    if "queue_get AudioChannel i rt = Some (y, rt')" for y rt'
    using that assms(1,2) b_inv_take[of "rt_audio rt" i] by (fastforce simp: queue_get_def rt_inv_def bcast_ok_def)
  have sk: "subseq q' (x # q')" for x and q' :: "bytes list" by auto
  show ?thesis
  proof (cases ready)
    case ItemReady
    then obtain y where y: "queue_get AudioChannel i rt = Some (y, rt')" "out = [ws_send AudioChannel y]" "nxt = WsContinue"
      using assms(3) by (auto simp: ws_round_def)
    from q'[OF y(1)] obtain x q1 where x: "q = x # q1" "map_of (b_queues (rt_audio rt')) i = Some q1" "y = Inr x" by blast
    show ?thesis using y x rt_inv_queue_get[OF assms(1) y(1)] ItemReady
      by (intro exI[of _ "[x]"] exI[of _ q1]) (simp add: ws_send_def)
  next
    case (BothReady d)
    then obtain y where y: "queue_get AudioChannel i rt = Some (y, rt')" "out = []" "nxt = (if d then WsReturn else WsContinue)"
      using assms(3) by (auto simp: ws_round_def)
    with q'[OF y(1)] rt_inv_queue_get[OF assms(1) y(1)] sk BothReady show ?thesis by auto
  next
    case SendRaises
    then obtain y where y: "queue_get AudioChannel i rt = Some (y, rt')" "out = []" "nxt = WsReturn" using assms(3) by (auto simp: ws_round_def)
    with q'[OF y(1)] rt_inv_queue_get[OF assms(1) y(1)] sk SendRaises show ?thesis by auto
  qed (use assms in \<open>auto simp: ws_round_def split: if_splits\<close>)
qed

lemma audio_loop:
  assumes "rt_inv rt" and "map_of (b_queues (rt_audio rt)) i = Some q"
    and "ws_queue_loop AudioChannel i (audio_rounds rounds) rt = Some (rt', outs, fin)"
  shows "\<exists>frames q'. outs = map WsBytes frames \<and> subseq (frames @ q') (q @ concat (map fst rounds)) \<and> rt_inv rt'
    \<and> map_of (b_queues (rt_audio rt')) i = Some q' \<and> length frames = item_rounds rounds"
  using assms
proof (induction rounds arbitrary: rt q outs)
  case Nil
  then show ?case by (auto simp: audio_rounds_def item_rounds_def intro!: exI[of _ "[]"])
next
  case (Cons r rounds)
  obtain fs ready where r: "r = (fs, ready)" by fastforce
  let ?rt = "fst (publish_audio fs rt)" and ?q = "window 128 (q @ fs)"
  have inv: "rt_inv ?rt" and q: "map_of (b_queues (rt_audio ?rt)) i = Some ?q"
    using publish_audio_queue[OF Cons.prems(1,2), of fs] by simp_all
  obtain rt1 out nxt where round: "ws_round AudioChannel i ready ?rt = Some (rt1, out, nxt)"
    using Cons.prems(3) by (auto simp: r audio_rounds_def split: option.splits)
  from audio_round_cases[OF inv q round] obtain fr1 q1 where one: "out = map WsBytes fr1" "subseq (fr1 @ q1) ?q"
    "rt_inv rt1" "map_of (b_queues (rt_audio rt1)) i = Some q1" "length fr1 = (if ready = ItemReady then 1 else 0)"
    "nxt = WsReturn \<longleftrightarrow> ends_loop ready" by blast
  have w: "subseq (fr1 @ q1) (q @ fs)"
    using one(2) suffix_imp_subseq[OF suffix_window] by (rule subseq_order.order_trans)
  show ?case
  proof (cases nxt)
    case WsReturn
    then have "rt' = rt1" "outs = out" using Cons.prems(3) round by (simp_all add: r audio_rounds_def)
    moreover have "subseq (fr1 @ q1) (q @ concat (map fst (r # rounds)))"
      using list_emb_append_mono[OF w, of "[]" "concat (map fst rounds)"] by (simp add: r)
    moreover have "length fr1 = item_rounds (r # rounds)" using one(5,6) WsReturn by (auto simp: r item_rounds_def)
    ultimately show ?thesis using one by blast
  next
    case WsContinue
    then obtain outs2 where l: "ws_queue_loop AudioChannel i (audio_rounds rounds) rt1 = Some (rt', outs2, fin)"
      and outs: "outs = out @ outs2" using Cons.prems(3) round by (auto simp: r audio_rounds_def)
    from Cons.IH[OF one(3,4) l] obtain fr2 q2 where two: "outs2 = map WsBytes fr2"
      "subseq (fr2 @ q2) (q1 @ concat (map fst rounds))" "rt_inv rt'" "map_of (b_queues (rt_audio rt')) i = Some q2"
      "length fr2 = item_rounds rounds" by blast
    have "subseq (fr1 @ fr2 @ q2) (fr1 @ q1 @ concat (map fst rounds))"
      by (rule list_emb_append_mono[OF subseq_order.order_refl two(2)])
    also have "subseq \<dots> ((q @ fs) @ concat (map fst rounds))" using list_emb_append_mono[OF w subseq_order.order_refl] by simp
    finally have sub: "subseq (fr1 @ fr2 @ q2) (q @ fs @ concat (map fst rounds))" by simp
    moreover have "length (fr1 @ fr2) = item_rounds (r # rounds)" using one(5,6) two(5) WsContinue by (auto simp: r item_rounds_def)
    ultimately show ?thesis using outs one(1) two(1,3,4)
      by (intro exI[of _ "fr1 @ fr2"] exI[of _ q2]) (simp add: r)
  qed
qed

text \<open>
  How many frames wait before the round \<open>k\<close> of a silent client is served: those published so far less
  the \<open>k\<close> already sent.
\<close>

abbreviation published :: "(bytes list \<times> ws_ready) list \<Rightarrow> nat \<Rightarrow> nat" where
  "published rounds k \<equiv> length (concat (map fst (take (Suc k) rounds)))"

lemma silent_round:
  assumes "rt_inv rt" and "map_of (b_queues (rt_audio rt)) i = Some (x # q)"
  shows "\<exists>rt'. ws_round AudioChannel i ItemReady rt = Some (rt', [WsBytes x], WsContinue) \<and> rt_inv rt'
    \<and> map_of (b_queues (rt_audio rt')) i = Some q"
proof -
  obtain rt' where get: "queue_get AudioChannel i rt = Some (Inr x, rt')" "map_of (b_queues (rt_audio rt')) i = Some q"
    using assms(2) by (auto simp: queue_get_def take_item_def get_nowait_def)
  with rt_inv_queue_get[OF assms(1) get(1)] show ?thesis by (simp add: ws_round_def ws_send_def)
qed

lemma silent_loop:
  assumes "rt_inv rt" and "map_of (b_queues (rt_audio rt)) i = Some q" and "list_all (\<lambda>r. snd r = ItemReady) rounds"
    and "\<forall>k < length rounds. k < length q + published rounds k \<and> length q + published rounds k \<le> 128 + k"
  shows "\<exists>rt'. ws_queue_loop AudioChannel i (audio_rounds rounds) rt =
    Some (rt', map WsBytes (take (length rounds) (q @ concat (map fst rounds))), False)"
  using assms
proof (induction rounds arbitrary: rt q)
  case Nil
  then show ?case by (simp add: audio_rounds_def)
next
  case (Cons r rounds)
  obtain fs where r: "r = (fs, ItemReady)" using Cons.prems(3) by (cases r) simp
  have len: "0 < length (q @ fs)" "length (q @ fs) \<le> 128" using Cons.prems(4)[rule_format, of 0] by (simp_all add: r)
  then have "window 128 (q @ fs) = q @ fs" by (intro window_id) (simp add: bounded_def)
  then have pub: "rt_inv (fst (publish_audio fs rt))" "map_of (b_queues (rt_audio (fst (publish_audio fs rt)))) i = Some (q @ fs)"
    using publish_audio_queue[OF Cons.prems(1,2), of fs] by simp_all
  obtain x q1 where x: "q @ fs = x # q1" using len(1) by (cases "q @ fs") auto
  obtain rt1 where one: "ws_round AudioChannel i ItemReady (fst (publish_audio fs rt)) = Some (rt1, [WsBytes x], WsContinue)"
    "rt_inv rt1" "map_of (b_queues (rt_audio rt1)) i = Some q1"
    using silent_round[OF pub(1) pub(2)[unfolded x]] by blast
  have lx: "length q + length fs = Suc (length q1)" using arg_cong[OF x, of length] by simp
  have "\<forall>k < length rounds. k < length q1 + published rounds k \<and> length q1 + published rounds k \<le> 128 + k"
  proof (intro allI impI)
    fix k assume "k < length rounds"
    then show "k < length q1 + published rounds k \<and> length q1 + published rounds k \<le> 128 + k"
      using Cons.prems(4)[rule_format, of "Suc k"] lx by (auto simp: r)
  qed
  from Cons.IH[OF one(2,3) _ this] Cons.prems(3) obtain rt' where
    "ws_queue_loop AudioChannel i (audio_rounds rounds) rt1 = Some (rt', map WsBytes (take (length rounds) (q1 @ concat (map fst rounds))), False)"
    by auto
  moreover have "take (length (r # rounds)) (q @ concat (map fst (r # rounds))) = x # take (length rounds) (q1 @ concat (map fst rounds))"
    using x by (metis (no_types, lifting) append.assoc append_Cons concat.simps(2) fst_conv length_Cons list.simps(9) r take_Suc_Cons)
  ultimately show ?case using one(1) by (simp add: r audio_rounds_def)
qed

lemma open_audio:
  assumes "rt_inv rt"
  shows "rt_inv (on_channel AudioChannel (subscribe i) (subscribe i) rt)"
    "map_of (b_queues (rt_audio (on_channel AudioChannel (subscribe i) (subscribe i) rt))) i = Some []"
    "websocket now ''/ws/audio'' True i rounds rt =
       map_option (\<lambda>(rt2, outs, fin). (if fin then ws_leave AudioChannel i rt2 else rt2, WsAccept # outs, fin))
         (ws_queue_loop AudioChannel i rounds (on_channel AudioChannel (subscribe i) (subscribe i) rt))"
  by (rule rt_inv_subscriptions[OF assms]) (simp_all add: subscribe_def websocket_def ws_open_def ws_channel_def)

text \<open>
  C24 (what an audio socket carries). From the connect on, while the demodulator publishes frames and
  the client may send messages, an audio WebSocket carries binary messages only, exactly one for every
  round in which an item is ready and no message is, up to the end of the loop; their contents are a
  subsequence of the frames published since it was opened: nothing is repeated, reordered or invented.
  When the handler returns, on a disconnect, a failed send or a cancellation, its queue is gone from the
  broadcaster. If the client stays silent, each of \<open>n\<close> rounds has a frame to send and never more than 128
  frames wait, the loop runs through all \<open>n\<close> rounds and the socket carries exactly the first \<open>n\<close> frames
  published, in order and without a gap.
\<close>

theorem websocket_audio_in_order:
  assumes "rt_inv rt"
  shows "(\<forall>rt' outs fin. websocket now ''/ws/audio'' True i (audio_rounds rounds) rt = Some (rt', outs, fin) \<longrightarrow>
      (\<exists>frames. outs = WsAccept # map WsBytes frames \<and> subseq frames (concat (map fst rounds))
         \<and> length frames = item_rounds rounds \<and> (fin \<longrightarrow> map_of (b_queues (rt_audio rt')) i = None)))
    \<and> (list_all (\<lambda>r. snd r = ItemReady) rounds
         \<and> (\<forall>k < length rounds. k < published rounds k \<and> published rounds k \<le> 128 + k) \<longrightarrow>
       (\<exists>rt'. websocket now ''/ws/audio'' True i (audio_rounds rounds) rt =
          Some (rt', WsAccept # map WsBytes (take (length rounds) (concat (map fst rounds))), False)))"
proof (intro conjI allI impI)
  note start = open_audio[OF assms, where i = i]
  fix rt' outs fin assume "websocket now ''/ws/audio'' True i (audio_rounds rounds) rt = Some (rt', outs, fin)"
  then obtain rt2 outs2 where l: "ws_queue_loop AudioChannel i (audio_rounds rounds) (on_channel AudioChannel (subscribe i) (subscribe i) rt) =
      Some (rt2, outs2, fin)" and outs: "outs = WsAccept # outs2" and rt': "rt' = (if fin then ws_leave AudioChannel i rt2 else rt2)"
    unfolding start(3) by auto
  from audio_loop[OF start(1,2) l] obtain frames q' where f: "outs2 = map WsBytes frames"
    "subseq (frames @ q') (concat (map fst rounds))" "rt_inv rt2" "length frames = item_rounds rounds" by auto
  have "subseq frames (concat (map fst rounds))" using subseq_order.order_trans[OF prefix_imp_subseq f(2)] by simp
  moreover have "map_of (b_queues (rt_audio rt')) i = None" if fin
    using that f(3) by (simp add: rt' ws_leave_def unsubscribe_def rt_inv_def bcast_ok_def b_inv_def)
  ultimately show "\<exists>frames. outs = WsAccept # map WsBytes frames \<and> subseq frames (concat (map fst rounds))
      \<and> length frames = item_rounds rounds \<and> (fin \<longrightarrow> map_of (b_queues (rt_audio rt')) i = None)"
    using f(1,4) outs by (intro exI[of _ frames]) simp
next
  assume silent: "list_all (\<lambda>r. snd r = ItemReady) rounds
      \<and> (\<forall>k < length rounds. k < published rounds k \<and> published rounds k \<le> 128 + k)"
  then obtain rt' where "ws_queue_loop AudioChannel i (audio_rounds rounds) (on_channel AudioChannel (subscribe i) (subscribe i) rt) =
      Some (rt', map WsBytes (take (length rounds) (concat (map fst rounds))), False)"
    using silent_loop[OF open_audio(1,2)[OF assms, where i = i], of rounds] by auto
  then show "\<exists>rt'. websocket now ''/ws/audio'' True i (audio_rounds rounds) rt =
      Some (rt', WsAccept # map WsBytes (take (length rounds) (concat (map fst rounds))), False)"
    by (simp add: open_audio(3)[OF assms])
qed

theorem websocket_audio_in_order_witness:
  "(\<exists>rt'. websocket (FFin 0) ''/ws/audio'' True 3
       (audio_rounds [([[1, 2], [3, 4]], ItemReady), ([], BothReady False), ([[5]], ItemReady), ([], MessageReady True)]) demo_runtime
     = Some (rt', [WsAccept, WsBytes [1, 2], WsBytes [5]], True) \<and> map_of (b_queues (rt_audio rt')) 3 = None)
   \<and> (\<exists>rt'. websocket (FFin 0) ''/ws/audio'' True 3 (audio_rounds [([[1, 2], [3, 4]], ItemReady), ([], ItemReady)]) demo_runtime
     = Some (rt', [WsAccept, WsBytes [1, 2], WsBytes [3, 4]], False))"
proof (intro conjI)
  let ?rounds = "[([[1, 2], [3, 4]], ItemReady), ([], BothReady False), ([[5]], ItemReady), ([], MessageReady True)] :: (bytes list \<times> ws_ready) list"
  have "\<exists>rt'. websocket (FFin 0) ''/ws/audio'' True 3 (audio_rounds ?rounds) demo_runtime
      = Some (rt', [WsAccept, WsBytes [1, 2], WsBytes [5]], True)"
    by (simp add: websocket_def ws_open_def ws_channel_def ws_round_def queue_get_def demo_runtime_def audio_rounds_def
        runtime_init_def broadcaster_init_def subscribe_def publish_def put_nowait_def q_full_def take_item_def
        get_nowait_def ws_send_def sthen_def)
  then obtain rt' where "websocket (FFin 0) ''/ws/audio'' True 3 (audio_rounds ?rounds) demo_runtime
      = Some (rt', [WsAccept, WsBytes [1, 2], WsBytes [5]], True)" by blast
  with websocket_audio_in_order[OF demo_runtime_inv, of "FFin 0" 3 ?rounds]
  show "\<exists>rt'. websocket (FFin 0) ''/ws/audio'' True 3 (audio_rounds ?rounds) demo_runtime
      = Some (rt', [WsAccept, WsBytes [1, 2], WsBytes [5]], True) \<and> map_of (b_queues (rt_audio rt')) 3 = None" by blast
  let ?silent = "[([[1, 2], [3, 4]], ItemReady), ([], ItemReady)] :: (bytes list \<times> ws_ready) list"
  have "\<forall>k < length ?silent. k < published ?silent k \<and> published ?silent k \<le> 128 + k" by (simp add: less_Suc_eq)
  then show "\<exists>rt'. websocket (FFin 0) ''/ws/audio'' True 3 (audio_rounds ?silent) demo_runtime
      = Some (rt', [WsAccept, WsBytes [1, 2], WsBytes [3, 4]], False)"
    using websocket_audio_in_order[OF demo_runtime_inv, of "FFin 0" 3 ?silent] by simp
qed

end
