(* ===== verification/Pipeline.thy ===== *)
theory Pipeline
  imports Server_Psd Web_Session
begin

text \<open>
  From the antenna to the browser: what the loops of the device put on the wire goes through the
  receiver threads, which schedule the handlers of \<^verbatim>\<open>runtime.py\<close> on the event loop (\<open>_thread_iq\<close>,
  \<open>_thread_psd\<close>, \<open>_thread_status\<close>, \<open>_thread_error\<close>), into the state and the queues of the backend.
  \<open>call_soon_threadsafe\<close> runs what it is given in the order of the calls, so a thread contributes a
  list of events of the backend.
\<close>

section \<open>Callbacks of the receiver threads\<close>

definition thread_iq :: "(bytes \<Rightarrow> pyfloat list result) \<Rightarrow> ('c, 'f) BackendRuntime \<Rightarrow> SdrIqHeader \<times> bytes \<Rightarrow> rt_event list" where
  "thread_iq sp rt = (\<lambda>(header, payload). if rt_loop rt then [IqPacket sp header payload] else [])"

definition thread_psd :: "('c, 'f) BackendRuntime \<Rightarrow> SdrPsdHeader \<times> bytes \<Rightarrow> rt_event list" where
  "thread_psd rt = (\<lambda>(header, payload). if rt_loop rt then [PsdPacket header payload] else [])"

definition thread_status :: "pyfloat \<Rightarrow> ('c, 'f) BackendRuntime \<Rightarrow> pyval \<Rightarrow> rt_event list" where
  "thread_status now rt status = (if rt_loop rt then [StatusReport now status] else [])"

definition thread_error :: "pyfloat \<Rightarrow> ('c, 'f) BackendRuntime \<Rightarrow> exn \<Rightarrow> rt_event list" where
  "thread_error now rt exc = (if rt_loop rt then [ErrorReport now exc] else [])"

text \<open>Everything one receiver thread schedules for a sequence of datagrams.\<close>

definition scheduled :: "('a \<Rightarrow> rt_event list) \<Rightarrow> (exn \<Rightarrow> rt_event list) \<Rightarrow> ('a + exn) list \<Rightarrow> rt_event list" where
  "scheduled deliver report calls = concat (map (case_sum deliver report) calls)"

lemma scheduled_Inl [simp]: "scheduled deliver report (map Inl xs) = concat (map deliver xs)"
  by (simp add: scheduled_def comp_def)

lemma run_step_Some [simp]: "run_step numpy (Some rt) e = runtime_step numpy rt e"
  by (simp add: run_step_def)

section \<open>PSD frames\<close>

lemma ingest_frame_keys:
  assumes "ingest h p s = (s', Inr (Some fr))"
  obtains d m where "map_of fr ''frame_seq'' = Some (PInt (psd_frame_seq h))"
    "map_of fr ''dropped_frame_count'' = Some (PInt d)" "map_of fr ''missing_segment_count'' = Some (PInt m)"
  using assms by (auto simp: ingest_def Let_def rbind_eq_Inr split: if_splits)

lemma handle_psd_None:
  "ingest h p (rt_psd_reassembler rt) = (ra, Inr None) \<Longrightarrow> handle_psd h p rt = (rt\<lparr>rt_psd_reassembler := ra\<rparr>, Inr ())"
  by (simp add: handle_psd_def)

lemma handle_psd_Some:
  assumes "ingest h p (rt_psd_reassembler rt) = (ra, Inr (Some fr))"
  shows "\<exists>upd. map_of upd ''frame_seq'' = map_of fr ''frame_seq'' \<and> dict_ok upd
    \<and> handle_psd h p rt = publish_spectrum fr (map_state (\<lambda>s. s\<lparr>as_psd := dupdate (as_psd s) upd\<rparr>) (rt\<lparr>rt_psd_reassembler := ra\<rparr>))"
proof -
  obtain d m where "map_of fr ''frame_seq'' = Some (PInt (psd_frame_seq h))"
    "map_of fr ''dropped_frame_count'' = Some (PInt d)" "map_of fr ''missing_segment_count'' = Some (PInt m)"
    by (rule ingest_frame_keys[OF assms])
  then show ?thesis
    by (intro exI[of _ "[(''enabled'', PBool True), (''frame_seq'', PInt (psd_frame_seq h)),
        (''dropped_frame_count'', PInt d), (''missing_segment_count'', PInt m)]"])
      (simp add: handle_psd_def assms dgetitem_def dict_ok_def)
qed

lemma length_ingest_run: "ingest_run s xs = (s', rs) \<Longrightarrow> length rs = length xs"
  by (induction xs arbitrary: s rs) (auto simp: Let_def split: prod.splits)

lemma psd_events_run:
  assumes "ingest_run (rt_psd_reassembler rt) xs = (ra, replicate n (Inr None) @ [Inr (Some fr)])"
  shows "\<exists>upd. map_of upd ''frame_seq'' = map_of fr ''frame_seq'' \<and> dict_ok upd
    \<and> foldl (run_step numpy) (Some rt) (map (\<lambda>(h, p). PsdPacket h p) xs) =
      Some (fst (publish_spectrum fr (map_state (\<lambda>s. s\<lparr>as_psd := dupdate (as_psd s) upd\<rparr>) (rt\<lparr>rt_psd_reassembler := ra\<rparr>))))"
  using assms
proof (induction n arbitrary: rt xs)
  case 0
  have "length xs = 1" using length_ingest_run[OF 0] by simp
  then obtain h p where xs: "xs = [(h, p)]" by (auto simp: length_Suc_conv)
  have "ingest h p (rt_psd_reassembler rt) = (ra, Inr (Some fr))" using 0 by (simp add: xs split: prod.splits)
  from handle_psd_Some[OF this] show ?case by (auto simp: xs)
next
  case (Suc n)
  obtain h p xs1 where xs: "xs = (h, p) # xs1" using length_ingest_run[OF Suc.prems] by (cases xs) auto
  obtain ra1 where ing: "ingest h p (rt_psd_reassembler rt) = (ra1, Inr None)"
    and rest: "ingest_run ra1 xs1 = (ra, replicate n (Inr None) @ [Inr (Some fr)])"
    using Suc.prems by (auto simp: xs split: prod.splits)
  from Suc.IH[of "rt\<lparr>rt_psd_reassembler := ra1\<rparr>" xs1] rest handle_psd_None[OF ing]
  show ?case by (simp add: xs)
qed

lemma publish_spectrum_queue:
  assumes "rt_inv rt" and "map_of (b_queues (rt_spectrum rt)) i = Some q"
  shows "map_of (b_queues (rt_spectrum (fst (publish_spectrum fr rt)))) i = Some (window 16 (q @ [fr]))
    \<and> rt_state (fst (publish_spectrum fr rt)) = rt_state rt"
proof -
  have b: "b_inv (rt_spectrum rt)" "b_max_queue (rt_spectrum rt) = 16" using assms(1) by (simp_all add: rt_inv_def bcast_ok_def)
  show ?thesis using map_of_publish[OF b(1), of fr i] assms(2) b(2)
    by (simp add: publish_spectrum_def split_def Let_def)
qed

text \<open>
  C1 (a spectrum from the device to the browsers). A device whose PSD is on sends the eight segments
  of a frame in one round of its loop. In whatever order they arrive at a running backend that does not hold
  parts of that frame yet, every browser subscribed to spectra gets exactly one new message,
  after the ones it has not read: the frame with the 4096 levels the device computed. The status of
  the backend shows the number of the frame; the loop of the device stays alive and the number advances
  modulo \<open>2^32\<close>.
\<close>

theorem psd_reaches_browsers:
  assumes "psd_ready net dest sv" and "clock_ok clock" and "sv' = server_step m net sv (PsdTick clock)"
    and "rt_inv rt" and "rt_loop rt"
    and "map_of (ra_frames (rt_psd_reassembler rt)) (pc_psd_id (sv_psd_config sv), sv_psd_frame_seq sv) = None"
    and "distinct order" and "set order = {0..<8}" and "map_of (b_queues (rt_spectrum rt)) i = Some q"
  shows "\<exists>ws bins rt' fr. sv_wire sv' = sv_wire sv @ map (Pair dest) ws \<and> length ws = 8
    \<and> make_psd_bins_q8 4096 (pc_start_frequency_hz (sv_psd_config sv)) (pc_stop_frequency_hz (sv_psd_config sv)) = Inr bins
    \<and> length bins = 4096
    \<and> foldl (run_step numpy) (Some rt) (scheduled (thread_psd rt) (thread_error now rt)
          (receive_loop handle_psd_datagram (map (\<lambda>k. ws ! k) order))) = Some rt'
    \<and> map_of (b_queues (rt_spectrum rt')) i = Some (window 16 (q @ [fr]))
    \<and> map_of fr ''bins_dbfs'' = Some (PList (map (\<lambda>q. PFloat (q8_to_dbfs q)) bins))
    \<and> map_of (as_psd (rt_state rt')) ''frame_seq'' = Some (PInt (sv_psd_frame_seq sv))
    \<and> sv_psd_task sv' = Running \<and> sv_psd_frame_seq sv' = mask32 (sv_psd_frame_seq sv + 1)"
proof -
  have ra: "ra_inv (rt_psd_reassembler rt)" using assms(4) by (simp add: rt_inv_def)
  obtain ws bins xs ra' fr where e2e: "sv_wire sv' = sv_wire sv @ map (Pair dest) ws" "length ws = 8"
    "make_psd_bins_q8 4096 (pc_start_frequency_hz (sv_psd_config sv)) (pc_stop_frequency_hz (sv_psd_config sv)) = Inr bins"
    "length bins = 4096" "receive_loop handle_psd_datagram (map (\<lambda>k. ws ! k) order) = map Inl xs"
    and run: "ingest_run (rt_psd_reassembler rt) xs = (ra', replicate 7 (Inr None) @ [Inr (Some fr)])"
    and fr: "map_of fr ''frame_seq'' = Some (PInt (sv_psd_frame_seq sv))"
      "map_of fr ''bins_dbfs'' = Some (PList (map (\<lambda>q. PFloat (q8_to_dbfs q)) bins))"
    and sv': "sv_psd_task sv' = Running" "sv_psd_frame_seq sv' = mask32 (sv_psd_frame_seq sv + 1)"
    using psd_end_to_end[OF assms(1,2,3) ra assms(6,7,8)] by metis
  obtain upd where upd: "map_of upd ''frame_seq'' = map_of fr ''frame_seq''" "dict_ok upd"
    and steps: "foldl (run_step numpy) (Some rt) (map (\<lambda>(h, p). PsdPacket h p) xs) = Some (fst (publish_spectrum fr
      (map_state (\<lambda>s. s\<lparr>as_psd := dupdate (as_psd s) upd\<rparr>) (rt\<lparr>rt_psd_reassembler := ra'\<rparr>))))"
    using psd_events_run[OF run] by blast
  let ?rt1 = "map_state (\<lambda>s. s\<lparr>as_psd := dupdate (as_psd s) upd\<rparr>) (rt\<lparr>rt_psd_reassembler := ra'\<rparr>)"
  have "ra_inv ra'" using psdm.run_inv[OF ra, of xs] run ingest_run_fst[of "rt_psd_reassembler rt" xs] by simp
  then have inv1: "rt_inv ?rt1" using assms(4) by (simp add: rt_inv_def map_state_def)
  have q1: "map_of (b_queues (rt_spectrum ?rt1)) i = Some q" using assms(9) by (simp add: map_state_def)
  note pub = publish_spectrum_queue[OF inv1 q1, of fr]
  have sched: "concat (map (thread_psd rt) xs) = map (\<lambda>(h, p). PsdPacket h p) xs"
    using assms(5) by (simp add: thread_psd_def split_def concat_map_singleton)
  have seq: "map_of (as_psd (rt_state (fst (publish_spectrum fr ?rt1)))) ''frame_seq'' = Some (PInt (sv_psd_frame_seq sv))"
    using pub upd fr(1) by (simp add: map_state_def map_of_dupdate_ok)
  show ?thesis
    using e2e fr(2) sv' pub seq steps
    by (intro exI[of _ ws] exI[of _ bins] exI[of _ "fst (publish_spectrum fr ?rt1)"] exI[of _ fr] conjI) (simp_all add: sched)
qed

definition serving_runtime :: "(int \<times> int, int) BackendRuntime" where
  "serving_runtime = on_channel SpectrumChannel (subscribe 4) (subscribe 4) (demo_runtime\<lparr>rt_loop := True\<rparr>)"

lemma serving_runtime_inv: "rt_inv serving_runtime"
proof -
  have "rt_inv (demo_runtime\<lparr>rt_loop := True\<rparr>)" using demo_runtime_inv by (simp add: rt_inv_def)
  then show ?thesis unfolding serving_runtime_def by (intro rt_inv_on_channel bcast_ok_subscribe)
qed

theorem psd_reaches_browsers_witness:
  "\<exists>ws bins rt' fr. sv_wire (server_step flat_libm (\<lambda>d. None) live_server (PsdTick (\<lambda>i. 5))) = map (Pair (''10.0.0.2'', 9002)) ws
     \<and> length bins = 4096
     \<and> foldl (run_step None) (Some serving_runtime) (scheduled (thread_psd serving_runtime) (thread_error (FFin 0) serving_runtime)
          (receive_loop handle_psd_datagram (map (\<lambda>k. ws ! k) [7, 6, 5, 4, 3, 2, 1, 0]))) = Some rt'
     \<and> map_of (b_queues (rt_spectrum rt')) 4 = Some [fr]
     \<and> map_of fr ''bins_dbfs'' = Some (PList (map (\<lambda>q. PFloat (q8_to_dbfs q)) bins))"
proof -
  have ready: "psd_ready (\<lambda>d. None) (''10.0.0.2'', 9002) live_server"
    by (simp add: psd_ready_def live_server_def server_init_def psd_settings_init_def psd_ok_def packable_def)
  have clock: "clock_ok (\<lambda>i. 5)" by (simp add: clock_ok_def)
  have loop: "rt_loop serving_runtime" "rt_psd_reassembler serving_runtime = reassembler_init"
    "map_of (b_queues (rt_spectrum serving_runtime)) 4 = Some []"
    by (simp_all add: serving_runtime_def demo_runtime_def runtime_init_def subscribe_def)
  have fresh: "map_of (ra_frames (rt_psd_reassembler serving_runtime))
      (pc_psd_id (sv_psd_config live_server), sv_psd_frame_seq live_server) = None"
    by (simp add: loop(2) reassembler_init_def)
  have order: "distinct [7, 6, 5, 4, 3, 2, 1, 0 :: nat]" "set [7, 6, 5, 4, 3, 2, 1, 0 :: nat] = {0..<8}" by auto
  have "sv_wire live_server = []" by (simp add: live_server_def server_init_def)
  with psd_reaches_browsers[OF ready clock refl serving_runtime_inv loop(1) fresh order loop(3), of flat_libm None "FFin 0"]
  show ?thesis by (auto simp: window_def)
qed

section \<open>IQ packets\<close>

lemma publish_audio_state [simp]: "rt_state (fst (publish_audio fs rt)) = rt_state rt"
  by (induction fs rt rule: publish_audio.induct) (auto simp: sthen_def split: prod.splits sum.splits)

lemma compute_spectrum_state [simp]: "rt_state (fst (compute_spectrum b sp h p rt)) = rt_state rt"
  by (auto simp: compute_spectrum_def publish_spectrum_def Let_def split: prod.splits sum.splits option.splits)

lemma sthen_state:
  assumes "rt_state (fst m) = s" and "\<And>x rt. rt_state (fst (k x rt)) = rt_state rt"
  shows "rt_state (fst (sthen m k)) = s"
  using assms by (cases m; cases "snd m") auto

text \<open>Whatever demodulation and spectrum make of a packet, its header is counted.\<close>

lemma handle_iq_state:
  assumes "handle_iq numpy sp h p rt = Some (rt', r)"
  shows "rt_state rt' = ingest_iq_header h (rt_state rt)"
proof -
  have rest: "rt_state (fst (sthen (rt1, res) (\<lambda>frames rt2. sthen (publish_audio frames rt2)
      (\<lambda>_. compute_spectrum b sp h p)))) = rt_state rt1" for rt1 :: "('a, 'b) BackendRuntime" and res b
    by (intro sthen_state) simp_all
  show ?thesis
  proof (cases "py_get (as_rx (ingest_iq_header h (rt_state rt))) ''mode'' (PStr ''WFM'')")
    case (Inl e)
    then show ?thesis using assms by (auto simp: handle_iq_def map_state_def)
  next
    case (Inr mode)
    let ?rt1 = "rt\<lparr>rt_state := ingest_iq_header h (rt_state rt)\<rparr>"
    have eq: "handle_iq numpy sp h p rt = Option.bind (process_sc16 numpy p (configure (py_str mode) (iq_iq_sample_rate_hz h) (rt_demod ?rt1)))
        (\<lambda>(d, res). Some (sthen (?rt1\<lparr>rt_demod := d\<rparr>, res) (\<lambda>frames rt2. sthen (publish_audio frames rt2)
          (\<lambda>_. compute_spectrum (numpy \<noteq> None) sp h p))))"
      using Inr by (simp add: handle_iq_def map_state_def Let_def)
    then obtain d res where "(rt', r) = sthen (?rt1\<lparr>rt_demod := d\<rparr>, res)
        (\<lambda>frames rt2. sthen (publish_audio frames rt2) (\<lambda>_. compute_spectrum (numpy \<noteq> None) sp h p))"
      using assms unfolding eq bind_eq_Some_conv by (metis (no_types, lifting) case_prod_conv option.inject surj_pair)
    then have "rt' = fst (sthen (?rt1\<lparr>rt_demod := d\<rparr>, res)
        (\<lambda>frames rt2. sthen (publish_audio frames rt2) (\<lambda>_. compute_spectrum (numpy \<noteq> None) sp h p)))"
      by (metis fst_conv)
    then show ?thesis by (simp add: rest)
  qed
qed

lemma iq_events_run:
  assumes "rt_inv rt"
  shows "\<exists>rt'. foldl (run_step numpy) (Some rt) (map (\<lambda>(h, p). IqPacket sp h p) xs) = Some rt'
    \<and> rt_state rt' = foldl (\<lambda>a (h, p). ingest_iq_header h a) (rt_state rt) xs"
  using assms
proof (induction xs arbitrary: rt)
  case (Cons x xs)
  obtain h p where x: "x = (h, p)" by fastforce
  obtain rt1 r where h: "handle_iq numpy sp h p rt = Some (rt1, r)" and inv: "rt_inv rt1"
    using rt_inv_handle_iq[OF Cons.prems] by blast
  from Cons.IH[OF inv] show ?case by (simp add: x h handle_iq_state[OF h])
qed simp

lemma stats_of_ingest:
  "\<forall>(h, p) \<in> set xs. iq_stream_id h = i \<Longrightarrow>
   stats_of (foldl (\<lambda>a (h, p). ingest_iq_header h a) a xs) i = foldl (\<lambda>st h. ingest_stats_header h st) (stats_of a i) (map fst xs)"
  by (induction xs arbitrary: a) (auto simp: ingest_iq_header_def stats_of_def dget_def)

lemma received_iq:
  assumes "after_packets i s dest n sv sv'" and "filter (kept sv) [0..<n] = [0..<n]"
  shows "\<exists>ps. length ps = n \<and> receive_loop handle_iq_datagram (map snd (drop (length (sv_wire sv)) (sv_wire sv'))) =
    map Inl (zip (map (nth_header (sv_config sv) s) [0..<n]) ps)"
proof -
  obtain ws where "drop (length (sv_wire sv)) (sv_wire sv') = ws"
    "list_all2 (datagram_of dest) (map (nth_header (sv_config sv) s) [0..<n]) ws"
    using assms by (auto simp: after_packets_def)
  with receive_packets[OF this(2)] show ?thesis by auto
qed

text \<open>
  C2 (samples from the device to the status of the backend). A stream the device has just started,
  sending to a running backend that has not seen the stream: after any number of rounds of the
  transmit loop the loop is still alive, and when the receiver thread and the event loop have
  worked off what was sent, whatever demodulation and spectrum made of it, the backend is in a
  proper state and its statistics show every packet, no loss and no gap in the timestamps.
\<close>

theorem iq_reaches_status:
  assumes "libm_ok m" and "streaming net i s dest sv" and "list_all (\<lambda>draws. draws_ok (draws i)) ds"
    and "st_seq s = 0" and "cfg_drop_every (sv_config sv) \<le> 0"
    and "sv' = foldl (server_step m net) sv (map IqTick ds)"
    and "rt_inv rt" and "rt_loop rt" and "map_of (as_streams (rt_state rt)) (st_stream_id s) = None"
  shows "sv_tx_task sv' = Running \<and>
    (\<exists>rt'. foldl (run_step numpy) (Some rt) (scheduled (thread_iq sp rt) (thread_error now rt)
        (receive_loop handle_iq_datagram (map snd (drop (length (sv_wire sv)) (sv_wire sv'))))) = Some rt' \<and> rt_inv rt'
     \<and> (let st = stats_of (rt_state rt') (st_stream_id s)
        in ss_packets st = int (length ds) \<and> ss_lost_packets st = 0 \<and> ss_timestamp_gaps st = 0))"
proof -
  let ?hs = "map (nth_header (sv_config sv) s) [0..<length ds]"
  have "foldl (server_step m net) sv (map IqTick ds) = foldl (\<lambda>sv draws. iq_tick m draws net sv) sv ds"
    by (simp add: foldl_map)
  then have af: "after_packets i s dest (length ds) sv sv'" using iq_run[OF assms(1,2,3)] assms(6) by simp
  have "filter (kept sv) [0..<length ds] = [0..<length ds]" using assms(5) by (auto simp: kept_def filter_id_conv)
  from received_iq[OF af this] obtain ps where ps: "length ps = length ds"
    "receive_loop handle_iq_datagram (map snd (drop (length (sv_wire sv)) (sv_wire sv'))) = map Inl (zip ?hs ps)" by blast
  have sched: "concat (map (thread_iq sp rt) (zip ?hs ps)) = map (\<lambda>(h, p). IqPacket sp h p) (zip ?hs ps)"
    using assms(8) by (simp add: thread_iq_def split_def concat_map_singleton)
  from iq_events_run[OF assms(7), of numpy sp "zip ?hs ps"] obtain rt' where
    run: "foldl (run_step numpy) (Some rt) (map (\<lambda>(h, p). IqPacket sp h p) (zip ?hs ps)) = Some rt'"
    and st: "rt_state rt' = foldl (\<lambda>a (h, p). ingest_iq_header h a) (rt_state rt) (zip ?hs ps)" by blast
  have "running_ok (Some rt)" using assms(7) by (simp add: running_ok_def)
  from rtm.run_inv[OF this, of numpy "map (\<lambda>(h, p). IqPacket sp h p) (zip ?hs ps)"] have "rt_inv rt'"
    unfolding run by (simp add: running_ok_def)
  moreover have "iq_stream_id h = st_stream_id s" if "(h, p) \<in> set (zip ?hs ps)" for h p
    using set_zip_leftD[OF that] by (auto simp: nth_header_def packet_header_def iq_header_def stream_at_def)
  then have "stats_of (rt_state rt') (st_stream_id s) =
      foldl (\<lambda>st h. ingest_stats_header h st) (stream_stats_init (st_stream_id s)) ?hs"
    unfolding st using stats_of_ingest[of "zip ?hs ps" "st_stream_id s" "rt_state rt"] assms(9) ps(1)
    by (auto simp: stats_of_def dget_def)
  ultimately show ?thesis
    using steady_from_start[OF steady_nth_header[OF assms(4), of "sv_config sv"], of "st_stream_id s" "length ds"] af assms(2) run
    by (auto simp: ps(2) sched Let_def after_packets_def streaming_def)
qed

theorem iq_reaches_status_witness:
  "let sv = live_server\<lparr>sv_config := fake_config_default\<lparr>cfg_drop_every := 0\<rparr>\<rparr>;
       sv' = foldl (server_step flat_libm (\<lambda>d. None)) sv (map IqTick (replicate 3 (\<lambda>i n. FFin 0)))
   in \<exists>rt'. foldl (run_step (Some toy_numpy)) (Some serving_runtime)
         (scheduled (thread_iq (\<lambda>_. Inr []) serving_runtime) (thread_error (FFin 0) serving_runtime)
           (receive_loop handle_iq_datagram (map snd (drop (length (sv_wire sv)) (sv_wire sv'))))) = Some rt'
       \<and> ss_packets (stats_of (rt_state rt') 0) = 3 \<and> ss_lost_packets (stats_of (rt_state rt') 0) = 0"
proof -
  have s: "st_seq live_stream = 0" "st_stream_id live_stream = 0" by (simp_all add: live_stream_def stream_state_init_def)
  have rt: "rt_loop serving_runtime" "map_of (as_streams (rt_state serving_runtime)) (st_stream_id live_stream) = None"
    by (simp_all add: serving_runtime_def demo_runtime_def runtime_init_def)
  show ?thesis
    using iq_reaches_status[OF flat_libm_ok live_streaming[of 0] zero_draws[of 0 3] s(1) _ refl serving_runtime_inv rt,
        of "Some toy_numpy" "\<lambda>_. Inr []" "FFin 0"]
    by (auto simp: Let_def s(2))
qed

end
