(* ===== verification/Client_Server.thy ===== *)
theory Client_Server
  imports Device_Client Server_Control
begin

text \<open>
  The client of the backend on the control connection of the device: what \<open>request\<close> returns when
  the device's handler answers the line it sent. Requests and answers are values Python can have,
  and so survive the JSON text.
\<close>

section \<open>Answers of the device as JSON\<close>

definition json_dict :: "pydict \<Rightarrow> bool" where
  "json_dict d \<longleftrightarrow> dict_ok d \<and> list_all (\<lambda>(k, v). json_value v) d"

lemma json_value_dict [simp]: "json_value (PDict d) \<longleftrightarrow> json_dict d"
  by (simp add: json_dict_def)

declare json_value.simps(3) [simp del]

lemma json_dict_simps [simp]: "json_dict []" "json_dict ((k, v) # d) \<longleftrightarrow> json_value v \<and> k \<notin> fst ` set d \<and> json_dict d"
  by (auto simp: json_dict_def dict_ok_def)

lemma plain_dupdate: "json_dict d \<Longrightarrow> json_dict e \<Longrightarrow> json_dict (dupdate d e)"
  by (auto simp: json_dict_def intro: dict_ok_dupdate list_all_dupdate)

lemma plain_response [simp]: "json_value i \<Longrightarrow> json_dict fs \<Longrightarrow> json_dict (build_response i ok fs)"
  by (auto simp: build_response_def Let_def intro!: plain_dupdate)

lemma plain_error [simp]: "json_value i \<Longrightarrow> json_dict (build_error i code msg [])"
  by (auto simp: build_error_eq)

lemma plain_dget: "json_dict d \<Longrightarrow> json_value v \<Longrightarrow> json_value (dget d k v)"
  by (auto simp: dget_def json_dict_def list_all_iff split: option.splits dest!: map_of_SomeD)

lemma plain_dicts [simp]:
  "json_dict (psd_config_dict p)" "json_dict (frontend_dict f)" "json_dict (applied_rx s d)" "json_dict hello_device" "json_dict hello_limits"
  by (simp_all add: psd_config_dict_def frontend_dict_def applied_rx_def hello_device_def hello_limits_def)

lemma plain_hello: "json_value i \<Longrightarrow> cmd_hello i rq ip sv = (sv', Inr resp) \<Longrightarrow> json_dict resp"
  by (auto simp: cmd_hello_def Let_def assign_Inr split: if_splits pyval.splits)

lemma plain_set_frontend: "json_value i \<Longrightarrow> cmd_set_frontend i rq sv = (sv', Inr resp) \<Longrightarrow> json_dict resp"
  by (auto simp: cmd_set_frontend_def set_attenuator_def set_lna_def Let_def
      split: if_splits option.splits sum.splits)

lemma plain_set_rx: "json_value i \<Longrightarrow> cmd_set_rx i rq sv = (sv', Inr resp) \<Longrightarrow> json_dict resp"
  by (auto simp: cmd_set_rx_def Let_def rbind_eq_Inr split: if_splits option.splits sum.splits prod.splits)

lemma plain_set_psd: "json_value i \<Longrightarrow> cmd_set_psd i rq sv = (sv', Inr resp) \<Longrightarrow> json_dict resp"
  by (auto simp: cmd_set_psd_def Let_def split: if_splits sum.splits)

lemma plain_stream_status: "json_dict (stream_status s)"
  by (simp add: stream_status_def)

lemma json_value_list: "json_value (PList vs) \<longleftrightarrow> list_all json_value vs"
  by simp

lemma plain_status: "status_object t sv = (sv', status) \<Longrightarrow> json_dict status"
  using json_value_double[of "- 145 / 10"] json_value_double[of "- 312 / 10"]
  by (auto simp: status_object_def Let_def lit_def plain_stream_status list_all_iff simp del: json_value.simps(1))

lemmas plain_commands = plain_hello plain_set_frontend plain_set_rx plain_set_psd

lemma plain_run_command:
  assumes "json_value i" and "json_dict rq" and "run_command i cmd rq ip t sv = (sv', Inr resp)"
  shows "json_dict resp"
  using assms by (auto simp: run_command_def plain_dget dest: plain_commands plain_status split: if_splits prod.splits)

lemma is_int_plain: "is_int_instance v \<Longrightarrow> json_value v"
  by (cases v) auto

lemma plain_dispatch:
  assumes "decode_json_line line = Inr rq" and "json_dict rq" and "dget rq ''cmd'' PNone = PStr cmd"
    and "dispatch line ip t sv = (sv', Inr resp)"
  shows "json_dict resp"
proof (cases "is_int_instance (dget rq ''request_id'' PNone)")
  case True
  with assms show ?thesis
    by (auto simp: dispatch_def Let_def catch_field_errors_def is_int_plain dest: plain_run_command[rotated 2]
        split: prod.splits sum.splits if_splits)
next
  case False
  with assms show ?thesis by (auto simp: dispatch_def)
qed

section \<open>One request\<close>

lemma build_request_lookup:
  assumes "{''cmd'', ''request_id''} \<inter> set (map fst kw) = {}"
  shows "dget (build_request i cmd kw) ''request_id'' PNone = PInt i"
    and "dget (build_request i cmd kw) ''cmd'' PNone = PStr cmd"
proof -
  have "map_of (rev kw) ''request_id'' = None" "map_of (rev kw) ''cmd'' = None"
    using assms by (auto simp: map_of_eq_None_iff)
  then show "dget (build_request i cmd kw) ''request_id'' PNone = PInt i"
    and "dget (build_request i cmd kw) ''cmd'' PNone = PStr cmd"
    by (simp_all add: build_request_def dget_def map_of_dupdate map_add_def)
qed

lemma plain_request: "json_dict kw \<Longrightarrow> json_dict (build_request i cmd kw)"
  unfolding build_request_def by (rule plain_dupdate) simp_all

lemma accept_reply:
  assumes "encode_json_line resp = Inr reply" and "json_dict resp" and "reply_for (PInt i) resp"
  shows "map_of resp ''ok'' = Some (PBool True) \<and> accept_response i reply = Inr resp \<or>
    (\<exists>code msg. code \<in> set ERROR_CODES \<and> map_of resp ''ok'' = Some (PBool False)
       \<and> map_of resp ''error'' = Some (PDict [(''code'', PStr code), (''message'', PStr msg)])
       \<and> accept_response i reply = Inl (Exn DeviceClientError (code @ '': '' @ msg)))"
proof -
  have "decode_json_line reply = Inr resp" using decode_encode[OF assms(1)] assms(2) by simp
  moreover have "reply \<noteq> []" using encode_a_line[OF assms(1)] by (auto simp: a_line_def)
  ultimately show ?thesis using assms(3)
    by (auto simp: accept_response_def reply_for_def dget_def Let_def)
qed

text \<open>
  C8 (client and device agree). When the client's connection is in step and the device answers the
  line it sent, then for every command the client recognises the answer as its own: \<open>request\<close> returns exactly the dictionary the device built when it reports
  success, and otherwise raises a \<open>DeviceClientError\<close> with the device's error code, one of the
  protocol's, and its message. The connection is in step again afterwards.
\<close>

theorem client_server_request:
  assumes "dc_link c = Some l" and "lk_buffer l = []" and "i = dc_request_id c + 1"
    and "sendable_request i cmd kw" and "json_value (PDict kw)"
    and "encode_json_line (build_request i cmd kw) = Inr line"
    and "dispatch line ip t sv = (sv', Inr resp)" and "encode_json_line resp = Inr reply"
    and "io = \<lparr>io_drain = None, io_failed = None, io_arrived = reply, io_eof = eof\<rparr>"
  shows "\<exists>c' l' r. request io cmd kw c = (c', r) \<and> dc_link c' = Some l' \<and> lk_buffer l' = [] \<and> dc_request_id c' = i
    \<and> (map_of resp ''ok'' = Some (PBool True) \<and> r = Inr resp \<or>
       (\<exists>code msg. code \<in> set ERROR_CODES \<and> map_of resp ''ok'' = Some (PBool False)
          \<and> map_of resp ''error'' = Some (PDict [(''code'', PStr code), (''message'', PStr msg)])
          \<and> r = Inl (Exn DeviceClientError (code @ '': '' @ msg))))"
proof -
  have keys: "{''cmd'', ''request_id''} \<inter> set (map fst kw) = {}"
    using assms(4) by (auto simp: sendable_request_def)
  let ?rq = "build_request i cmd kw"
  have plain: "json_dict ?rq" using assms(5) by (simp add: plain_request)
  then have dec: "decode_json_line line = Inr ?rq" using decode_encode[OF assms(6)] by simp
  have asked: "asked_id line = PInt i" by (simp add: asked_id_def dec build_request_lookup[OF keys] Let_def)
  have reply: "reply_for (PInt i) resp"
    using dispatch_reply[OF assms(7)] by (simp add: asked)
  have "json_dict resp"
    by (rule plain_dispatch[OF dec plain build_request_lookup(2)[OF keys] assms(7)])
  note acc = accept_reply[OF assms(8) this reply]
  have "await_line io (lk_buffer l) = ([], Inr reply)"
    using readline_a_line[OF encode_a_line[OF assms(8)], of "[]"] by (simp add: await_line_def assms(2,9))
  from request_sent[OF assms(4)[unfolded assms(3)] assms(1) _ this] assms(9) obtain l' where "lk_buffer l' = []"
    "request io cmd kw c = (c\<lparr>dc_request_id := i, dc_link := Some l'\<rparr>, accept_response i reply)"
    using assms(3) by auto
  with acc show ?thesis by auto
qed

theorem client_server_request_witness:
  "\<exists>line sv' resp reply io c'.
     encode_json_line (build_request 1 ''set_frontend'' [(''attenuator_db'', PInt 20)]) = Inr line
   \<and> dispatch line ''10.0.0.9'' 5 (server_init fake_config_default) = (sv', Inr resp)
   \<and> encode_json_line resp = Inr reply \<and> fe_attenuator_db (sv_frontend sv') = 20
   \<and> request io ''set_frontend'' [(''attenuator_db'', PInt 20)] demo_client = (c', Inr resp)"
proof -
  let ?kw = "[(''attenuator_db'', PInt 20)]"
  let ?rq = "build_request 1 ''set_frontend'' ?kw"
  let ?sv = "server_init fake_config_default"
  define fe where "fe = (sv_frontend ?sv)\<lparr>fe_attenuator_db := 20\<rparr>"
  let ?resp = "build_response (PInt 1) True [(''applied'', PDict (frontend_dict fe))]"
  have kw: "{''self'', ''cmd'', ''request_id''} \<inter> set (map fst ?kw) = {}" by simp
  have send: "sendable_request 1 ''set_frontend'' ?kw" using kw by (rule sendable_requestI) (simp_all add: less_char_def)
  then obtain line where line: "encode_json_line ?rq = Inr line" by (auto simp: sendable_request_def)
  have rq: "?rq = [(''request_id'', PInt 1), (''cmd'', PStr ''set_frontend''), (''attenuator_db'', PInt 20)]"
    by (simp add: build_request_def dupdate_def)
  have "decode_json_line line = Inr ?rq" by (rule decode_encode[OF line]) (simp add: rq)
  then have disp: "dispatch line ''10.0.0.9'' 5 ?sv = (?sv\<lparr>sv_frontend := fe\<rparr>, Inr ?resp)"
    by (simp add: dispatch_def rq dget_def run_command_def cmd_set_frontend_def set_attenuator_def set_lna_def
        set_filter_def catch_field_errors_def Let_def fe_def)
  have ok: "?resp = [(''request_id'', PInt 1), (''ok'', PBool True), (''applied'', PDict (frontend_dict fe))]"
    by (subst build_response_eq) (simp_all add: dict_ok_def)
  have "encodable (PDict ?resp)"
    unfolding ok by (simp add: frontend_dict_def fe_def server_init_def less_char_def)
  then obtain reply where reply: "encode_json_line ?resp = Inr reply" using encode_encodable by blast
  have c: "dc_link demo_client = Some fresh_link" "lk_buffer fresh_link = []" "1 = dc_request_id demo_client + 1"
    by (simp_all add: demo_client_def client_init_def fresh_link_def)
  have p: "json_value (PDict ?kw)" by simp
  from client_server_request[OF c send p line disp reply refl, where eof = False] obtain io c' where
    "request io ''set_frontend'' ?kw demo_client = (c', Inr ?resp)" by (auto simp: ok)
  then show ?thesis using line disp reply by (intro exI conjI) (assumption | simp add: fe_def)+
qed

end
