(* ===== verification/Control_Path.thy ===== *)
theory Control_Path
  imports Client_Server Web_App
begin

text \<open>
  The control path from the backend to the device and back: the methods of the runtime, through the
  client, as JSON on the control connection, to the handler of the device, whose answer the client
  reads. \<open>exchange\<close> runs the device on the line the client writes and gives the client what the
  device wrote on the connection; everything else is the code of the two programs.

  Shown here: after an accepted request the state the backend shows and its demodulator agree with
  the settings of the device, after a refused one the backend shows what it showed before, even if
  the device has carried out a part of it.
\<close>

section \<open>One exchange\<close>

text \<open>The line a request writes to the connection, if it gets that far.\<close>

definition sent_line :: "string \<Rightarrow> pydict \<Rightarrow> DeviceClient \<Rightarrow> bytes option" where
  "sent_line cmd kw c =
     (if dc_link c = None \<or> {''self'', ''cmd'', ''request_id''} \<inter> set (map fst kw) \<noteq> {} then None
      else case encode_json_line (build_request (dc_request_id c + 1) cmd kw) of Inl e \<Rightarrow> None | Inr line \<Rightarrow> Some line)"

text \<open>What the device wrote on connection \<open>k\<close> between two of its states.\<close>

definition written :: "conn \<Rightarrow> FakeServer \<Rightarrow> FakeServer \<Rightarrow> bytes" where
  "written k sv sv' = concat (map snd (filter (\<lambda>r. fst r = k) (drop (length (sv_replies sv)) (sv_replies sv'))))"

definition exchange :: "conn \<Rightarrow> int \<Rightarrow> string \<Rightarrow> pydict \<Rightarrow> DeviceClient \<Rightarrow> FakeServer \<Rightarrow> FakeServer \<times> io" where
  "exchange k t cmd kw c sv =
     (let sv' = (case sent_line cmd kw c of None \<Rightarrow> sv | Some line \<Rightarrow> handle_line k line t sv)
      in (sv', \<lparr>io_drain = None, io_failed = None, io_arrived = written k sv sv',
                io_eof = (map_of (sv_handlers sv') k = None)\<rparr>))"

text \<open>No answer to an earlier request is left in the buffer.\<close>

definition in_step :: "DeviceClient \<Rightarrow> bool" where
  "in_step c \<longleftrightarrow> (\<forall>l. dc_link c = Some l \<longrightarrow> lk_buffer l = [])"

lemma dispatch_replies: "dispatch line ip t sv = (sv', r) \<Longrightarrow> sv_replies sv' = sv_replies sv"
  using replies_dispatch[of line ip t sv] by simp

lemma leave_client_replies [simp]: "sv_replies (leave_client c sv) = sv_replies sv"
  by (simp add: leave_client_def stop_all_def Let_def)

text \<open>The two outcomes of a line: an answer is written, or nothing is.\<close>

lemma handle_line_cases:
  obtains (silent) "written k sv (handle_line k line t sv) = []"
  | (answer) ip sv1 resp reply where "dispatch line ip t sv = (sv1, Inr resp)" "encode_json_line resp = Inr reply"
      "handle_line k line t sv = write_reply k reply sv1" "written k sv (handle_line k line t sv) = reply"
proof (cases "map_of (sv_handlers sv) k")
  case None
  then show ?thesis using silent by (simp add: handle_line_def written_def)
next
  case (Some ip)
  obtain sv1 r where d: "dispatch line ip t sv = (sv1, r)" by fastforce
  note same = dispatch_replies[OF d]
  show ?thesis
  proof (cases "\<exists>resp reply. r = Inr resp \<and> encode_json_line resp = Inr reply \<and> k \<notin> set (sv_closing sv1)")
    case True
    then obtain resp reply where r: "r = Inr resp" "encode_json_line resp = Inr reply" "k \<notin> set (sv_closing sv1)" by blast
    then have "handle_line k line t sv = write_reply k reply sv1" by (simp add: handle_line_def Some d)
    moreover have "written k sv (write_reply k reply sv1) = reply" by (simp add: written_def write_reply_def same)
    ultimately show ?thesis using answer d r by simp
  next
    case False
    then have "handle_line k line t sv = leave_client k sv1"
      by (auto simp: handle_line_def Some d split: sum.splits)
    then show ?thesis using silent by (simp add: written_def same)
  qed
qed

lemma request_unsent:
  assumes "sent_line cmd kw c = None"
  shows "\<exists>e. snd (request io cmd kw c) = Inl e \<and> dc_link (fst (request io cmd kw c)) = dc_link c"
proof (cases "dc_link c = None \<or> (\<exists>e. call_kwargs ''DeviceClient.request'' [''self'', ''cmd''] kw = Inl e)
    \<or> (\<exists>e. call_kwargs ''build_request'' [''request_id'', ''cmd''] kw = Inl e)")
  case True
  then show ?thesis by (auto simp: request_def Let_def split: sum.splits option.splits)
next
  case False
  have none: "set ps \<inter> set (map fst kw) = {}" if "\<nexists>e. call_kwargs fn ps kw = Inl e" for fn ps
    using that by (auto simp: call_kwargs_def filter_empty_conv split: list.splits)
  have "{''self'', ''cmd'', ''request_id''} \<inter> set (map fst kw) = {}"
    using none[of _ "[''self'', ''cmd'']"] none[of _ "[''request_id'', ''cmd'']"] False by fastforce
  then obtain e where "encode_json_line (build_request (dc_request_id c + 1) cmd kw) = Inl e"
    using assms False by (auto simp: sent_line_def split: if_splits sum.splits)
  then show ?thesis using False by (auto simp: request_def Let_def rbind_eq_Inr split: sum.splits option.splits)
qed

lemma sent_line_sendable:
  assumes "sent_line cmd kw c = Some line"
  shows "sendable_request (dc_request_id c + 1) cmd kw" "encode_json_line (build_request (dc_request_id c + 1) cmd kw) = Inr line"
    "\<exists>l. dc_link c = Some l"
  using assms by (auto simp: sent_line_def sendable_request_def split: if_splits sum.splits)

text \<open>
  A request in step stays in step, and what it returns is the answer the command of the
  device computed, with the settings the command left.
\<close>

lemma exchange_request:
  assumes "in_step c" and "json_dict kw"
    and "exchange k t cmd kw c sv = (sv', io)" and "request io cmd kw c = (c', r)"
  shows "in_step c' \<and> (\<forall>resp. r = Inr resp \<longrightarrow> (\<exists>ip sv1 reply. map_of resp ''ok'' = Some (PBool True) \<and> sv' = write_reply k reply sv1
    \<and> run_command (PInt (dc_request_id c + 1)) cmd (build_request (dc_request_id c + 1) cmd kw) ip t sv = (sv1, Inr resp)))"
proof (cases "sent_line cmd kw c")
  case None
  from request_unsent[OF this, of io] show ?thesis using assms(1,4) by (auto simp: in_step_def)
next
  case (Some line)
  let ?i = "dc_request_id c + 1"
  let ?rq = "build_request ?i cmd kw"
  note send = sent_line_sendable[OF Some]
  obtain l where l: "dc_link c = Some l" "lk_buffer l = []" using send(3) assms(1) by (auto simp: in_step_def)
  have io: "io = \<lparr>io_drain = None, io_failed = None, io_arrived = written k sv sv', io_eof = (map_of (sv_handlers sv') k = None)\<rparr>"
    and sv': "sv' = handle_line k line t sv" using assms(3) by (auto simp: exchange_def Some Let_def)
  show ?thesis
  proof (cases rule: handle_line_cases[of k sv line t])
    case silent
    then have "\<exists>e. await_line io [] = ([], Inr []) \<or> await_line io [] = ([], Inl e)" by (auto simp: await_line_def io sv')
    then obtain x where x: "await_line io (lk_buffer l) = ([], x)" "x = Inr [] \<or> (\<exists>e. x = Inl e)" using l(2) by auto
    from request_sent[OF send(1) l(1) _ x(1)] obtain l' where "lk_buffer l' = []"
      "request io cmd kw c = (c\<lparr>dc_request_id := ?i, dc_link := Some l'\<rparr>, rbind x (accept_response ?i))" by (auto simp: io)
    then show ?thesis using x(2) assms(4) by (auto simp: in_step_def accept_response_def)
  next
    case (answer ip sv1 resp reply)
    have keys: "{''cmd'', ''request_id''} \<inter> set (map fst kw) = {}" using send(1) by (auto simp: sendable_request_def)
    have plain: "json_dict ?rq" using assms(2) by (simp add: plain_request)
    then have dec: "decode_json_line line = Inr ?rq" using decode_encode[OF send(2)] by simp
    have asked: "asked_id line = PInt ?i" by (simp add: asked_id_def dec build_request_lookup[OF keys] Let_def)
    have rf: "reply_for (PInt ?i) resp" using dispatch_reply[OF answer(1)] by (simp add: asked)
    have "json_dict resp" by (rule plain_dispatch[OF dec plain build_request_lookup(2)[OF keys] answer(1)])
    note acc = accept_reply[OF answer(2) this rf]
    have "await_line io (lk_buffer l) = ([], Inr reply)"
      using readline_a_line[OF encode_a_line[OF answer(2)], of "[]"] by (simp add: await_line_def l io sv' answer(4))
    from request_sent[OF send(1) l(1) _ this] obtain l' where l': "lk_buffer l' = []"
      "request io cmd kw c = (c\<lparr>dc_request_id := ?i, dc_link := Some l'\<rparr>, accept_response ?i reply)" by (auto simp: io)
    have d: "dispatch line ip t sv = catch_field_errors (PInt ?i) (run_command (PInt ?i) cmd ?rq ip t sv)"
      by (simp add: dispatch_def dec build_request_lookup[OF keys] Let_def)
    have "run_command (PInt ?i) cmd ?rq ip t sv = (sv1, Inr resp)" if "map_of resp ''ok'' = Some (PBool True)"
      using answer(1) that unfolding d
      by (auto simp: catch_field_errors_def build_error_eq split: prod.splits sum.splits if_splits)
    moreover have "in_step c'" "\<forall>resp'. r = Inr resp' \<longrightarrow> resp' = resp \<and> map_of resp ''ok'' = Some (PBool True)"
      using l' acc assms(4) by (auto simp: in_step_def)
    ultimately show ?thesis using answer(3) sv' by blast
  qed
qed

section \<open>Control operations on the two programs\<close>

text \<open>
  What the web side can ask of the runtime, and the heartbeat. \<open>op_request\<close> is the request the
  operation makes of the device, if it makes one.
\<close>

datatype control_op = OpFrontend pydict | OpRx pydict | OpPsd "pydict option" | OpStop | OpPing

fun op_request :: "control_op \<Rightarrow> ('c, 'f) BackendRuntime \<Rightarrow> (string \<times> pydict) option" where
  "op_request (OpFrontend kw) rt = Some (''set_frontend'', kw)"
| "op_request (OpRx kw) rt = Some (''set_rx'', kw)"
| "op_request (OpPsd kw) rt =
     (if py_bool (dget (psd_request kw rt) ''enable'' (PBool True)) \<and> \<not> psd_configured rt then None
      else Some (''set_psd'', psd_request kw rt))"
| "op_request OpStop rt = Some (''stop_all'', [])"
| "op_request OpPing rt =
     (if dc_heartbeat (rt_device rt) \<and> connected (rt_device rt) then Some (''ping'', [(''client_time_ms'', PInt 0)]) else None)"

fun run_op :: "control_op \<Rightarrow> io \<Rightarrow> pyfloat \<Rightarrow> ('c, 'f) BackendRuntime \<Rightarrow> ('c, 'f) BackendRuntime \<times> pydict result" where
  "run_op (OpFrontend kw) io now rt = runtime_set_frontend io now kw rt"
| "run_op (OpRx kw) io now rt = runtime_set_rx io now kw rt"
| "run_op (OpPsd kw) io now rt = runtime_set_psd io now kw rt"
| "run_op OpStop io now rt = runtime_stop_all io now rt"
| "run_op OpPing io now rt = (put_client (heartbeat_tick io (rt_device rt)) rt, Inr [])"

definition silent_io :: io where
  "silent_io = \<lparr>io_drain = None, io_failed = None, io_arrived = [], io_eof = False\<rparr>"

definition control_step ::
    "conn \<Rightarrow> int \<Rightarrow> pyfloat \<Rightarrow> control_op \<Rightarrow> ('c, 'f) BackendRuntime \<Rightarrow> FakeServer \<Rightarrow>
     ('c, 'f) BackendRuntime \<times> FakeServer \<times> pydict result" where
  "control_step k t now op rt sv =
     (let (sv', io) = (case op_request op rt of None \<Rightarrow> (sv, silent_io)
                       | Some (cmd, kw) \<Rightarrow> exchange k t cmd kw (rt_device rt) sv);
          (rt', r) = run_op op io now rt
      in (rt', sv', r))"

section \<open>Answers of the commands\<close>

text \<open>The answers are about the settings of the device, which writing a line keeps.\<close>

lemma settings_write_reply [simp]:
  "sv_frontend (write_reply k l sv) = sv_frontend sv" "sv_streams (write_reply k l sv) = sv_streams sv"
  "sv_psd_config (write_reply k l sv) = sv_psd_config sv" "quiet (write_reply k l sv) = quiet sv"
  by (simp_all add: write_reply_def quiet_def)

lemma build_response_applied:
  "map_of (build_response (PInt i) True [(''applied'', v)]) ''applied'' = Some v"
  by (subst build_response_eq) (simp_all add: dict_ok_def)

lemma error_not_ok: "map_of (build_error (PInt i) code msg []) ''ok'' = Some (PBool False)"
  by (simp add: build_error_eq)

lemma set_frontend_answer:
  assumes "cmd_set_frontend (PInt i) rq sv = (sv', Inr resp)" and "map_of resp ''ok'' = Some (PBool True)"
  shows "map_of resp ''applied'' = Some (PDict (frontend_dict (sv_frontend sv')))"
  using assms by (auto simp: cmd_set_frontend_def set_attenuator_def set_lna_def Let_def error_not_ok build_response_applied
      split: if_splits option.splits sum.splits)

text \<open>How the answer to \<open>set_rx\<close> describes the stream it is about.\<close>

definition rx_answer :: "int \<Rightarrow> StreamState \<Rightarrow> pydict \<Rightarrow> bool" where
  "rx_answer i s applied \<longleftrightarrow>
     (if st_enabled s then \<exists>d. decimation s = Inr d \<and> applied = applied_rx s d
      else applied = [(''stream_id'', PInt i), (''enable'', PBool False)])"

lemma set_rx_answer:
  assumes "cmd_set_rx (PInt i) rq sv = (sv', Inr resp)" and "map_of resp ''ok'' = Some (PBool True)"
  shows "\<exists>n s applied. map_of resp ''applied'' = Some (PDict applied) \<and> map_of (sv_streams sv') n = Some s \<and> rx_answer n s applied
    \<and> py_int (dget rq ''stream_id'' (PInt 0)) = Inr n"
proof -
  obtain n s where n: "py_int (dget rq ''stream_id'' (PInt 0)) = Inr n" and s: "map_of (sv_streams sv) n = Some s"
    using assms by (auto simp: cmd_set_rx_def error_not_ok split: sum.splits option.splits)
  show ?thesis
  proof (cases "py_bool (dget rq ''enable'' (PBool (st_enabled s)))")
    case False
    have "rx_answer n (s\<lparr>st_enabled := False\<rparr>) [(''stream_id'', PInt n), (''enable'', PBool False)]"
      by (simp add: rx_answer_def)
    then show ?thesis using assms(1) n s False
      by (auto simp: cmd_set_rx_def build_response_applied put_stream_def intro!: exI[of _ n])
  next
    case True
    obtain s1 r where c: "configure_stream rq s = (s1, r)" by fastforce
    let ?s2 = "reset_for_enable (s1\<lparr>st_enabled := True\<rparr>)"
    have "decimation ?s2 = Inr d \<Longrightarrow> rx_answer n ?s2 (applied_rx ?s2 d)" for d
      by (simp add: rx_answer_def reset_for_enable_def)
    then show ?thesis using assms n s c True
      by (auto simp: cmd_set_rx_def Let_def rbind_eq_Inr build_response_applied error_not_ok put_stream_def
          split: if_splits sum.splits intro!: exI[of _ n])
  qed
qed

lemma set_psd_answer:
  assumes "cmd_set_psd (PInt i) rq sv = (sv', Inr resp)" and "map_of resp ''ok'' = Some (PBool True)"
  shows "map_of resp ''applied'' = Some (PDict (psd_config_dict (sv_psd_config sv')))"
  using assms by (auto simp: cmd_set_psd_def Let_def error_not_ok build_response_applied split: if_splits sum.splits)

section \<open>What the backend shows\<close>

text \<open>The view of the backend after an accepted operation: what the device is set to.\<close>

fun mirrored :: "control_op \<Rightarrow> ('c, 'f) BackendRuntime \<Rightarrow> FakeServer \<Rightarrow> bool" where
  "mirrored (OpFrontend kw) rt sv \<longleftrightarrow> as_frontend (rt_state rt) = PDict (frontend_dict (sv_frontend sv))"
| "mirrored (OpRx kw) rt sv \<longleftrightarrow>
     (\<exists>i s applied. py_int (dget kw ''stream_id'' (PInt 0)) = Inr i \<and> map_of (sv_streams sv) i = Some s \<and> as_rx (rt_state rt) = PDict applied \<and> rx_answer i s applied
        \<and> (st_enabled s \<longrightarrow> dm_mode (rt_demod rt) = py_upper (st_mode s) \<and> dm_input_rate (rt_demod rt) = st_iq_sample_rate_hz s))"
| "mirrored (OpPsd kw) rt sv \<longleftrightarrow> map_of (psd_config_dict (sv_psd_config sv)) \<subseteq>\<^sub>m map_of (as_psd (rt_state rt))"
| "mirrored OpStop rt sv \<longleftrightarrow> quiet sv \<and> dget (as_psd (rt_state rt)) ''enabled'' PNone = PBool False
     \<and> (\<exists>rx. as_rx (rt_state rt) = PDict rx \<and> dget rx ''enable'' PNone = PBool False)"
| "mirrored OpPing rt sv \<longleftrightarrow> True"

fun json_op :: "control_op \<Rightarrow> bool" where
  "json_op (OpFrontend kw) = json_dict kw"
| "json_op (OpRx kw) = json_dict kw"
| "json_op (OpPsd kw) = (case kw of None \<Rightarrow> True | Some d \<Rightarrow> json_dict d)"
| "json_op _ = True"

definition linked :: "('c, 'f) BackendRuntime \<Rightarrow> bool" where
  "linked rt \<longleftrightarrow> rt_inv rt \<and> in_step (rt_device rt) \<and> json_dict (ac_psd (rt_config rt))"

lemma plain_filter: "json_dict d \<Longrightarrow> json_dict (filter P d)"
  by (induction d) (auto simp: json_dict_def dict_ok_def)

lemma plain_psd_request: "linked rt \<Longrightarrow> json_op (OpPsd kw) \<Longrightarrow> json_dict (psd_request kw rt)"
  by (auto simp: psd_request_def linked_def plain_dupdate plain_filter split: option.splits)

lemma publish_status_state: "rt_state (fst (publish_status now rt)) = rt_state rt"
  by (simp add: publish_status_def split: prod.splits)

lemma linked_publish:
  assumes "linked rt"
  shows "linked (fst (publish_status now rt))" "rt_state (fst (publish_status now rt)) = rt_state rt"
    "rt_demod (fst (publish_status now rt)) = rt_demod rt"
  using assms publish_status_ok[of rt now]
  by (auto simp: linked_def) (auto simp: publish_status_def split: prod.splits)

lemma linked_simps [simp]:
  "linked (map_state f rt) = linked rt"
  "linked rt \<Longrightarrow> linked (rt\<lparr>rt_demod := configure mode rate (rt_demod rt)\<rparr>)"
  "linked rt \<Longrightarrow> linked (rt\<lparr>rt_psd_reassembler := reset ra\<rparr>)"
  by (simp_all add: linked_def) (simp_all add: map_state_def rt_inv_def demod_ok_configure)

lemma client_stop_all_call: "client_stop_all io = client_call ''stop_all'' io []"
  by (rule ext) (simp add: client_stop_all_def client_call_def call_kwargs_def)

text \<open>A call of the client from the runtime, on the device.\<close>

lemma exchange_call:
  assumes "linked rt" and "json_dict kw"
    and "exchange k t cmd kw (rt_device rt) sv = (sv', io)" and "call_device (client_call cmd io kw) rt = (rt1, r)"
  shows "linked rt1 \<and> rt_state rt1 = rt_state rt \<and> rt_demod rt1 = rt_demod rt
    \<and> (\<forall>resp. r = Inr resp \<longrightarrow> map_of resp ''ok'' = Some (PBool True)
        \<and> (\<exists>i rq ip sv1 reply. sv' = write_reply k reply sv1 \<and> run_command (PInt i) cmd rq ip t sv = (sv1, Inr resp)
          \<and> rq = build_request i cmd kw))"
proof -
  obtain c q where q: "client_call cmd io kw (rt_device rt) = (c, q)" by fastforce
  then have rt1: "rt1 = put_client c rt" "r = q" using assms(4) by (simp_all add: call_device_def)
  have inv: "rt_inv rt1" using rt_inv_call_device[of rt "client_call cmd io kw"] assms(1,4)
    by (simp add: linked_def client_inv_call)
  have "in_step (rt_device rt)" using assms(1) by (simp add: linked_def)
  note ex = exchange_request[OF this assms(2,3)]
  show ?thesis
  proof (cases "call_kwargs (''DeviceClient.'' @ cmd) [''self''] kw")
    case (Inl e)
    then show ?thesis using q assms(1) inv by (auto simp: client_call_def rt1 put_client_def linked_def)
  next
    case (Inr u)
    then have "request io cmd kw (rt_device rt) = (c, q)" using q by (simp add: client_call_def)
    from ex[OF this] show ?thesis using inv assms(1) by (auto simp: rt1 put_client_def linked_def) blast
  qed
qed

definition outcome :: "control_op \<Rightarrow> ('c, 'f) BackendRuntime \<Rightarrow> ('c, 'f) BackendRuntime \<Rightarrow> FakeServer \<Rightarrow> 'a result \<Rightarrow> bool" where
  "outcome op rt rt' sv' r \<longleftrightarrow> linked rt' \<and>
     (case r of Inr _ \<Rightarrow> mirrored op rt' sv' | Inl e \<Rightarrow> rt_state rt' = rt_state rt \<or> mirrored op rt' sv' \<and> field_exn e)"

lemma sthen_linked: "linked rt \<Longrightarrow> sthen (publish_status now rt) h = h () (fst (publish_status now rt))"
  by (simp add: linked_def sthen_publish_status)

lemma dget_Some: "map_of d x = Some v \<Longrightarrow> dget d x w = v"
  by (simp add: dget_def)

lemma op_frontend_outcome:
  assumes "linked rt" and "json_dict kw" and "exchange k t ''set_frontend'' kw (rt_device rt) sv = (sv', io)"
    and "runtime_set_frontend io now kw rt = (rt', r)"
  shows "outcome (OpFrontend kw) rt rt' sv' r"
proof -
  obtain rt1 q where c: "call_device (client_call ''set_frontend'' io kw) rt = (rt1, q)" by fastforce
  note ex = exchange_call[OF assms(1,2,3) c]
  show ?thesis
  proof (cases q)
    case (Inl e)
    then show ?thesis using ex assms(4)
      by (auto simp: outcome_def runtime_set_frontend_def client_set_frontend_def c)
  next
    case (Inr resp)
    with ex have "map_of resp ''applied'' = Some (PDict (frontend_dict (sv_frontend sv')))"
      by (auto simp: run_command_def intro: set_frontend_answer)
    then show ?thesis using ex assms(4) Inr
      by (auto simp: outcome_def runtime_set_frontend_def client_set_frontend_def c sthen_linked linked_publish dget_Some)
        (auto simp: map_state_def)
  qed
qed

lemma op_psd_outcome:
  assumes "linked rt" and "json_dict (psd_request kw rt)" and "op_request (OpPsd kw) rt \<noteq> None"
    and "exchange k t ''set_psd'' (psd_request kw rt) (rt_device rt) sv = (sv', io)"
    and "runtime_set_psd io now kw rt = (rt', r)"
  shows "outcome (OpPsd kw) rt rt' sv' r"
proof -
  obtain rt1 q where c: "call_device (client_call ''set_psd'' io (psd_request kw rt)) rt = (rt1, q)" by fastforce
  note ex = exchange_call[OF assms(1,2,4) c]
  have go: "\<not> (py_bool (dget (psd_request kw rt) ''enable'' (PBool True)) \<and> \<not> psd_configured rt)" using assms(3) by (auto split: if_splits)
  show ?thesis
  proof (cases q)
    case (Inl e)
    then show ?thesis using ex assms(5) go
      by (auto simp: outcome_def runtime_set_psd_def client_set_psd_def c Let_def)
  next
    case (Inr resp)
    let ?d = "psd_config_dict (sv_psd_config sv')"
    have a: "map_of resp ''applied'' = Some (PDict ?d)" using ex Inr by (auto simp: run_command_def intro: set_psd_answer)
    have "dict_ok ?d" by (simp add: psd_config_dict_def dict_ok_def)
    then have view: "map_of ?d \<subseteq>\<^sub>m map_of (dupdate p ?d)" for p by (simp add: map_of_dupdate_ok)
    let ?rt2 = "map_state (\<lambda>s. s\<lparr>as_psd := dupdate (as_psd (rt_state rt1)) ?d\<rparr>) rt1"
    let ?rt3 = "if py_bool (dget ?d ''enable'' (dget ?d ''enabled'' (PBool False))) then ?rt2
      else ?rt2\<lparr>rt_psd_reassembler := reset (rt_psd_reassembler ?rt2)\<rparr>"
    have l: "linked ?rt3" using ex by simp
    have "runtime_set_psd io now kw rt = (fst (publish_status now ?rt3), Inr resp)"
      using Inr go a l by (auto simp: runtime_set_psd_def client_set_psd_def c Let_def dget_Some sthen_linked)
    moreover have "map_of ?d \<subseteq>\<^sub>m map_of (as_psd (rt_state ?rt3))" using view by (simp add: map_state_def)
    ultimately show ?thesis using assms(5) linked_publish[OF l, of now] by (auto simp: outcome_def)
  qed
qed

lemma op_stop_outcome:
  assumes "linked rt" and "exchange k t ''stop_all'' [] (rt_device rt) sv = (sv', io)" and "runtime_stop_all io now rt = (rt', r)"
  shows "outcome OpStop rt rt' sv' r"
proof -
  obtain rt1 q where c: "call_device (client_call ''stop_all'' io []) rt = (rt1, q)" by fastforce
  note ex = exchange_call[OF assms(1) _ assms(2) c]
  consider (error) e where "q = Inl e" | (typed) resp rx where "q = Inr resp" "as_rx (rt_state rt) = PDict rx"
    | (untyped) resp where "q = Inr resp" "\<nexists>rx. as_rx (rt_state rt) = PDict rx" by (cases q) auto
  then show ?thesis
  proof cases
    case error
    then show ?thesis using ex assms(3) by (auto simp: outcome_def runtime_stop_all_def client_stop_all_call c)
  next
    case untyped
    then show ?thesis using ex assms(3)
      by (auto simp: outcome_def runtime_stop_all_def client_stop_all_call c split: pyval.splits)
  next
    case (typed resp rx)
    have quiet: "quiet sv'" using ex typed(1) by (auto simp: run_command_def quiet_stop_all)
    have "dget (dupdate p [(''enable'', PBool False), (''enabled'', PBool False)]) ''enabled'' PNone = PBool False"
      "dget (dset d ''enable'' (PBool False)) ''enable'' PNone = PBool False" for p d
      by (simp_all add: dget_def dupdate_def)
    with typed quiet show ?thesis using ex assms(3)
      by (auto simp: outcome_def runtime_stop_all_def client_stop_all_call c sthen_linked linked_publish)
        (auto simp: map_state_def)
  qed
qed

text \<open>The enabled stream names its mode and rate in the answer; a disabled one leaves the demodulator to the request.\<close>

lemma op_rx_outcome:
  assumes "linked rt" and "json_dict kw" and "exchange k t ''set_rx'' kw (rt_device rt) sv = (sv', io)"
    and "runtime_set_rx io now kw rt = (rt', r)"
  shows "outcome (OpRx kw) rt rt' sv' r"
proof -
  obtain rt1 q where c: "call_device (client_call ''set_rx'' io kw) rt = (rt1, q)" by fastforce
  note ex = exchange_call[OF assms(1,2,3) c]
  show ?thesis
  proof (cases q)
    case (Inl e)
    then show ?thesis using ex assms(4) by (auto simp: outcome_def runtime_set_rx_def client_set_rx_def c)
  next
    case (Inr resp)
    have "dget (build_request i ''set_rx'' kw) ''stream_id'' d = dget kw ''stream_id'' d" for i d
      using assms(2) by (simp add: build_request_def dget_def map_of_dupdate_ok json_dict_def map_add_def split: option.splits)
    with Inr ex obtain n s applied where a: "map_of resp ''applied'' = Some (PDict applied)"
      "map_of (sv_streams sv') n = Some s" "rx_answer n s applied" "py_int (dget kw ''stream_id'' (PInt 0)) = Inr n"
      by (auto simp: run_command_def dest!: set_rx_answer)
    let ?rt2 = "map_state (\<lambda>s. s\<lparr>as_rx := PDict applied\<rparr>) rt1"
    let ?mode = "dget applied ''mode'' (dget kw ''mode'' (PStr ''WFM''))"
    let ?rate = "py_int (dget applied ''iq_sample_rate_hz'' (dget kw ''iq_sample_rate_hz'' (PInt 1000000)))"
    have shown: "as_rx (rt_state ?rt2) = PDict applied" by (simp add: map_state_def)
    have eq: "runtime_set_rx io now kw rt = (case ?rate of Inl e \<Rightarrow> (?rt2, Inl e)
        | Inr rate \<Rightarrow> (fst (publish_status now (?rt2\<lparr>rt_demod := configure (py_str ?mode) rate (rt_demod ?rt2)\<rparr>)), Inr resp))"
      using ex Inr a by (auto simp: runtime_set_rx_def client_set_rx_def c Let_def dget_Some sthen_linked split: sum.splits)
    have on: "?mode = PStr (st_mode s) \<and> ?rate = Inr (st_iq_sample_rate_hz s)" if "st_enabled s"
      using a(3) that by (auto simp: rx_answer_def applied_rx_def dget_def)
    show ?thesis
    proof (cases ?rate)
      case (Inl e)
      with on have "\<not> st_enabled s" by auto
      then show ?thesis using eq Inl assms(4) ex a shown by (auto simp: outcome_def dest: py_int_field_exn)
    next
      case (Inr rate)
      let ?rt3 = "?rt2\<lparr>rt_demod := configure (py_str ?mode) rate (rt_demod ?rt2)\<rparr>"
      have l: "linked ?rt3" using ex by simp
      have "dm_mode (rt_demod ?rt3) = py_upper (py_str ?mode)" "dm_input_rate (rt_demod ?rt3) = rate"
        by (simp_all add: configure_def Let_def)
      then have "mirrored (OpRx kw) (fst (publish_status now ?rt3)) sv'"
        using a shown on Inr linked_publish[OF l, of now] unfolding mirrored.simps by (intro exI[of _ n] exI[of _ s] exI[of _ applied]) auto
      then show ?thesis using eq Inr assms(4) linked_publish(1)[OF l, of now] by (auto simp: outcome_def)
    qed
  qed
qed

lemma op_ping_outcome:
  assumes "linked rt" and "exchange k t ''ping'' [(''client_time_ms'', PInt 0)] (rt_device rt) sv = (sv', io)"
  shows "outcome OpPing rt (put_client (heartbeat_tick io (rt_device rt)) rt) sv' (Inr [])"
proof -
  obtain c r where q: "request io ''ping'' [(''client_time_ms'', PInt 0)] (rt_device rt) = (c, r)" by fastforce
  have "in_step (rt_device rt)" using assms(1) by (simp add: linked_def)
  from exchange_request[OF this _ assms(2) q] have "in_step c" by simp
  then have "in_step (heartbeat_tick io (rt_device rt))"
    using assms(1) by (auto simp: heartbeat_tick_def q in_step_def linked_def split: sum.splits)
  with assms(1) rt_inv_ping[of rt io] show ?thesis by (simp add: outcome_def linked_def) (simp add: put_client_def)
qed

lemma control_outcome:
  assumes "linked rt" and "json_op op" and "control_step k t now op rt sv = (rt', sv', r)"
  shows "if op_request op rt = None then sv' = sv \<and> linked rt' else outcome op rt rt' sv' r"
proof (cases "op_request op rt")
  case None
  then consider kw where "op = OpPsd kw" "py_bool (dget (psd_request kw rt) ''enable'' (PBool True))" "\<not> psd_configured rt"
    | "op = OpPing" "heartbeat_tick silent_io (rt_device rt) = rt_device rt"
    by (cases op) (auto simp: heartbeat_tick_def split: if_splits)
  then show ?thesis
  proof cases
    case 1
    then show ?thesis using assms None
      by (auto simp: control_step_def runtime_set_psd_def psd_unsupported_def Let_def sthen_linked linked_publish)
  next
    case 2
    then show ?thesis using assms None
      by (auto simp: control_step_def) (auto simp: put_client_def linked_def rt_inv_def)
  qed
next
  case (Some q)
  obtain cmd kw where q: "q = (cmd, kw)" by fastforce
  obtain io where ex: "exchange k t cmd kw (rt_device rt) sv = (sv', io)" and run: "run_op op io now rt = (rt', r)"
    using assms(3) Some by (auto simp: control_step_def q split: prod.splits)
  show ?thesis
  proof (cases op)
    case (OpPsd d)
    then show ?thesis using assms(1,2) Some ex run op_psd_outcome[OF assms(1) plain_psd_request, of d]
      by (auto simp: q split: if_splits)
  next
    case OpPing
    then show ?thesis using Some ex run op_ping_outcome[OF assms(1)] by (auto simp: q split: if_splits)
  qed (use assms Some ex run in \<open>auto simp: q intro: op_frontend_outcome op_rx_outcome op_stop_outcome\<close>)
qed

text \<open>
  C5 (the backend shows what the device does). The backend in step with a device and an operation
  from the web side or of the heartbeat carried out over the control connection:
  the backend stays in step. If the operation returns and made a request, the state shown to the
  browsers is what the device is now set to: the front end, the requested stream with its decimation (and the
  demodulator runs in its mode at its rate), the PSD settings, the silence after a stop. If it
  raises, the shown state is as before; only a field of a request that stops a stream can still
  raise, as a \<open>TypeError\<close>, \<open>ValueError\<close> or \<open>OverflowError\<close>, when the shown state is that of the device.
\<close>

theorem backend_mirrors_device:
  assumes "rt_inv rt" and "in_step (rt_device rt)" and "json_dict (ac_psd (rt_config rt))" and "json_op op"
    and "control_step k t now op rt sv = (rt', sv', r)"
  shows "rt_inv rt' \<and> in_step (rt_device rt') \<and>
    (case r of Inr resp \<Rightarrow> op_request op rt \<noteq> None \<longrightarrow> mirrored op rt' sv'
     | Inl e \<Rightarrow> op_request op rt \<noteq> None \<longrightarrow> rt_state rt' = rt_state rt \<or> mirrored op rt' sv' \<and> field_exn e)"
  using control_outcome[OF _ assms(4,5)] assms(1-3)
  by (auto simp: linked_def outcome_def split: if_splits sum.splits)

text \<open>The exchange of a request the device answers.\<close>

lemma exchange_answered:
  fixes c :: DeviceClient and cmd :: string and kw :: pydict
  defines "i \<equiv> dc_request_id c + 1"
  assumes "dc_link c = Some l" and "lk_buffer l = []" and "sendable_request i cmd kw" and "json_dict kw"
    and "map_of (sv_handlers sv) k = Some ip" and "k \<notin> set (sv_closing sv)"
    and "run_command (PInt i) cmd (build_request i cmd kw) ip t sv = (sv1, Inr resp)" and "encodable (PDict resp)"
  shows "\<exists>reply io c'. exchange k t cmd kw c sv = (write_reply k reply sv1, io)
    \<and> request io cmd kw c = (c', accept_response i reply) \<and> decode_json_line reply = Inr resp \<and> reply \<noteq> []"
proof -
  let ?rq = "build_request i cmd kw"
  have keys: "{''cmd'', ''request_id''} \<inter> set (map fst kw) = {}" using assms(4) by (auto simp: sendable_request_def)
  obtain line where line: "encode_json_line ?rq = Inr line" using assms(4) by (auto simp: sendable_request_def)
  obtain reply where reply: "encode_json_line resp = Inr reply" using encode_encodable[OF assms(9)] by blast
  have dec: "decode_json_line line = Inr ?rq" using decode_encode[OF line] assms(5) by (simp add: plain_request)
  have disp: "dispatch line ip t sv = (sv1, Inr resp)"
    using assms(8) by (simp add: dispatch_def dec build_request_lookup[OF keys] Let_def catch_field_errors_def)
  have "json_dict ?rq" using assms(5) by (simp add: plain_request)
  then have "json_dict resp" by (rule plain_dispatch[OF dec _ build_request_lookup(2)[OF keys] disp])
  then have decr: "decode_json_line reply = Inr resp" using decode_encode[OF reply] by simp
  have "sv_closing sv1 = sv_closing sv" using conns_dispatch[of line ip t sv] disp by (simp add: conns_def)
  then have hl: "handle_line k line t sv = write_reply k reply sv1" using assms(6,7) disp reply by (simp add: handle_line_def)
  have wr: "written k sv (write_reply k reply sv1) = reply"
    by (simp add: written_def write_reply_def dispatch_replies[OF disp])
  have "sent_line cmd kw c = Some line" using assms(2,4) line
    by (simp add: sent_line_def sendable_request_def i_def)
  then obtain io where io: "exchange k t cmd kw c sv = (write_reply k reply sv1, io)" "io_drain io = None" "io_failed io = None"
    "io_arrived io = reply" by (simp add: exchange_def hl wr Let_def)
  have "await_line io (lk_buffer l) = ([], Inr reply)"
    using readline_a_line[OF encode_a_line[OF reply], of "[]"] io by (simp add: await_line_def assms(3))
  from request_sent[OF assms(4)[unfolded i_def] assms(2) io(2) this] io(1) decr encode_a_line[OF reply] show ?thesis
    by (auto simp: i_def a_line_def)
qed

text \<open>
  C36 (a refused request is half done, and nobody sees it). A front-end request with a supported
  attenuation and an unsupported amplifier setting is refused by the device and reported to the
  browser as an error, and the state the backend shows is the old one; but the device has already
  switched the attenuator.
\<close>

theorem refused_frontend_is_half_done:
  assumes "rt_inv rt" and "json_dict (ac_psd (rt_config rt))" and "dc_link (rt_device rt) = Some l" and "lk_buffer l = []"
    and "map_of (sv_handlers sv) k = Some ip" and "k \<notin> set (sv_closing sv)"
    and "a \<in> {0, 10, 20, 30}" and "x \<notin> {''on'', ''bypass''}" and "utf8_valid x"
    and "control_step k t now (OpFrontend [(''attenuator_db'', PInt a), (''lna'', PStr x)]) rt sv = (rt', sv', r)"
  shows "r = Inl (Exn DeviceClientError ''invalid_field: lna must be on or bypass'')
    \<and> rt_state rt' = rt_state rt \<and> fe_attenuator_db (sv_frontend sv') = a"
proof -
  let ?kw = "[(''attenuator_db'', PInt a), (''lna'', PStr x)]" and ?i = "dc_request_id (rt_device rt) + 1"
  let ?resp = "build_error (PInt ?i) ''invalid_field'' ''lna must be on or bypass'' []"
  let ?sv1 = "sv\<lparr>sv_frontend := (sv_frontend sv)\<lparr>fe_attenuator_db := a\<rparr>\<rparr>"
  have kw: "{''self'', ''cmd'', ''request_id''} \<inter> set (map fst ?kw) = {}" by simp
  have send: "sendable_request ?i ''set_frontend'' ?kw"
    using kw by (rule sendable_requestI) (simp_all add: less_char_def assms(9))
  have rq: "build_request ?i ''set_frontend'' ?kw = [(''request_id'', PInt ?i), (''cmd'', PStr ''set_frontend'')] @ ?kw"
    by (simp add: build_request_def dupdate_def)
  have run: "run_command (PInt ?i) ''set_frontend'' (build_request ?i ''set_frontend'' ?kw) ip t sv = (?sv1, Inr ?resp)"
    using assms(7,8) by (auto simp: run_command_def cmd_set_frontend_def set_attenuator_def set_lna_def rq)
  have resp: "?resp = [(''request_id'', PInt ?i), (''ok'', PBool False),
      (''error'', PDict [(''code'', PStr ''invalid_field''), (''message'', PStr ''lna must be on or bypass'')])]"
    by (simp add: build_error_eq ERROR_CODES_def)
  have "encodable (PDict ?resp)" unfolding resp by (simp add: less_char_def)
  from exchange_answered[OF assms(3,4) send _ assms(5,6) run this] obtain reply io c' where
    ex: "exchange k t ''set_frontend'' ?kw (rt_device rt) sv = (write_reply k reply ?sv1, io)"
    "request io ''set_frontend'' ?kw (rt_device rt) = (c', accept_response ?i reply)"
    "decode_json_line reply = Inr ?resp" "reply \<noteq> []" by auto
  have acc: "accept_response ?i reply = Inl (Exn DeviceClientError ''invalid_field: lna must be on or bypass'')"
    using ex(3,4) unfolding resp by (simp add: accept_response_def dget_def Let_def)
  have "client_call ''set_frontend'' io ?kw (rt_device rt) = (c', Inl (Exn DeviceClientError ''invalid_field: lna must be on or bypass''))"
    using ex(2) acc by (simp add: client_call_def call_kwargs_def)
  then have "runtime_set_frontend io now ?kw rt = (put_client c' rt, Inl (Exn DeviceClientError ''invalid_field: lna must be on or bypass''))"
    by (simp add: runtime_set_frontend_def client_set_frontend_def call_device_def)
  then show ?thesis using assms(10) ex(1) by (auto simp: control_step_def put_client_def)
qed

section \<open>Examples\<close>

definition linked_runtime :: "(int \<times> int, int) BackendRuntime" where
  "linked_runtime = demo_runtime\<lparr>rt_device := demo_client\<rparr>"

lemma linked_runtime_ok:
  "rt_inv linked_runtime" "dc_link (rt_device linked_runtime) = Some fresh_link" "lk_buffer fresh_link = []"
  "json_dict (ac_psd (rt_config linked_runtime))" "in_step (rt_device linked_runtime)"
  using demo_runtime_inv
  by (simp_all add: linked_runtime_def rt_inv_def demo_client_def client_inv_def client_init_def fresh_link_def in_step_def)
    (simp_all add: demo_runtime_def runtime_init_def app_config_default_def PsdConfig_def)

lemma live_server_open: "map_of (sv_handlers live_server) 1 = Some ''10.0.0.2''" "1 \<notin> set (sv_closing live_server)"
  by (simp_all add: live_server_def server_init_def)

theorem refused_frontend_is_half_done_witness:
  "\<exists>rt' sv'. control_step 1 5 (FFin 1) (OpFrontend [(''attenuator_db'', PInt 20), (''lna'', PStr ''off'')]) linked_runtime live_server
      = (rt', sv', Inl (Exn DeviceClientError ''invalid_field: lna must be on or bypass''))
    \<and> rt_state rt' = rt_state linked_runtime \<and> fe_attenuator_db (sv_frontend sv') = 20
    \<and> fe_attenuator_db (sv_frontend live_server) \<noteq> 20"
proof -
  let ?op = "OpFrontend [(''attenuator_db'', PInt 20), (''lna'', PStr ''off'')]"
  obtain rt' sv' r where st: "control_step 1 5 (FFin 1) ?op linked_runtime live_server = (rt', sv', r)" by (rule prod_cases3)
  have "utf8_valid ''off''" by (simp add: less_char_def)
  from refused_frontend_is_half_done[OF linked_runtime_ok(1,4,2,3) live_server_open _ _ this st] st
  show ?thesis by (simp add: live_server_def server_init_def)
qed

text \<open>A request the device accepts.\<close>

lemma accepted_frontend:
  "\<exists>rt' sv' resp. control_step 1 5 (FFin 1) (OpFrontend [(''attenuator_db'', PInt 20)]) linked_runtime live_server = (rt', sv', Inr resp)
    \<and> fe_attenuator_db (sv_frontend sv') = 20"
proof -
  let ?kw = "[(''attenuator_db'', PInt 20)]" and ?c = "rt_device linked_runtime"
  let ?sv1 = "live_server\<lparr>sv_frontend := (sv_frontend live_server)\<lparr>fe_attenuator_db := 20\<rparr>\<rparr>"
  let ?resp = "build_response (PInt 1) True [(''applied'', PDict (frontend_dict (sv_frontend ?sv1)))]"
  have id: "dc_request_id ?c + 1 = 1" by (simp add: linked_runtime_def demo_client_def client_init_def)
  have kw: "{''self'', ''cmd'', ''request_id''} \<inter> set (map fst ?kw) = {}" by simp
  have send: "sendable_request (dc_request_id ?c + 1) ''set_frontend'' ?kw"
    using kw by (rule sendable_requestI) (simp_all add: less_char_def)
  have run: "run_command (PInt (dc_request_id ?c + 1)) ''set_frontend'' (build_request (dc_request_id ?c + 1) ''set_frontend'' ?kw)
      ''10.0.0.2'' 5 live_server = (?sv1, Inr ?resp)"
    by (simp add: id run_command_def cmd_set_frontend_def set_attenuator_def set_lna_def set_filter_def build_request_def dupdate_def Let_def)
  have resp: "?resp = [(''request_id'', PInt 1), (''ok'', PBool True), (''applied'', PDict (frontend_dict (sv_frontend ?sv1)))]"
    by (subst build_response_eq) (simp_all add: dict_ok_def)
  have "encodable (PDict ?resp)" unfolding resp
    by (simp add: frontend_dict_def live_server_def server_init_def less_char_def)
  from exchange_answered[OF linked_runtime_ok(2,3) send _ live_server_open run this] obtain reply io c' where
    ex: "exchange 1 5 ''set_frontend'' ?kw ?c live_server = (write_reply 1 reply ?sv1, io)"
    "request io ''set_frontend'' ?kw ?c = (c', accept_response 1 reply)"
    "decode_json_line reply = Inr ?resp" "reply \<noteq> []" unfolding id by auto
  have acc: "accept_response 1 reply = Inr ?resp" using ex(3,4) unfolding resp by (simp add: accept_response_def dget_def)
  then have call: "call_device (client_set_frontend io ?kw) linked_runtime = (put_client c' linked_runtime, Inr ?resp)"
    using ex(2) by (simp add: call_device_def client_set_frontend_def client_call_def call_kwargs_def)
  then have "rt_inv (put_client c' linked_runtime)"
    using rt_inv_call_device[OF linked_runtime_ok(1), of "client_set_frontend io ?kw"]
    by (simp add: client_set_frontend_def client_inv_call)
  then have "\<exists>rt'. runtime_set_frontend io (FFin 1) ?kw linked_runtime = (rt', Inr ?resp)"
    by (simp add: runtime_set_frontend_def call sthen_publish_status)
  then show ?thesis using ex(1) by (auto simp: control_step_def)
qed

theorem backend_mirrors_device_witness:
  "\<exists>rt' sv' resp. control_step 1 5 (FFin 1) (OpFrontend [(''attenuator_db'', PInt 20)]) linked_runtime live_server = (rt', sv', Inr resp)
    \<and> fe_attenuator_db (sv_frontend sv') = 20 \<and> as_frontend (rt_state rt') = PDict (frontend_dict (sv_frontend sv'))"
proof -
  obtain rt' sv' resp where st: "control_step 1 5 (FFin 1) (OpFrontend [(''attenuator_db'', PInt 20)]) linked_runtime live_server
      = (rt', sv', Inr resp)" and fe: "fe_attenuator_db (sv_frontend sv') = 20" using accepted_frontend by blast
  have "json_op (OpFrontend [(''attenuator_db'', PInt 20)])" by simp
  from backend_mirrors_device[OF linked_runtime_ok(1,5,4) this st] st fe show ?thesis by simp
qed

end
