(* ===== verification/Connect_Path.thy ===== *)
theory Connect_Path
  imports Control_Path
begin

text \<open>
  How the backend gets its connection: \<open>connect_device\<close> of the runtime against the head of
  \<open>_handle_client\<close> and the answer of the device to the hello, followed by the \<open>set_psd\<close> the runtime
  sends on its own. This establishes the state from which the theorems about control operations start.

  Shown here: a device without an owner accepts the backend, sends its packets to the ports the
  backend listens on, and the two are in step; a device with an owner refuses the backend, which
  reports another reason than the one the device gave.
\<close>

section \<open>Calling the device\<close>

text \<open>The client as \<open>connect\<close> sends the hello: the old connection closed, a new one open.\<close>

definition calling :: "string option \<Rightarrow> DeviceClient \<Rightarrow> DeviceClient" where
  "calling host c =
     (close (case host of Some h \<Rightarrow> if h \<noteq> [] then c\<lparr>dc_device := dset (dc_device c) ''host'' (PStr h)\<rparr> else c | None \<Rightarrow> c))
       \<lparr>dc_link := Some fresh_link\<rparr>"

text \<open>
  The device meets the new connection \<open>k\<close> from address \<open>ip\<close> and then the hello on it, if it has a
  handler for the connection.
\<close>

definition dial :: "conn \<Rightarrow> string \<Rightarrow> int \<Rightarrow> DeviceClient \<Rightarrow> FakeServer \<Rightarrow> FakeServer \<times> io" where
  "dial k ip t c sv =
     (let sv1 = accept_client k ip sv;
          sv2 = (case sent_line ''hello'' (hello_fields c) c of None \<Rightarrow> sv1 | Some line \<Rightarrow> handle_line k line t sv1)
      in (sv2, \<lparr>io_drain = None, io_failed = None, io_arrived = written k sv sv2,
                io_eof = (map_of (sv_handlers sv2) k = None)\<rparr>))"

definition connect_step ::
    "conn \<Rightarrow> string \<Rightarrow> int \<Rightarrow> string option \<Rightarrow> (nat \<Rightarrow> pyfloat) \<Rightarrow> ('c, 'f) BackendRuntime \<Rightarrow> FakeServer \<Rightarrow>
     ('c, 'f) BackendRuntime \<times> FakeServer \<times> pydict result" where
  "connect_step k ip t host now rt sv =
     (let (sv1, io) = dial k ip t (calling host (rt_device rt)) sv;
          (c, r) = connect host None io (rt_device rt);
          (sv2, psd_io) = (if psd_configured rt \<and> (\<exists>hello. r = Inr hello)
                           then exchange k t ''set_psd'' (psd_request (Some (ac_psd (rt_config rt))) rt) c sv1 else (sv1, silent_io));
          (rt', response) = connect_device \<lparr>cn_open = None, cn_io = io, cn_psd_io = psd_io, cn_now = now\<rparr> host rt
      in (rt', sv2, response))"

lemma calling_simps [simp]:
  "dc_link (calling host c) = Some fresh_link" "dc_request_id (calling host c) = dc_request_id c" "dc_udp (calling host c) = dc_udp c"
  "lk_buffer fresh_link = []"
  by (auto simp: calling_def close_def fresh_link_def split: option.splits)

lemma hello_calling: "hello_fields (calling host c) = hello_fields c"
  by (auto simp: hello_fields_def calling_def close_def dget_def map_of_dset split: option.splits)

lemma connect_calling:
  "connect host None io c =
     (case request io ''hello'' (hello_fields c) (calling host c) of
        (c3, Inl e) \<Rightarrow> connect_failed e c3 | (c3, Inr hello) \<Rightarrow> (c3\<lparr>dc_heartbeat := True\<rparr>, Inr hello))"
proof -
  have "hello_fields (close x) = hello_fields x" for x by (simp add: hello_fields_def close_def)
  moreover have "hello_fields (c\<lparr>dc_device := dset (dc_device c) ''host'' v\<rparr>) = hello_fields c" for v
    by (simp add: hello_fields_def dget_def map_of_dset)
  ultimately show ?thesis by (auto simp: connect_def Let_def calling_def split: option.splits)
qed

text \<open>The hello of a configured client.\<close>

definition hello_ok :: "DeviceClient \<Rightarrow> int \<Rightarrow> int \<Rightarrow> int \<Rightarrow> bool" where
  "hello_ok c iq psd status \<longleftrightarrow>
     (\<exists>name. dget (dc_device c) ''client_name'' PNone = PStr name \<and> utf8_valid name)
     \<and> dget (dc_udp c) ''iq_port'' PNone = PInt iq \<and> dget (dc_udp c) ''psd_port'' PNone = PInt psd
     \<and> dget (dc_udp c) ''status_port'' PNone = PInt status"

lemma hello_sendable:
  assumes "hello_ok c iq psd status"
  shows "sendable_request i ''hello'' (hello_fields c)" "json_dict (hello_fields c)"
proof -
  obtain name where n: "dget (dc_device c) ''client_name'' PNone = PStr name" "utf8_valid name" using assms by (auto simp: hello_ok_def)
  have "{''self'', ''cmd'', ''request_id''} \<inter> set (map fst (hello_fields c)) = {}" by (simp add: hello_fields_def)
  then show "sendable_request i ''hello'' (hello_fields c)" using assms n
    by (intro sendable_requestI) (simp_all add: hello_fields_def hello_ok_def less_char_def)
  show "json_dict (hello_fields c)" using assms n by (simp add: hello_fields_def hello_ok_def)
qed

definition hello_answer :: "int \<Rightarrow> pydict" where
  "hello_answer i = build_response (PInt i) True
     [(''protocol_version'', PInt 1), (''device'', PDict hello_device), (''limits'', PDict hello_limits)]"

lemma hello_run:
  assumes "hello_ok c iq psd status"
  shows "run_command (PInt i) ''hello'' (build_request i ''hello'' (hello_fields c)) ip t sv =
    (sv\<lparr>sv_udp_dest := Some (ip, iq), sv_udp_psd_dest := Some (ip, psd), sv_udp_status_dest := Some (ip, status)\<rparr>,
     Inr (hello_answer i))"
  using assms by (simp add: run_command_def cmd_hello_def build_request_def dupdate_def hello_fields_def hello_ok_def dget_def
      assign_def port_of_def dgetitem_def hello_answer_def Let_def)

lemma hello_answer_eq:
  "hello_answer i = [(''request_id'', PInt i), (''ok'', PBool True), (''protocol_version'', PInt 1),
     (''device'', PDict hello_device), (''limits'', PDict hello_limits)]"
  unfolding hello_answer_def by (subst build_response_eq) (simp_all add: dict_ok_def)

lemma hello_answer_encodable: "encodable (PDict (hello_answer i))"
  by (simp add: hello_answer_eq hello_device_def hello_limits_def less_char_def)

section \<open>A device without an owner\<close>

definition available :: "conn \<Rightarrow> FakeServer \<Rightarrow> bool" where
  "available k sv \<longleftrightarrow> (case sv_owner sv of None \<Rightarrow> True | Some o' \<Rightarrow> o' \<in> set (sv_closing sv))
     \<and> map_of (sv_handlers sv) k = None \<and> k \<notin> set (sv_closing sv)"

lemma accept_available:
  assumes "available k sv"
  shows "accept_client k ip sv = sv\<lparr>sv_owner := Some k, sv_handlers := sv_handlers sv @ [(k, ip)]\<rparr>"
    and "map_of (sv_handlers (accept_client k ip sv)) k = Some ip" and "k \<notin> set (sv_closing (accept_client k ip sv))"
proof -
  show a: "accept_client k ip sv = sv\<lparr>sv_owner := Some k, sv_handlers := sv_handlers sv @ [(k, ip)]\<rparr>"
    using assms by (auto simp: accept_client_def available_def split: option.splits)
  show "map_of (sv_handlers (accept_client k ip sv)) k = Some ip" "k \<notin> set (sv_closing (accept_client k ip sv))"
    using assms by (simp_all add: a available_def map_add_def)
qed

lemma dial_exchange:
  "available k sv \<Longrightarrow> dial k ip t c sv = exchange k t ''hello'' (hello_fields c) c (accept_client k ip sv)"
  by (simp add: dial_def exchange_def written_def accept_available(1) Let_def)

text \<open>The device after the hello.\<close>

definition serving :: "conn \<Rightarrow> string \<Rightarrow> int \<Rightarrow> int \<Rightarrow> int \<Rightarrow> FakeServer \<Rightarrow> bool" where
  "serving k ip iq psd status sv \<longleftrightarrow> sv_owner sv = Some k \<and> sv_udp_dest sv = Some (ip, iq)
     \<and> sv_udp_psd_dest sv = Some (ip, psd) \<and> sv_udp_status_dest sv = Some (ip, status)
     \<and> map_of (sv_handlers sv) k = Some ip \<and> k \<notin> set (sv_closing sv)"

lemma connect_accepted:
  assumes "hello_ok c iq psd status" and "available k sv"
  shows "\<exists>sv1 io c'. dial k ip t (calling host c) sv = (sv1, io) \<and> connect host None io c = (c', Inr (hello_answer (dc_request_id c + 1)))
    \<and> in_step c' \<and> serving k ip iq psd status sv1"
proof -
  let ?c = "calling host c" and ?i = "dc_request_id c + 1" and ?sv = "accept_client k ip sv"
  have ok: "hello_ok ?c iq psd status" using assms(1)
    by (auto simp: hello_ok_def calling_def close_def dget_def map_of_dset split: option.splits)
  note hs = hello_sendable[OF ok]
  note acc = accept_available[OF assms(2), where ip = ip]
  let ?sv1 = "?sv\<lparr>sv_udp_dest := Some (ip, iq), sv_udp_psd_dest := Some (ip, psd), sv_udp_status_dest := Some (ip, status)\<rparr>"
  from exchange_answered[OF calling_simps(1)[of host c] calling_simps(4) hs(1) hs(2) acc(2,3) hello_run[OF ok] hello_answer_encodable, where t = t]
  obtain reply io c3 where ex: "exchange k t ''hello'' (hello_fields ?c) ?c ?sv = (write_reply k reply ?sv1, io)"
    "request io ''hello'' (hello_fields ?c) ?c = (c3, accept_response ?i reply)"
    "decode_json_line reply = Inr (hello_answer ?i)" "reply \<noteq> []" by auto
  have "accept_response ?i reply = Inr (hello_answer ?i)" using ex(3,4) by (simp add: accept_response_def hello_answer_eq dget_def)
  then have "connect host None io c = (c3\<lparr>dc_heartbeat := True\<rparr>, Inr (hello_answer ?i))"
    using ex(2) by (simp add: connect_calling hello_calling)
  moreover have "in_step ?c" by (simp add: in_step_def)
  then have "in_step c3" using exchange_request[OF _ hs(2) ex(1,2)] by blast
  then have "in_step (c3\<lparr>dc_heartbeat := True\<rparr>)" by (simp add: in_step_def)
  moreover have "serving k ip iq psd status (write_reply k reply ?sv1)" using acc(2,3)
    by (simp add: serving_def write_reply_def acc(1))
  ultimately show ?thesis using ex(1) dial_exchange[OF assms(2)] by metis
qed

lemma serving_write_reply [simp]: "serving k ip iq psd status (write_reply j l sv) = serving k ip iq psd status sv"
  by (simp add: serving_def write_reply_def)

lemma serving_set_psd:
  "serving k ip iq psd status sv \<Longrightarrow> run_command i ''set_psd'' rq a t sv = (sv', r) \<Longrightarrow> serving k ip iq psd status sv'"
  by (auto simp: run_command_def cmd_set_psd_def serving_def assign_def Let_def split: if_splits sum.splits)

lemma set_psd_serving:
  assumes "linked rt" and "json_dict (psd_request kw rt)" and "serving k ip iq psd status sv"
    and "exchange k t ''set_psd'' (psd_request kw rt) (rt_device rt) sv = (sv', io)" and "psd_configured rt"
    and "runtime_set_psd io now kw rt = (rt', Inr resp)"
  shows "serving k ip iq psd status sv'"
proof -
  obtain rt1 q where c: "call_device (client_call ''set_psd'' io (psd_request kw rt)) rt = (rt1, q)" by fastforce
  have "\<exists>x. q = Inr x" using assms(5,6) c by (cases q) (auto simp: runtime_set_psd_def client_set_psd_def Let_def sthen_def)
  with exchange_call[OF assms(1,2,4) c] obtain i rq a sv1 x reply where "sv' = write_reply k reply sv1"
    "run_command (PInt i) ''set_psd'' rq a t sv = (sv1, Inr x)" by auto
  with serving_set_psd[OF assms(3)] show ?thesis by simp
qed

lemma config_publish [simp]:
  "rt_config (fst (publish_status now rt)) = rt_config rt" "rt_device (fst (publish_status now rt)) = rt_device rt"
  by (simp_all add: publish_status_def split: prod.splits)

text \<open>What the automatic request leaves alone.\<close>

definition session_view :: "('c, 'f) BackendRuntime \<Rightarrow> bool \<times> pyval \<times> string option \<times> bool \<times> pydict" where
  "session_view rt = (as_connected (rt_state rt), as_hello (rt_state rt), as_last_error (rt_state rt), connected (rt_device rt),
     ac_udp (rt_config rt))"

lemma sthen_keeps:
  assumes "P (fst p)" and "\<And>x s. P s \<Longrightarrow> P (fst (h x s))"
  shows "P (fst (sthen p h))"
  using assms by (cases p; cases "snd p") (auto simp: sthen_def)

lemma session_publish: "session_view (fst (publish_status now rt)) = session_view rt"
  by (simp add: session_view_def publish_status_state)

lemma session_call: "session_view (fst (call_device (client_call cmd io kw) rt)) = session_view rt"
  using request_frame(5)[of io cmd kw "rt_device rt"]
  by (auto simp: session_view_def call_device_def put_client_def client_call_def split: prod.splits sum.splits)


lemma session_set_psd:
  assumes "psd_configured rt"
  shows "session_view (fst (runtime_set_psd io now kw rt)) = session_view rt"
proof -
  have "session_view (fst (sthen (call_device (client_call ''set_psd'' io (psd_request kw rt)) rt) h)) = session_view rt"
    if "\<And>x s. session_view s = session_view rt \<Longrightarrow> session_view (fst (h x s)) = session_view rt"
    for h :: "pydict \<Rightarrow> ('a, 'b) BackendRuntime \<Rightarrow> ('a, 'b) BackendRuntime \<times> pydict result"
    by (rule sthen_keeps[where P = "\<lambda>s. session_view s = session_view rt"]) (use that in \<open>simp_all add: session_call\<close>)
  moreover have "session_view (fst (sthen (publish_status now s) (\<lambda>_ s. (s, z)))) = session_view s"
    for s :: "('a, 'b) BackendRuntime" and z :: "pydict result"
    by (rule sthen_keeps[where P = "\<lambda>x. session_view x = session_view s"]) (simp_all add: session_publish)
  moreover have "session_view (map_state (\<lambda>s. s\<lparr>as_psd := d\<rparr>) s) = session_view s"
    "session_view (s\<lparr>rt_psd_reassembler := ra\<rparr>) = session_view s" for s :: "('a, 'b) BackendRuntime" and d ra
    by (simp_all add: session_view_def map_state_def)
  ultimately show ?thesis using assms unfolding runtime_set_psd_def client_set_psd_def Let_def
    by (simp only: simp_thms if_False) (simp split: sum.splits)
qed

text \<open>The runtime after an accepted hello, before the automatic request.\<close>

definition greeted :: "pyfloat \<Rightarrow> DeviceClient \<Rightarrow> pydict \<Rightarrow> ('c, 'f) BackendRuntime \<Rightarrow> ('c, 'f) BackendRuntime" where
  "greeted t0 c hello rt =
     fst (publish_status t0 (map_state (\<lambda>s. s\<lparr>as_connected := True, as_device_host := config_host (put_client c rt),
       as_hello := PDict hello, as_last_error := None\<rparr>) (put_client c rt)))"

lemma greeted_ok:
  assumes "rt_inv rt" and "json_dict (ac_psd (rt_config rt))" and "connect host None io (rt_device rt) = (c, Inr hello)" and "in_step c"
  shows "linked (greeted t0 c hello rt)" and "rt_device (greeted t0 c hello rt) = c"
    and "psd_configured (greeted t0 c hello rt) = psd_configured rt" and "psd_request kw (greeted t0 c hello rt) = psd_request kw rt"
    and "session_view (greeted t0 c hello rt) = (True, PDict hello, None, True, ac_udp (rt_config rt))"
    and "ac_psd (rt_config (greeted t0 c hello rt)) = ac_psd (rt_config rt)"
    and "connect_device \<lparr>cn_open = None, cn_io = io, cn_psd_io = psd_io, cn_now = now\<rparr> host rt =
      auto_set_psd \<lparr>cn_open = None, cn_io = io, cn_psd_io = psd_io, cn_now = now\<rparr> hello (greeted (now 0) c hello rt)"
proof -
  let ?rt1 = "put_client c rt" and ?rt2 = "greeted t0 c hello rt"
  have call: "call_device (connect host None io) rt = (?rt1, Inr hello)" using assms(3) by (simp add: call_device_def)
  have inv: "rt_inv ?rt1" using rt_inv_call_device[OF assms(1), of "connect host None io"] call by (simp add: client_inv_connect)
  then have l1: "linked ?rt1" using assms(2,4) by (simp add: linked_def put_client_def)
  then have l: "linked (map_state f ?rt1)" for f by simp
  then show "linked ?rt2" unfolding greeted_def by (intro linked_publish)
  have cfg: "rt_config ?rt2 = rt_config rt\<lparr>ac_device := dc_device c\<rparr>" by (simp add: greeted_def map_state_def put_client_def)
  then show "psd_configured ?rt2 = psd_configured rt" "psd_request kw ?rt2 = psd_request kw rt" "ac_psd (rt_config ?rt2) = ac_psd (rt_config rt)"
    by (auto simp: psd_request_def psd_configured_def split: option.splits)
  show dev: "rt_device ?rt2 = c" by (simp add: greeted_def map_state_def put_client_def)
  show "session_view ?rt2 = (True, PDict hello, None, True, ac_udp (rt_config rt))"
    using connect_Inr[OF assms(3)] by (simp add: session_view_def cfg dev) (simp add: greeted_def publish_status_state map_state_def)
  show "connect_device \<lparr>cn_open = None, cn_io = io, cn_psd_io = psd_io, cn_now = now\<rparr> host rt =
      auto_set_psd \<lparr>cn_open = None, cn_io = io, cn_psd_io = psd_io, cn_now = now\<rparr> hello (greeted (now 0) c hello rt)"
    using call sthen_linked[OF l] by (simp add: connect_device_def greeted_def)
qed

text \<open>The PSD settings of the default configuration are accepted.\<close>

lemma default_psd_configured: "ac_psd (rt_config rt) = PsdConfig \<Longrightarrow> psd_configured rt"
  by (simp add: psd_configured_def PsdConfig_def dget_def)

lemma start_task_running [simp]: "start_task x = Running"
  by (cases x) (simp_all add: start_task_def)

lemma default_psd_accepted:
  assumes "linked rt" and "connected (rt_device rt)" and "serving k ip iq psd status sv" and "ac_psd (rt_config rt) = PsdConfig"
    and "exchange k t ''set_psd'' (psd_request (Some PsdConfig) rt) (rt_device rt) sv = (sv', io)"
  shows "\<exists>rt' resp. runtime_set_psd io now (Some PsdConfig) rt = (rt', Inr resp) \<and> pc_enable (sv_psd_config sv')
    \<and> sv_psd_task sv' = Running"
proof -
  let ?i = "dc_request_id (rt_device rt) + 1"
  obtain l where l: "dc_link (rt_device rt) = Some l" "lk_buffer l = []"
    using assms(1,2) by (auto simp: connected_def linked_def in_step_def split: option.splits)
  have rq: "psd_request (Some PsdConfig) rt = PsdConfig" by (simp add: psd_request_def assms(4) PsdConfig_def dupdate_def)
  have keys: "{''self'', ''cmd'', ''request_id''} \<inter> set (map fst PsdConfig) = {}" by (simp add: PsdConfig_def)
  have send: "sendable_request ?i ''set_psd'' PsdConfig"
    using keys by (rule sendable_requestI) (simp_all add: PsdConfig_def less_char_def)
  define new where "new = \<lparr>pc_psd_id = 0, pc_source = ''adc0'', pc_enable = True, pc_enabled = True, pc_start_frequency_hz = 500000,
    pc_stop_frequency_hz = 108000000, pc_fft_size = 16384, pc_output_bins = 4096, pc_fps = 10, pc_sample_format = ''I16_DBFS_Q8''\<rparr>"
  let ?sv = "sv\<lparr>sv_psd_config := new, sv_psd_frame_seq := 0, sv_psd_first_frame := True, sv_psd_task := start_task (sv_psd_task sv)\<rparr>"
  let ?resp = "build_response (PInt ?i) True [(''applied'', PDict (psd_config_dict new))]"
  have run: "run_command (PInt ?i) ''set_psd'' (build_request ?i ''set_psd'' PsdConfig) ip t sv = (?sv, Inr ?resp)"
    by (simp add: run_command_def cmd_set_psd_def requested_psd_def build_request_def dupdate_def PsdConfig_def dget_def new_def)
  have resp: "?resp = [(''request_id'', PInt ?i), (''ok'', PBool True), (''applied'', PDict (psd_config_dict new))]"
    by (subst build_response_eq) (simp_all add: dict_ok_def)
  have enc: "encodable (PDict ?resp)" unfolding resp by (simp add: psd_config_dict_def new_def less_char_def)
  have jd: "json_dict PsdConfig" by (simp add: PsdConfig_def)
  have h: "map_of (sv_handlers sv) k = Some ip" "k \<notin> set (sv_closing sv)" using assms(3) by (simp_all add: serving_def)
  from exchange_answered[OF l send jd h run enc] assms(5) obtain reply c' where
    ex: "sv' = write_reply k reply ?sv" "request io ''set_psd'' PsdConfig (rt_device rt) = (c', accept_response ?i reply)"
    "decode_json_line reply = Inr ?resp" "reply \<noteq> []" by (auto simp: rq)
  have "accept_response ?i reply = Inr ?resp" using ex(3,4) unfolding resp by (simp add: accept_response_def dget_def)
  then have call: "call_device (client_set_psd io PsdConfig) rt = (put_client c' rt, Inr ?resp)"
    using ex(2) by (simp add: call_device_def client_set_psd_def client_call_def call_kwargs_def PsdConfig_def)
  then have "linked (put_client c' rt)"
    using exchange_call[OF assms(1) jd assms(5)[unfolded rq], of "put_client c' rt" "Inr ?resp"] by (simp add: client_set_psd_def)
  moreover note default_psd_configured[OF assms(4)]
  moreover have "pc_enable new" "dget (psd_config_dict new) ''enable'' d = PBool True" for d by (simp_all add: new_def dget_def psd_config_dict_def)
  moreover have "dget ?resp ''applied'' d = PDict (psd_config_dict new)" for d by (rule dget_Some[OF build_response_applied])
  ultimately show ?thesis using ex(1) by (simp add: runtime_set_psd_def rq call sthen_linked write_reply_def Let_def)
qed

text \<open>
  C7 (the backend connects). A backend with proper settings, whatever it was connected to before,
  calls a device without an owner: \<open>connect_device\<close> returns the answer of the device to its hello, the
  backend shows itself connected with this answer, is connected and in step, and so meets the
  assumptions about the control operations. Either no error is shown, and then the device belongs to
  this connection and sends IQ, PSD and status packets to the address of the backend at the ports
  its receivers are configured with, and, if the configuration enables the PSD, the PSD settings shown
  are those of the device; or the automatic \<open>set_psd\<close> failed, and the error says so. With the default
  PSD settings it does not fail, and the PSD loop of the device runs.
\<close>

theorem backend_connects:
  assumes "rt_inv rt" and "json_dict (ac_psd (rt_config rt))" and "dc_udp (rt_device rt) = ac_udp (rt_config rt)"
    and "hello_ok (rt_device rt) iq psd status" and "available k sv"
    and "connect_step k ip t host now rt sv = (rt', sv', r)"
  shows "\<exists>hello. r = Inr hello \<and> map_of hello ''limits'' = Some (PDict hello_limits) \<and> as_hello (rt_state rt') = PDict hello
    \<and> as_connected (rt_state rt') \<and> rt_inv rt' \<and> in_step (rt_device rt') \<and> connected (rt_device rt')
    \<and> (case as_last_error (rt_state rt') of
         None \<Rightarrow> sv_owner sv' = Some k
           \<and> sv_udp_dest sv' = Some (ip, iq) \<and> dget (ac_udp (rt_config rt')) ''iq_port'' PNone = PInt iq
           \<and> sv_udp_psd_dest sv' = Some (ip, psd) \<and> dget (ac_udp (rt_config rt')) ''psd_port'' PNone = PInt psd
           \<and> sv_udp_status_dest sv' = Some (ip, status) \<and> dget (ac_udp (rt_config rt')) ''status_port'' PNone = PInt status
           \<and> (psd_configured rt \<longrightarrow> mirrored (OpPsd (Some (ac_psd (rt_config rt)))) rt' sv')
       | Some e \<Rightarrow> psd_configured rt \<and> take 21 e = ''auto set_psd failed: '')
    \<and> (ac_psd (rt_config rt) = PsdConfig \<longrightarrow> as_last_error (rt_state rt') = None \<and> pc_enable (sv_psd_config sv')
       \<and> sv_psd_task sv' = Running)"
proof -
  obtain sv1 io c where d: "dial k ip t (calling host (rt_device rt)) sv = (sv1, io)"
    and c: "connect host None io (rt_device rt) = (c, Inr (hello_answer (dc_request_id (rt_device rt) + 1)))" "in_step c"
    and sv1: "serving k ip iq psd status sv1" using connect_accepted[OF assms(4,5)] by blast
  define hello where "hello = hello_answer (dc_request_id (rt_device rt) + 1)"
  note g = greeted_ok[OF assms(1,2) c(1)[folded hello_def] c(2)]
  let ?rt = "greeted (now 0) c hello rt" and ?kw = "Some (ac_psd (rt_config rt))"
  have hello: "map_of hello ''limits'' = Some (PDict hello_limits)" by (simp add: hello_def hello_answer_eq)
  have ports: "dget (ac_udp (rt_config rt)) ''iq_port'' PNone = PInt iq" "dget (ac_udp (rt_config rt)) ''psd_port'' PNone = PInt psd"
    "dget (ac_udp (rt_config rt)) ''status_port'' PNone = PInt status" using assms(3,4) by (simp_all add: hello_ok_def)
  show ?thesis
  proof (cases "psd_configured rt")
    case False
    then have "rt' = ?rt" "sv' = sv1" "r = Inr hello"
      using assms(6) d c(1) g(3)[of "now 0"] by (auto simp: connect_step_def g(7) auto_set_psd_def hello_def)
    then show ?thesis using hello ports sv1 g(1,5)[of "now 0"] False default_psd_configured[of rt] by (auto simp: linked_def session_view_def serving_def)
  next
    case True
    obtain psd_io where ex: "exchange k t ''set_psd'' (psd_request ?kw rt) c sv1 = (sv', psd_io)"
      and run: "auto_set_psd \<lparr>cn_open = None, cn_io = io, cn_psd_io = psd_io, cn_now = now\<rparr> hello ?rt = (rt', r)"
      using assms(6) d c(1) True by (auto simp: connect_step_def g(7) hello_def split: prod.splits)
    obtain rt4 q where q: "runtime_set_psd psd_io (now 1) ?kw ?rt = (rt4, q)" by fastforce
    have jd: "json_dict (psd_request ?kw ?rt)" using plain_psd_request[OF g(1), of ?kw] assms(2) by simp
    have ex': "exchange k t ''set_psd'' (psd_request ?kw ?rt) (rt_device ?rt) sv1 = (sv', psd_io)" using ex by (simp only: g(2,4))
    have req: "op_request (OpPsd ?kw) ?rt \<noteq> None" using True g(3) by simp
    note out = op_psd_outcome[OF g(1) jd req ex' q]
    have l4: "linked rt4" using out by (simp add: outcome_def)
    have view: "session_view rt4 = (True, PDict hello, None, True, ac_udp (rt_config rt))"
      using session_set_psd[of ?rt psd_io "now 1" ?kw] q g(3,5)[of "now 0"] True by simp
    have def: "(\<exists>resp. q = Inr resp) \<and> pc_enable (sv_psd_config sv') \<and> sv_psd_task sv' = Running" if d: "ac_psd (rt_config rt) = PsdConfig"
      using default_psd_accepted[OF g(1) _ sv1 _ ex'[unfolded d], where now = "now 1"] g(5,6)[of "now 0"] q d by (auto simp: session_view_def)
    show ?thesis
    proof (cases q)
      case (Inr resp)
      then have "rt' = rt4" "r = Inr hello" using run q True g(3,6)[of "now 0"] by (auto simp: auto_set_psd_def)
      moreover have "serving k ip iq psd status sv'" using set_psd_serving[OF g(1) jd sv1 ex'] q Inr True g(3) by blast
      ultimately show ?thesis using out Inr view hello ports True l4 def
        by (auto simp: outcome_def linked_def session_view_def serving_def)
    next
      case (Inl e)
      let ?rt5 = "map_state (\<lambda>s. s\<lparr>as_last_error := Some (''auto set_psd failed: '' @ exn_str e)\<rparr>) rt4"
      have "rt' = fst (publish_status (now 2) ?rt5)" "r = Inr hello"
        using run q Inl True l4 g(3,6)[of "now 0"] by (simp_all add: auto_set_psd_def sthen_linked)
      moreover have "linked (fst (publish_status (now 2) ?rt5))" using l4 by (intro linked_publish) simp
      ultimately show ?thesis using view hello True def Inl
        by (auto simp: linked_def session_view_def publish_status_state) (simp_all add: map_state_def)
    qed
  qed
qed



section \<open>A device with an owner\<close>

lemma busy_answer:
  assumes "busy_line = Inr line"
  shows "accept_response i line = Inl (Exn DeviceClientError ''response request_id mismatch'')" and "a_line line"
proof -
  let ?d = "build_error PNone ''busy'' ''device already has an owner'' []"
  have e: "encode_json_line ?d = Inr line" using assms by (simp add: busy_line_def)
  then show l: "a_line line" by (rule encode_a_line)
  have "decode_json_line line = Inr ?d" by (rule decode_encode[OF e]) (simp add: build_error_eq)
  moreover have "line \<noteq> []" using l by (auto simp: a_line_def)
  ultimately show "accept_response i line = Inl (Exn DeviceClientError ''response request_id mismatch'')"
    by (simp add: accept_response_def build_error_eq dget_def)
qed

text \<open>
  C37 (a busy device is misreported). A backend calls a device that has an owner. The device answers
  with the error \<open>busy\<close>, which carries no request identifier, and is not affected otherwise; the backend
  compares identifiers first, so \<open>connect_device\<close> raises, and shows to the browsers, an identifier
  mismatch instead of the reason the device gave. The backend is left without a connection.
\<close>

theorem busy_device_misreported:
  assumes "rt_inv rt" and "hello_ok (rt_device rt) iq psd status" and "sv_owner sv = Some o'" and "o' \<notin> set (sv_closing sv)"
    and "map_of (sv_handlers sv) k = None" and "connect_step k ip t host now rt sv = (rt', sv', r)"
  shows "r = Inl (Exn DeviceClientError ''response request_id mismatch'')
    \<and> as_last_error (rt_state rt') = Some ''response request_id mismatch'' \<and> \<not> as_connected (rt_state rt')
    \<and> dc_link (rt_device rt') = None \<and> (\<exists>line. busy_line = Inr line \<and> sv' = write_reply k line sv)"
proof -
  obtain line where line: "busy_line = Inr line" using busy_line_ok by blast
  have acc: "accept_client k ip sv = write_reply k line sv" using assms(3,4) by (simp add: accept_client_def line)
  have silent: "handle_line k x t (write_reply k line sv) = write_reply k line sv" for x
    using assms(5) by (simp add: handle_line_def write_reply_def)
  let ?c = "calling host (rt_device rt)"
  have wr: "written k sv (write_reply k line sv) = line" by (simp add: written_def write_reply_def)
  obtain io where d: "dial k ip t ?c sv = (write_reply k line sv, io)" "io_drain io = None" "io_failed io = None" "io_arrived io = line"
    by (simp add: dial_def acc silent wr Let_def split: option.splits)
  have ok: "sendable_request (dc_request_id ?c + 1) ''hello'' (hello_fields ?c)"
    using hello_sendable(1)[OF assms(2)] by (simp add: hello_calling)
  have "await_line io (lk_buffer fresh_link) = ([], Inr line)"
    using readline_a_line[OF busy_answer(2)[OF line], of "[]"] d by (simp add: await_line_def a_line_def)
  from request_sent[OF ok calling_simps(1) d(2) this] obtain c where
    "request io ''hello'' (hello_fields (rt_device rt)) ?c = (c, Inl (Exn DeviceClientError ''response request_id mismatch''))"
    by (auto simp: busy_answer(1)[OF line] hello_calling)
  then have con: "connect host None io (rt_device rt) = (close c, Inl (Exn DeviceClientError ''response request_id mismatch''))"
    by (simp add: connect_calling connect_failed_def subclass_of_def)
  then have call: "call_device (connect host None io) rt = (put_client (close c) rt, Inl (Exn DeviceClientError ''response request_id mismatch''))"
    by (simp add: call_device_def)
  then have "rt_inv (put_client (close c) rt)"
    using rt_inv_call_device[OF assms(1), of "connect host None io"] by (simp add: client_inv_connect)
  then have "rt_inv (map_state f (put_client (close c) rt))" for f by (simp add: rt_inv_def map_state_def)
  from sthen_publish_status[OF this] have dev: "connect_device \<lparr>cn_open = None, cn_io = io, cn_psd_io = x, cn_now = now\<rparr> host rt =
      (fst (publish_status (now 0) (map_state (\<lambda>s. s\<lparr>as_connected := False, as_device_host := config_host (put_client (close c) rt),
         as_last_error := Some ''response request_id mismatch''\<rparr>) (put_client (close c) rt))),
       Inl (Exn DeviceClientError ''response request_id mismatch''))" for x
    by (simp add: connect_device_def call)
  have "r = Inl (Exn DeviceClientError ''response request_id mismatch'')" "sv' = write_reply k line sv"
    "rt' = fst (publish_status (now 0) (map_state (\<lambda>s. s\<lparr>as_connected := False, as_device_host := config_host (put_client (close c) rt),
         as_last_error := Some ''response request_id mismatch''\<rparr>) (put_client (close c) rt)))"
    using assms(6) by (auto simp: connect_step_def d(1) con dev)
  then show ?thesis by (simp add: publish_status_state line) (simp add: map_state_def put_client_def close_def)
qed

section \<open>Any device\<close>

text \<open>Whatever state the device is in, the client is in step after \<open>connect\<close>.\<close>

lemma handle_line_replies: "\<exists>rs. sv_replies (handle_line k line t sv) = sv_replies sv @ rs"
proof (cases "map_of (sv_handlers sv) k")
  case (Some ip)
  obtain sv1 r where d: "dispatch line ip t sv = (sv1, r)" by fastforce
  show ?thesis using dispatch_replies[OF d] by (auto simp: handle_line_def Some d write_reply_def split: sum.splits)
qed (simp add: handle_line_def)

lemma written_after:
  assumes "sv_replies sv2 = sv_replies sv1 @ rs" and "sv_replies sv1 = sv_replies sv @ [(k, line)]"
  shows "\<exists>more. written k sv sv2 = line @ more"
  using assms by (simp add: written_def)

lemma accept_client_cases:
  obtains (quiet) "sv_replies (accept_client k ip sv) = sv_replies sv"
  | (busy) line where "busy_line = Inr line" "sv_replies (accept_client k ip sv) = sv_replies sv @ [(k, line)]"
proof -
  obtain line where line: "busy_line = Inr line" using busy_line_ok by blast
  show thesis
  proof (cases "\<exists>o'. sv_owner sv = Some o' \<and> o' \<notin> set (sv_closing sv)")
    case True
    then show thesis using busy[OF line] by (auto simp: accept_client_def write_reply_def line)
  next
    case False
    then show thesis using quiet by (auto simp: accept_client_def split: option.splits)
  qed
qed

lemma connect_in_step:
  assumes "json_dict (hello_fields c)" and "dial k ip t (calling host c) sv = (sv1, io)" and "connect host None io c = (c', r)"
  shows "in_step c'"
proof -
  let ?c = "calling host c" and ?sv = "accept_client k ip sv"
  obtain c3 q where rq: "request io ''hello'' (hello_fields ?c) ?c = (c3, q)" by fastforce
  have "in_step c3" if q: "q = Inr resp" for resp
  proof (cases rule: accept_client_cases[of k ip sv])
    case quiet
    then have "exchange k t ''hello'' (hello_fields ?c) ?c ?sv = (sv1, io)"
      using assms(2) unfolding dial_def exchange_def written_def Let_def by (simp only: quiet)
    from exchange_request[OF _ _ this rq] assms(1) show ?thesis by (simp add: in_step_def hello_calling)
  next
    case (busy line)
    show ?thesis
    proof (cases "sent_line ''hello'' (hello_fields ?c) ?c")
      case None
      from request_unsent[OF this, of io] rq q show ?thesis by simp
    next
      case (Some l)
      note send = sent_line_sendable[OF Some]
      have io: "io_drain io = None" "io_failed io = None" "io_arrived io = written k sv (handle_line k l t ?sv)"
        using assms(2) by (auto simp: dial_def Some Let_def)
      obtain rs where "sv_replies (handle_line k l t ?sv) = sv_replies ?sv @ rs" using handle_line_replies by blast
      from written_after[OF this busy(2)] io(3) obtain more where "io_arrived io = line @ more" by auto
      then have "await_line io (lk_buffer fresh_link) = (more, Inr line)"
        using readline_a_line[OF busy_answer(2)[OF busy(1)], of more] busy_answer(2)[OF busy(1)] io(2) by (simp add: await_line_def a_line_def)
      from request_sent[OF send(1) calling_simps(1) io(1) this] rq q show ?thesis by (auto simp: busy_answer(1)[OF busy(1)])
    qed
  qed
  then show ?thesis using assms(3) rq by (cases q) (auto simp: connect_calling hello_calling connect_failed_def close_def in_step_def)
qed

text \<open>The fields of the hello never change.\<close>

lemma hello_fields_cong: "dc_udp c' = dc_udp c \<Longrightarrow> dc_device c' = dc_device c \<Longrightarrow> hello_fields c' = hello_fields c"
  by (simp add: hello_fields_def)

lemma hello_request: "request io cmd kw c = (c', r) \<Longrightarrow> hello_fields c' = hello_fields c"
  using request_frame(1,2)[of io cmd kw c] by (intro hello_fields_cong) simp_all

lemma hello_close [simp]: "hello_fields (close c) = hello_fields c"
  by (rule hello_fields_cong) (simp_all add: close_def)

lemma hello_connect:
  assumes "connect host None io c = (c', r)"
  shows "hello_fields c' = hello_fields c"
proof -
  obtain c3 q where rq: "request io ''hello'' (hello_fields c) (calling host c) = (c3, q)" by fastforce
  have "hello_fields c3 = hello_fields c" using hello_request[OF rq] by (simp add: hello_calling)
  moreover have "hello_fields (c3\<lparr>dc_heartbeat := x\<rparr>) = hello_fields c3" for x by (rule hello_fields_cong) simp_all
  ultimately show ?thesis using assms by (cases q) (auto simp: connect_calling rq connect_failed_def)
qed

lemma hello_call: "hello_fields (rt_device (fst (call_device (client_call cmd io kw) rt))) = hello_fields (rt_device rt)"
  by (auto simp: call_device_def put_client_def client_call_def hello_request split: prod.splits sum.splits)

lemma hello_set_psd: "hello_fields (rt_device (fst (runtime_set_psd io now kw rt))) = hello_fields (rt_device rt)"
proof -
  let ?P = "\<lambda>s. hello_fields (rt_device s) = hello_fields (rt_device rt)"
  have call: "?P (fst (sthen (call_device (client_call ''set_psd'' io (psd_request kw rt)) rt) h))" if "\<And>x s. ?P s \<Longrightarrow> ?P (fst (h x s))"
    for h :: "pydict \<Rightarrow> ('a, 'b) BackendRuntime \<Rightarrow> ('a, 'b) BackendRuntime \<times> pydict result"
    by (rule sthen_keeps[where P = ?P]) (use that in \<open>simp_all add: hello_call\<close>)
  have pub: "rt_device (fst (sthen (publish_status now s) (\<lambda>_ s. (s, z)))) = rt_device s" for s :: "('a, 'b) BackendRuntime" and z :: "pydict result"
    by (rule sthen_keeps[where P = "\<lambda>x. rt_device x = rt_device s"]) simp_all
  have st: "rt_device (map_state f s) = rt_device s" for f and s :: "('a, 'b) BackendRuntime" by (simp add: map_state_def)
  show ?thesis
  proof (cases "py_bool (dget (psd_request kw rt) ''enable'' (PBool True)) \<and> \<not> psd_configured rt")
    case True
    then show ?thesis by (simp add: runtime_set_psd_def psd_unsupported_def Let_def pub st)
  next
    case False
    then show ?thesis unfolding runtime_set_psd_def client_set_psd_def Let_def
      by (simp only: if_False) (intro call, auto simp: pub st split: sum.splits)
  qed
qed

lemma auto_set_psd_linked:
  assumes "linked rt" and "psd_configured rt \<Longrightarrow> exchange k t ''set_psd'' (psd_request (Some (ac_psd (rt_config rt))) rt) (rt_device rt) sv = (sv', cn_psd_io env)"
    and "auto_set_psd env hello rt = (rt', r)"
  shows "linked rt' \<and> hello_fields (rt_device rt') = hello_fields (rt_device rt)"
proof (cases "psd_configured rt")
  case True
  let ?kw = "Some (ac_psd (rt_config rt))"
  obtain rt4 q where q: "runtime_set_psd (cn_psd_io env) (cn_now env 1) ?kw rt = (rt4, q)" by fastforce
  have "json_dict (psd_request ?kw rt)" using plain_psd_request[OF assms(1), of ?kw] assms(1) by (simp add: linked_def)
  from op_psd_outcome[OF assms(1) this _ assms(2)[OF True] q] True have l: "linked rt4" by (simp add: outcome_def)
  have h: "hello_fields (rt_device rt4) = hello_fields (rt_device rt)" using hello_set_psd[of "cn_psd_io env" "cn_now env 1" ?kw rt] q by simp
  show ?thesis
  proof (cases q)
    case (Inl e)
    let ?rt5 = "map_state (\<lambda>s. s\<lparr>as_last_error := Some (''auto set_psd failed: '' @ exn_str e)\<rparr>) rt4"
    have "rt' = fst (publish_status (cn_now env 2) ?rt5)" using assms(3) q Inl True l by (simp add: auto_set_psd_def sthen_linked)
    moreover have "linked (fst (publish_status (cn_now env 2) ?rt5))" using l by (intro linked_publish) simp
    ultimately show ?thesis using h by (simp add: map_state_def)
  qed (use assms(3) q True l h in \<open>simp add: auto_set_psd_def\<close>)
qed (use assms in \<open>simp add: auto_set_psd_def\<close>)

lemma connect_step_linked:
  assumes "rt_inv rt" and "json_dict (ac_psd (rt_config rt))" and "json_dict (hello_fields (rt_device rt))"
    and "connect_step k ip t host now rt sv = (rt', sv', r)"
  shows "linked rt' \<and> hello_fields (rt_device rt') = hello_fields (rt_device rt)"
proof -
  obtain sv1 io where d: "dial k ip t (calling host (rt_device rt)) sv = (sv1, io)" by fastforce
  obtain c q where c: "connect host None io (rt_device rt) = (c, q)" by fastforce
  note st = connect_in_step[OF assms(3) d c] and h = hello_connect[OF c]
  show ?thesis
  proof (cases q)
    case (Inr hello)
    note g = greeted_ok[OF assms(1,2) c[unfolded Inr] st]
    obtain psd_io where run: "auto_set_psd \<lparr>cn_open = None, cn_io = io, cn_psd_io = psd_io, cn_now = now\<rparr> hello (greeted (now 0) c hello rt) = (rt', r)"
      and ex: "psd_configured rt \<Longrightarrow> exchange k t ''set_psd'' (psd_request (Some (ac_psd (rt_config rt))) rt) c sv1 = (sv', psd_io)"
      using assms(4) d c Inr by (auto simp: connect_step_def g(7) split: prod.splits if_splits)
    from auto_set_psd_linked[OF g(1) _ run, of k t sv1 sv'] ex h show ?thesis by (simp add: g)
  next
    case (Inl e)
    have call: "call_device (connect host None io) rt = (put_client c rt, Inl e)" using c Inl by (simp add: call_device_def)
    have "rt_inv (put_client c rt)" using rt_inv_call_device[OF assms(1), of "connect host None io"] call by (simp add: client_inv_connect)
    then have "linked (put_client c rt)" using st assms(2) by (simp add: linked_def put_client_def)
    then have l: "linked (map_state f (put_client c rt))" for f by simp
    have "\<exists>f. rt' = fst (publish_status (now 0) (map_state f (put_client c rt)))"
      using assms(4) d c Inl call by (auto simp: connect_step_def connect_device_def sthen_linked[OF l])
    then show ?thesis using l h linked_publish(1)[OF l] by (auto simp: map_state_def put_client_def)
  qed
qed

section \<open>Examples\<close>

definition idle_server :: FakeServer where
  "idle_server = server_start (server_init fake_config_default)"

lemma demo_hello: "hello_ok (rt_device demo_runtime) 9001 9002 9003" "dc_udp (rt_device demo_runtime) = ac_udp (rt_config demo_runtime)"
  "json_dict (ac_psd (rt_config demo_runtime))" "psd_configured demo_runtime" "dc_request_id (rt_device demo_runtime) = 0"
  by (simp_all add: hello_ok_def demo_runtime_def runtime_init_def app_config_default_def client_init_def DeviceConfig_def UdpConfig_def
      PsdConfig_def psd_configured_def dget_def less_char_def)

lemma idle_available: "available 1 idle_server"
  by (simp add: available_def idle_server_def server_start_def server_init_def)

theorem busy_device_misreported_witness:
  "\<exists>rt' line. busy_line = Inr line \<and> connect_step 2 ''10.0.0.3'' 5 None (\<lambda>_. FFin 1) demo_runtime live_server =
      (rt', write_reply 2 line live_server, Inl (Exn DeviceClientError ''response request_id mismatch''))"
proof -
  obtain rt' sv' r where st: "connect_step 2 ''10.0.0.3'' 5 None (\<lambda>_. FFin 1) demo_runtime live_server = (rt', sv', r)"
    by (rule prod_cases3)
  have "sv_owner live_server = Some 1" "1 \<notin> set (sv_closing live_server)" "map_of (sv_handlers live_server) 2 = None"
    by (simp_all add: live_server_def server_init_def)
  from busy_device_misreported[OF demo_runtime_inv demo_hello(1) this st] st show ?thesis by auto
qed

theorem backend_connects_witness:
  "\<exists>rt' sv' hello. connect_step 1 ''10.0.0.2'' 5 (Some ''10.0.0.7'') (\<lambda>_. FFin 1) demo_runtime idle_server = (rt', sv', Inr hello)
     \<and> connected (rt_device rt') \<and> as_last_error (rt_state rt') = None \<and> sv_udp_dest sv' = Some (''10.0.0.2'', 9001)
     \<and> sv_udp_psd_dest sv' = Some (''10.0.0.2'', 9002) \<and> sv_psd_task sv' = Running"
proof -
  obtain rt' sv' r where st: "connect_step 1 ''10.0.0.2'' 5 (Some ''10.0.0.7'') (\<lambda>_. FFin 1) demo_runtime idle_server = (rt', sv', r)"
    by (rule prod_cases3)
  have "ac_psd (rt_config demo_runtime) = PsdConfig" by (simp add: demo_runtime_def runtime_init_def app_config_default_def)
  with backend_connects[OF demo_runtime_inv demo_hello(3,2,1) idle_available st] st show ?thesis by auto
qed

end
