(* ===== verification/Backend_Device.thy ===== *)
theory Backend_Device
  imports Connect_Path Web_Session
begin

text \<open>
  Backend and device as one system: connections and control operations of the backend, in any
  order with whatever else happens to the device (other clients, its transmit loops) and with the
  datagrams and subscribers of the backend. Shown here: the views of the backend keep the types of
  the protocol in every reachable state, so that the handling of IQ packets always finds its mode.
\<close>

section \<open>Types of the shown state\<close>

text \<open>
  \<open>AppState\<close> declares its views as dictionaries; the fields are those of the protocol. The front end
  and the stream are kept at these types; the PSD view holds what the web side asked for and is not
  constrained.
\<close>

fun has_type :: "string \<times> pyval \<Rightarrow> bool" where
  "has_type (k, v) \<longleftrightarrow>
     (if k \<in> {''mode'', ''sample_format'', ''lna'', ''filter''} then (\<exists>s. v = PStr s)
      else if k \<in> {''stream_id'', ''adc_channel'', ''frequency_hz'', ''iq_sample_rate_hz'', ''bandwidth_hz'', ''decimation'',
        ''attenuator_db''} then (\<exists>n. v = PInt n)
      else k = ''enable'' \<longrightarrow> (\<exists>b. v = PBool b))"

definition typed_dict :: "pyval \<Rightarrow> bool" where
  "typed_dict v \<longleftrightarrow> (\<exists>d. v = PDict d \<and> list_all has_type d)"

definition typed_state :: "AppState \<Rightarrow> bool" where
  "typed_state s \<longleftrightarrow> typed_dict (as_rx s) \<and> typed_dict (as_frontend s)"

text \<open>The mode the handling of an IQ packet reads is a string.\<close>

lemma typed_mode: "typed_state s \<Longrightarrow> \<exists>mode. py_get (as_rx s) ''mode'' (PStr ''WFM'') = Inr (PStr mode)"
proof -
  assume "typed_state s"
  then obtain d where d: "as_rx s = PDict d" "list_all has_type d" by (auto simp: typed_state_def typed_dict_def)
  have "\<exists>m. v = PStr m" if "map_of d ''mode'' = Some v" for v
  proof -
    have "has_type (''mode'', v)" using that d(2) by (auto simp: list_all_iff dest!: map_of_SomeD)
    then show ?thesis by simp
  qed
  with d(1) show ?thesis by (auto simp: dget_def split: option.splits)
qed

lemma typed_answers:
  "typed_dict (PDict (frontend_dict f))" "rx_answer i s applied \<Longrightarrow> typed_dict (PDict applied)"
  by (auto simp: typed_dict_def frontend_dict_def rx_answer_def applied_rx_def split: if_splits)

lemma typed_stop: "typed_dict (PDict rx) \<Longrightarrow> typed_dict (PDict (dset rx ''enable'' (PBool False)))"
  by (auto simp: typed_dict_def intro!: list_all_dset)

text \<open>What else an operation leaves alone in the views.\<close>

lemma state_call_device: "call_device op rt = (rt1, r) \<Longrightarrow> rt_state rt1 = rt_state rt"
  by (auto simp: call_device_def put_client_def split: prod.splits)

lemma sthen_keeps_state:
  assumes "P (rt_state (fst p))" and "\<And>x rt. P (rt_state rt) \<Longrightarrow> P (rt_state (fst (h x rt)))"
  shows "P (rt_state (fst (sthen p h)))"
  using assms by (cases p; cases "snd p") (auto simp: sthen_def)

lemma frame_state:
  "as_rx (rt_state (fst (runtime_set_frontend io now kw rt))) = as_rx (rt_state rt)"
  "as_frontend (rt_state (fst (runtime_set_rx io now kw rt))) = as_frontend (rt_state rt)"
  "as_rx (rt_state (fst (runtime_set_psd io now d rt))) = as_rx (rt_state rt)"
  "as_frontend (rt_state (fst (runtime_set_psd io now d rt))) = as_frontend (rt_state rt)"
  "as_frontend (rt_state (fst (runtime_stop_all io now rt))) = as_frontend (rt_state rt)"
proof -
  have call: "rt_state (fst (call_device op rt)) = rt_state rt" for op and rt :: "('a, 'b) BackendRuntime"
    using state_call_device by (metis prod.collapse)
  have st: "rt_state (fst (sthen (publish_status now rt) (\<lambda>_ rt'. (rt', r)))) = rt_state rt" for r and rt :: "('a, 'b) BackendRuntime"
    by (rule sthen_keeps_state[where P = "\<lambda>s. s = rt_state rt"]) (simp_all add: publish_status_state)
  show "as_rx (rt_state (fst (runtime_set_frontend io now kw rt))) = as_rx (rt_state rt)"
    unfolding runtime_set_frontend_def
    by (rule sthen_keeps_state[where P = "\<lambda>s. as_rx s = as_rx (rt_state rt)"]) (simp_all add: call st, simp add: map_state_def)
  show "as_frontend (rt_state (fst (runtime_set_rx io now kw rt))) = as_frontend (rt_state rt)"
    unfolding runtime_set_rx_def
    by (rule sthen_keeps_state[where P = "\<lambda>s. as_frontend s = as_frontend (rt_state rt)"])
      (auto simp: call st Let_def map_state_def split: sum.splits)
  show "as_frontend (rt_state (fst (runtime_stop_all io now rt))) = as_frontend (rt_state rt)"
    unfolding runtime_stop_all_def
    by (rule sthen_keeps_state[where P = "\<lambda>s. as_frontend s = as_frontend (rt_state rt)"])
      (auto simp: call st map_state_def split: pyval.splits)
  have "(\<lambda>s. (as_rx s, as_frontend s)) (rt_state (fst (runtime_set_psd io now d rt))) = (as_rx (rt_state rt), as_frontend (rt_state rt))"
  proof (cases "py_bool (dget (psd_request d rt) ''enable'' (PBool True)) \<and> \<not> psd_configured rt")
    case True
    then show ?thesis by (simp add: runtime_set_psd_def psd_unsupported_def Let_def st) (simp add: map_state_def)
  next
    case False
    have "(\<lambda>s. (as_rx s, as_frontend s)) (rt_state (fst (sthen (call_device (client_set_psd io (psd_request d rt)) rt) h))) =
        (as_rx (rt_state rt), as_frontend (rt_state rt))"
      if "\<And>x rt'. (as_rx (rt_state rt'), as_frontend (rt_state rt')) = (as_rx (rt_state rt), as_frontend (rt_state rt)) \<Longrightarrow>
        (as_rx (rt_state (fst (h x rt'))), as_frontend (rt_state (fst (h x rt')))) = (as_rx (rt_state rt), as_frontend (rt_state rt))"
      for h :: "pydict \<Rightarrow> ('a, 'b) BackendRuntime \<Rightarrow> ('a, 'b) BackendRuntime \<times> pydict result"
      by (rule sthen_keeps_state[where P = "\<lambda>s. (as_rx s, as_frontend s) = (as_rx (rt_state rt), as_frontend (rt_state rt))"])
        (use that in \<open>simp_all add: call\<close>)
    then show ?thesis using False unfolding runtime_set_psd_def Let_def
      by (simp only: if_False) (auto simp: st map_state_def split: sum.splits)
  qed
  then show "as_rx (rt_state (fst (runtime_set_psd io now d rt))) = as_rx (rt_state rt)"
    "as_frontend (rt_state (fst (runtime_set_psd io now d rt))) = as_frontend (rt_state rt)" by simp_all
qed

lemma control_typed:
  assumes "linked rt" and "typed_state (rt_state rt)" and "json_op op" and "control_step k t now op rt sv = (rt', sv', r)"
  shows "linked rt' \<and> typed_state (rt_state rt')"
proof -
  note out = control_outcome[OF assms(1,3,4)]
  then have l: "linked rt'" by (auto simp: outcome_def split: if_splits)
  obtain io where run: "run_op op io now rt = (rt', r)"
    using assms(4) by (auto simp: control_step_def Let_def split: prod.splits)
  have old: "typed_dict (as_rx (rt_state rt))" "typed_dict (as_frontend (rt_state rt))"
    using assms(2) by (simp_all add: typed_state_def)
  have "typed_state (rt_state rt')"
  proof (cases op)
    case (OpFrontend kw)
    have "rt_state rt' = rt_state rt \<or> mirrored op rt' sv'" using out OpFrontend by (auto simp: outcome_def split: sum.splits)
    then show ?thesis using old run frame_state(1)[of io now kw rt] typed_answers
      by (auto simp: OpFrontend typed_state_def)
  next
    case (OpRx kw)
    have "rt_state rt' = rt_state rt \<or> mirrored op rt' sv'" using out OpRx by (auto simp: outcome_def split: sum.splits)
    then show ?thesis using old run frame_state(2)[of io now kw rt] typed_answers
      by (auto simp: OpRx typed_state_def)
  next
    case (OpPsd d)
    then show ?thesis using old run frame_state(3,4)[of io now d rt] by (simp add: typed_state_def)
  next
    case OpStop
    have "typed_dict (as_rx (rt_state (fst (runtime_stop_all io now rt))))" unfolding runtime_stop_all_def
      by (rule sthen_keeps_state[where P = "\<lambda>s. typed_dict (as_rx s)"])
        (auto simp: state_call_device old call_device_def put_client_def sthen_def publish_status_def map_state_def typed_stop
          split: pyval.splits prod.splits sum.splits)
    then show ?thesis using old run frame_state(5)[of io now rt] OpStop by (simp add: typed_state_def)
  next
    case OpPing
    then show ?thesis using assms(2) run by (auto simp: put_client_def)
  qed
  with l show ?thesis by blast
qed

text \<open>A connection attempt leaves the two views alone, a control operation the fields of the hello.\<close>

lemma connect_step_views:
  assumes "connect_step k ip t host now rt sv = (rt', sv', r)"
  shows "as_rx (rt_state rt') = as_rx (rt_state rt)" "as_frontend (rt_state rt') = as_frontend (rt_state rt)"
proof -
  define P where "P s \<longleftrightarrow> as_rx s = as_rx (rt_state rt) \<and> as_frontend s = as_frontend (rt_state rt)" for s :: AppState
  have up: "P (s\<lparr>as_last_error := e\<rparr>) = P s" "P (s\<lparr>as_connected := b\<rparr>) = P s" "P (s\<lparr>as_device_host := v\<rparr>) = P s"
    "P (s\<lparr>as_hello := v\<rparr>) = P s" for s e b v by (simp_all add: P_def)
  have pub: "P (rt_state (fst (sthen (publish_status n (map_state f s)) h)))"
    if "P (f (rt_state s))" "\<And>x s. P (rt_state s) \<Longrightarrow> P (rt_state (fst (h x s)))"
    for n f s and h :: "unit \<Rightarrow> ('a, 'b) BackendRuntime \<Rightarrow> ('a, 'b) BackendRuntime \<times> pydict result"
    by (rule sthen_keeps_state[where P = P]) (use that in \<open>simp_all add: publish_status_state\<close>, simp add: map_state_def)
  have auto: "P (rt_state (fst (auto_set_psd env hello s)))" if "P (rt_state s)" for env hello and s :: "('a, 'b) BackendRuntime"
  proof (cases "runtime_set_psd (cn_psd_io env) (cn_now env 1) (Some (ac_psd (rt_config s))) s")
    case (Pair s1 q)
    then have "P (rt_state s1)"
      using frame_state(3,4)[of "cn_psd_io env" "cn_now env 1" "Some (ac_psd (rt_config s))" s] that by (simp add: P_def)
    then show ?thesis using that Pair by (cases q) (auto simp: auto_set_psd_def up intro!: pub)
  qed
  have "P (rt_state (fst (connect_device env host rt)))" for env
  proof (cases "call_device (connect host (cn_open env) (cn_io env)) rt")
    case (Pair rt1 q)
    then have "P (rt_state rt1)" using state_call_device by (fastforce simp: P_def)
    then show ?thesis using Pair auto by (cases q) (auto simp: connect_device_def up intro!: pub)
  qed
  moreover have "\<exists>env. rt' = fst (connect_device env host rt)"
    using assms by (auto simp: connect_step_def Let_def split: prod.splits) (metis fst_conv)
  ultimately have "P (rt_state rt')" by blast
  then show "as_rx (rt_state rt') = as_rx (rt_state rt)" "as_frontend (rt_state rt') = as_frontend (rt_state rt)" by (simp_all add: P_def)
qed

lemma hello_run_op: "hello_fields (rt_device (fst (run_op op io now rt))) = hello_fields (rt_device rt)"
proof -
  let ?P = "\<lambda>s. hello_fields (rt_device s) = hello_fields (rt_device rt)"
  have pub: "?P (fst (sthen (publish_status n s) (\<lambda>_ s. (s, z))))" if "?P s" for n s and z :: "pydict result"
    by (rule sthen_keeps[where P = ?P]) (use that in simp_all)
  have st: "?P (map_state f s) = ?P s" for f s by (simp add: map_state_def)
  show ?thesis
  proof (cases op)
    case (OpFrontend kw)
    have "?P (fst (runtime_set_frontend io now kw rt))" unfolding runtime_set_frontend_def client_set_frontend_def
      by (rule sthen_keeps[where P = ?P]) (auto simp: hello_call st intro!: pub)
    then show ?thesis by (simp add: OpFrontend)
  next
    case (OpRx kw)
    have "?P (fst (runtime_set_rx io now kw rt))" unfolding runtime_set_rx_def client_set_rx_def
      by (rule sthen_keeps[where P = ?P]) (auto simp: hello_call st Let_def intro!: pub split: sum.splits)
    then show ?thesis by (simp add: OpRx)
  next
    case OpStop
    have "?P (fst (runtime_stop_all io now rt))" unfolding runtime_stop_all_def client_stop_all_call
      by (rule sthen_keeps[where P = ?P]) (auto simp: hello_call st intro!: pub split: pyval.splits)
    then show ?thesis by (simp add: OpStop)
  next
    case OpPing
    then show ?thesis by (auto simp: put_client_def heartbeat_tick_def hello_request split: prod.splits sum.splits)
  qed (simp add: hello_set_psd)
qed

section \<open>Both programs together\<close>

text \<open>Events of the backend that do not speak to the device.\<close>

fun is_data :: "rt_event \<Rightarrow> bool" where
  "is_data (IqPacket sp h p) = True"
| "is_data (PsdPacket h p) = True"
| "is_data (StatusReport now v) = True"
| "is_data (ErrorReport now e) = True"
| "is_data (Subscribe ch i) = True"
| "is_data (Unsubscribe ch i) = True"
| "is_data (TakeItem ch i) = True"
| "is_data (TakeSnapshot now) = True"
| "is_data _ = False"

text \<open>\<open>Call\<close> is a call of \<open>connect_device\<close>, on a connection the device knows as \<open>k\<close> from then on.\<close>

datatype sys_event = Call conn string int "string option" "nat \<Rightarrow> pyfloat" | Control conn int pyfloat control_op
  | DeviceEvent event | Data rt_event

fun sys_step :: "('c, 'f) numpy option \<Rightarrow> libm \<Rightarrow> (dest \<Rightarrow> exn option) \<Rightarrow>
    (('c, 'f) BackendRuntime \<times> FakeServer) option \<Rightarrow> sys_event \<Rightarrow> (('c, 'f) BackendRuntime \<times> FakeServer) option" where
  "sys_step numpy m net None e = None"
| "sys_step numpy m net (Some (rt, sv)) (Call k ip t host now) =
     (let (rt', sv', r) = connect_step k ip t host now rt sv in Some (rt', sv'))"
| "sys_step numpy m net (Some (rt, sv)) (Control k t now op) = (let (rt', sv', r) = control_step k t now op rt sv in Some (rt', sv'))"
| "sys_step numpy m net (Some (rt, sv)) (DeviceEvent e) = Some (rt, server_step m net sv e)"
| "sys_step numpy m net (Some (rt, sv)) (Data e) = map_option (\<lambda>rt'. (rt', sv)) (runtime_step numpy rt e)"

fun json_event :: "sys_event \<Rightarrow> bool" where
  "json_event (Call k ip t host now) = True"
| "json_event (Control k t now op) = json_op op"
| "json_event (DeviceEvent e) = True"
| "json_event (Data e) = is_data e"

definition views :: "('c, 'f) BackendRuntime \<Rightarrow> DeviceClient \<times> AppConfig \<times> pyval \<times> pyval" where
  "views rt = (rt_device rt, rt_config rt, as_rx (rt_state rt), as_frontend (rt_state rt))"

lemma views_publish:
  "views (fst (publish_status now rt)) = views rt" "views (fst (publish_spectrum d rt)) = views rt"
  by (simp_all add: publish_status_def publish_spectrum_def views_def split: prod.splits)

lemma views_audio: "views (fst (publish_audio frames rt)) = views rt"
proof (induction frames arbitrary: rt)
  case (Cons f fs)
  obtain b r where p: "publish f (rt_audio rt) = (b, r)" by fastforce
  have "views (rt\<lparr>rt_audio := b\<rparr>) = views rt" by (simp add: views_def)
  with Cons[of "rt\<lparr>rt_audio := b\<rparr>"] p show ?case by (cases r) (auto simp: sthen_def)
qed simp

lemma views_sthen:
  assumes "views (fst p) = v" and "\<And>x rt. views rt = v \<Longrightarrow> views (fst (h x rt)) = v"
  shows "views (fst (sthen p h)) = v"
  using assms by (cases p; cases "snd p") (auto simp: sthen_def)

lemma views_spectrum: "views (fst (compute_spectrum b sp h p rt)) = views rt"
proof -
  have "views (rt\<lparr>rt_waterfall := w\<rparr>) = views rt" for w by (simp add: views_def)
  then show ?thesis by (auto simp: compute_spectrum_def Let_def views_publish split: prod.splits sum.splits option.splits)
qed

lemma views_iq: "handle_iq numpy sp h p rt = Some (rt', r) \<Longrightarrow> views rt' = views rt"
proof -
  let ?rt1 = "map_state (ingest_iq_header h) rt"
  have st: "views ?rt1 = views rt" "\<And>d. views (?rt1\<lparr>rt_demod := d\<rparr>) = views rt"
    by (simp_all add: views_def map_state_def ingest_iq_header_def)
  have rest: "views (fst (sthen (?rt1\<lparr>rt_demod := d\<rparr>, q) (\<lambda>frames rt2. sthen (publish_audio frames rt2) (\<lambda>_. compute_spectrum b sp h p)))) = views rt"
    for d q b
    by (intro views_sthen) (simp_all add: st views_audio views_spectrum)
  assume hq: "handle_iq numpy sp h p rt = Some (rt', r)"
  show ?thesis
  proof (cases "py_get (as_rx (rt_state ?rt1)) ''mode'' (PStr ''WFM'')")
    case (Inl e)
    then show ?thesis using hq st(1) by (simp add: handle_iq_def Let_def)
  next
    case (Inr mode)
    then obtain dq where "process_sc16 numpy p (configure (py_str mode) (iq_iq_sample_rate_hz h) (rt_demod ?rt1)) = Some dq"
      using hq by (cases "process_sc16 numpy p (configure (py_str mode) (iq_iq_sample_rate_hz h) (rt_demod ?rt1))")
        (simp_all add: handle_iq_def Let_def)
    then have "(rt', r) = sthen (?rt1\<lparr>rt_demod := fst dq\<rparr>, snd dq) (\<lambda>frames rt2. sthen (publish_audio frames rt2)
        (\<lambda>_. compute_spectrum (numpy \<noteq> None) sp h p))"
      using hq Inr by (simp add: handle_iq_def Let_def split_def)
    from arg_cong[OF this, of "\<lambda>x. views (fst x)"] rest show ?thesis by simp
  qed
qed

lemma views_data:
  assumes "is_data e" and "runtime_step numpy rt e = Some rt'"
  shows "views rt' = views rt"
proof (cases e)
  case (IqPacket sp h p)
  then show ?thesis using assms(2) by (auto dest: views_iq)
next
  case (PsdPacket h p)
  have "views (rt\<lparr>rt_psd_reassembler := ra\<rparr>) = views rt"
    "views (map_state (\<lambda>s. s\<lparr>as_psd := f s\<rparr>) (rt\<lparr>rt_psd_reassembler := ra\<rparr>)) = views rt" for ra f
    by (simp_all add: views_def map_state_def)
  with PsdPacket assms(2) show ?thesis
    by (auto simp: handle_psd_def Let_def views_publish split: prod.splits sum.splits option.splits)
next
  case (Subscribe ch i)
  then show ?thesis using assms(2) by (cases ch) (auto simp: views_def)
next
  case (Unsubscribe ch i)
  then show ?thesis using assms(2) by (cases ch) (auto simp: views_def)
next
  case (TakeItem ch i)
  then show ?thesis using assms(2) by (cases ch) (auto simp: views_def)
next
  case (StatusReport now v)
  then show ?thesis using assms(2) by (auto simp: handle_status_def views_publish) (simp add: views_def map_state_def)
next
  case (ErrorReport now v)
  then show ?thesis using assms(2) by (auto simp: handle_error_def views_publish) (simp add: views_def map_state_def)
next
  case (TakeSnapshot now)
  then show ?thesis using assms(2) by (auto simp: runtime_snapshot_def Let_def) (simp add: views_def map_state_def)
qed (use assms(1) in simp_all)

definition sys_ok :: "(('c, 'f) BackendRuntime \<times> FakeServer) option \<Rightarrow> bool" where
  "sys_ok s \<longleftrightarrow> (\<exists>rt sv. s = Some (rt, sv) \<and> linked rt \<and> typed_state (rt_state rt) \<and> json_dict (hello_fields (rt_device rt)))"

lemma linked_views: "linked rt \<longleftrightarrow> rt_inv rt \<and> in_step (fst (views rt)) \<and> json_dict (ac_psd (fst (snd (views rt))))"
  by (simp add: linked_def views_def)

lemma typed_views: "typed_state (rt_state rt) \<longleftrightarrow> typed_dict (fst (snd (snd (views rt)))) \<and> typed_dict (snd (snd (snd (views rt))))"
  by (simp add: typed_state_def views_def)

lemma sys_ok_step:
  assumes "sys_ok s" and "json_event e"
  shows "sys_ok (sys_step numpy m net s e)"
proof -
  obtain rt sv where s: "s = Some (rt, sv)" and l: "linked rt" and ty: "typed_state (rt_state rt)" and h: "json_dict (hello_fields (rt_device rt))"
    using assms(1) by (auto simp: sys_ok_def)
  show ?thesis
  proof (cases e)
    case (Call k ip t host now)
    obtain rt' sv' r where c: "connect_step k ip t host now rt sv = (rt', sv', r)" using prod_cases3 by blast
    have "linked rt' \<and> hello_fields (rt_device rt') = hello_fields (rt_device rt)" using connect_step_linked[OF _ _ h c] l by (simp add: linked_def)
    moreover have "typed_state (rt_state rt')" using ty connect_step_views[OF c] by (simp add: typed_state_def)
    ultimately show ?thesis using h by (simp add: s Call c sys_ok_def)
  next
    case (Control k t now op)
    obtain rt' sv' r where c: "control_step k t now op rt sv = (rt', sv', r)" using prod_cases3 by blast
    have "linked rt' \<and> typed_state (rt_state rt')" using control_typed[OF l ty _ c] assms(2) Control by simp
    moreover obtain io where "run_op op io now rt = (rt', r)" using c by (auto simp: control_step_def Let_def split: prod.splits)
    then have "hello_fields (rt_device rt') = hello_fields (rt_device rt)" using hello_run_op[of op io now rt] by simp
    ultimately show ?thesis using h by (simp add: s Control c sys_ok_def)
  next
    case (DeviceEvent d)
    then show ?thesis using l ty h by (simp add: s sys_ok_def)
  next
    case (Data d)
    obtain rt' where rt': "runtime_step numpy rt d = Some rt'" "rt_inv rt'"
      using rt_inv_step[of rt numpy d] l by (auto simp: running_ok_def linked_def)
    have v: "views rt' = views rt" using views_data[OF _ rt'(1)] assms(2) Data by simp
    then have "linked rt'" "typed_state (rt_state rt')" using l ty rt'(2) by (simp_all add: linked_views typed_views)
    moreover have "rt_device rt' = rt_device rt" using v by (simp add: views_def)
    ultimately show ?thesis using rt'(1) h by (simp add: s Data sys_ok_def)
  qed
qed

interpretation sysm: guarded_machine "sys_step numpy m net" sys_ok json_event for numpy m net
  by unfold_locales (rule sys_ok_step)

text \<open>
  C6 (the views keep their types). From any state in which the backend is in step or not connected
  and its front end and stream views have the types of the protocol, whatever connections are made
  and lost, the browsers ask for, the device sends and does, and the subscribers do, in any order: no handler hangs,
  the backend stays in its bounds and in step, both views are dictionaries whose fields have the
  types of the protocol, and the handling of an IQ packet finds a mode that is a string.
\<close>

theorem views_keep_types:
  assumes "rt_inv rt" and "in_step (rt_device rt)" and "json_dict (ac_psd (rt_config rt))"
    and "typed_dict (as_rx (rt_state rt))" and "typed_dict (as_frontend (rt_state rt))" and "json_dict (hello_fields (rt_device rt))"
    and "list_all json_event es"
  shows "\<exists>rt' sv'. foldl (sys_step numpy m net) (Some (rt, sv)) es = Some (rt', sv') \<and> rt_inv rt' \<and> in_step (rt_device rt')
    \<and> typed_dict (as_rx (rt_state rt')) \<and> typed_dict (as_frontend (rt_state rt'))
    \<and> (\<exists>mode. py_get (as_rx (rt_state rt')) ''mode'' (PStr ''WFM'') = Inr (PStr mode))"
proof -
  have "sys_ok (Some (rt, sv))" using assms(1-6) by (simp add: sys_ok_def linked_def typed_state_def)
  from sysm.legal_run_inv[OF this assms(7), of numpy m net] obtain rt' sv' where
    "foldl (sys_step numpy m net) (Some (rt, sv)) es = Some (rt', sv')" "linked rt'" "typed_state (rt_state rt')"
    by (auto simp: sys_ok_def)
  with typed_mode[of "rt_state rt'"] show ?thesis by (auto simp: linked_def typed_state_def)
qed

theorem views_keep_types_witness:
  "\<exists>rt' sv'. foldl (sys_step (Some toy_numpy) flat_libm (\<lambda>d. None)) (Some (demo_runtime, idle_server))
      [Call 1 ''10.0.0.2'' 4 None (\<lambda>_. FFin 1), Control 1 5 (FFin 1) (OpRx [(''mode'', PStr ''AM'')]), DeviceEvent (IqTick (\<lambda>i n. FFin 0)),
       Data (IqPacket (\<lambda>_. Inr []) iq_default []), Control 1 6 (FFin 2) OpStop] = Some (rt', sv')
    \<and> typed_dict (as_rx (rt_state rt'))"
proof -
  have ty: "typed_dict (as_rx (rt_state demo_runtime))" "typed_dict (as_frontend (rt_state demo_runtime))"
    by (simp_all add: typed_dict_def demo_runtime_def runtime_init_def app_config_default_def RxConfig_def
        FrontendConfig_def) (rule exI[of _ True], rule TrueI)
  have st: "in_step (rt_device demo_runtime)" by (simp add: in_step_def demo_runtime_def runtime_init_def client_init_def)
  show ?thesis
    using views_keep_types[OF demo_runtime_inv st demo_hello(3) ty hello_sendable(2)[OF demo_hello(1)],
        of "[Call 1 ''10.0.0.2'' 4 None (\<lambda>_. FFin 1), Control 1 5 (FFin 1) (OpRx [(''mode'', PStr ''AM'')]),
        DeviceEvent (IqTick (\<lambda>i n. FFin 0)), Data (IqPacket (\<lambda>_. Inr []) iq_default []), Control 1 6 (FFin 2) OpStop]"
        "Some toy_numpy" flat_libm "\<lambda>d. None" idle_server]
    by (auto simp del: foldl.simps)
qed

section \<open>From the browser to the device\<close>

text \<open>The control operation behind a route of the web API.\<close>

definition web_op :: "string \<Rightarrow> pydict \<Rightarrow> control_op option" where
  "web_op path body =
     (if path = ''/api/frontend'' then Some (OpFrontend (frontend_fields body))
      else if path = ''/api/rx'' then Some (OpRx (rx_fields body))
      else if path = ''/api/psd'' then Some (OpPsd (Some body))
      else if path = ''/api/stop'' then Some OpStop else None)"

lemma plain_body: "read_json_body ms = Some body \<Longrightarrow> json_dict body"
proof -
  have "json_dict d" if "loads x = Inr (PDict d)" for x d using loads_value[OF that] by simp
  then have "json_dict (json_body b)" for b by (auto simp: json_body_def rbind_eq_Inr split: sum.splits pyval.splits)
  then show "read_json_body ms = Some body \<Longrightarrow> json_dict body" by (auto simp: read_json_body_def)
qed

lemma plain_web_op:
  assumes "json_dict body" and "web_op path body = Some op"
  shows "json_op op"
proof -
  have v: "json_value v" if "map_of body k = Some v" for k v
    using plain_dget[OF assms(1), of PNone k] that by (simp add: dget_def)
  have "json_dict (frontend_fields body)"
    by (auto simp: frontend_fields_def List.map_filter_def v split: option.splits if_splits)
  moreover have "json_dict (rx_fields body)" unfolding rx_fields_def
    by (intro plain_dupdate plain_filter assms(1)) simp
  ultimately show ?thesis using assms by (auto simp: web_op_def split: if_splits)
qed

lemma api_route_op:
  assumes "read_json_body ms = Some body" and "web_op path body = Some op"
  shows "api_route env ''POST'' path query ms = Some (Some (run_op op (he_io env) (he_now env)))"
proof -
  have "\<exists>b. read_body ms = Some b" using assms(1) by (auto simp: read_json_body_def)
  with assms show ?thesis by (auto simp: api_route_def web_op_def fun_eq_iff split: if_splits)
qed

lemma catch_http_status:
  assumes "catch_http (rbind r (json_response 200)) = Inr (ResponseStart status hs # rest)"
  shows "status = 200 \<and> (\<exists>resp. r = Inr resp) \<or> status = 502 \<and> (\<exists>e. r = Inl e \<and> subclass_of (exn_cls e) DeviceClientError)
    \<or> status = 500 \<and> (\<forall>e. r = Inl e \<longrightarrow> \<not> subclass_of (exn_cls e) DeviceClientError)"
proof (cases r)
  case (Inl e)
  then show ?thesis using assms
    by (auto simp: catch_http_def error_response_def json_response_def rbind_eq_Inr split: if_splits)
next
  case (Inr resp)
  show ?thesis
  proof (cases "json_response 200 resp")
    case Inr': (Inr out)
    then show ?thesis using assms Inr by (auto simp: catch_http_def json_response_def rbind_eq_Inr)
  next
    case Inl': (Inl e)
    then have "exn_cls e = UnicodeEncodeError" by (rule json_response_raises)
    then show ?thesis using assms Inr Inl'
      by (auto simp: catch_http_def error_response_def json_response_def rbind_eq_Inr subclass_of_def split: if_splits)
  qed
qed

text \<open>
  C4 (a browser controls the device). A request of a browser to one of the control routes,
  with the backend in step and the device answering: status 200 means that the
  state shown to the browsers is what the device is now set to, status 502 that the shown state is
  as before; the only other status is 500. The backend stays in its bounds and in step.
\<close>

theorem browser_controls_device:
  assumes "rt_inv rt" and "in_step (rt_device rt)" and "json_dict (ac_psd (rt_config rt))"
    and "py_upper meth = ''POST''" and "read_json_body ms = Some body" and "web_op path body = Some op"
    and "op_request op rt = Some (cmd, kw)" and "exchange k t cmd kw (rt_device rt) sv = (sv', he_io env)"
    and "http env meth path query ms rt = Some (rt', Inr (ResponseStart status hs # rest))"
  shows "rt_inv rt' \<and> in_step (rt_device rt') \<and> status \<in> {200, 500, 502}
    \<and> (status = 200 \<longrightarrow> mirrored op rt' sv') \<and> (status = 502 \<longrightarrow> rt_state rt' = rt_state rt)"
proof -
  obtain rt1 r where run: "run_op op (he_io env) (he_now env) rt = (rt1, r)" by fastforce
  have l: "linked rt" using assms(1-3) by (simp add: linked_def)
  have "control_step k t (he_now env) op rt sv = (rt1, sv', r)" using run assms(7,8) by (simp add: control_step_def)
  from control_outcome[OF l plain_web_op[OF plain_body[OF assms(5)] assms(6)] this] assms(7) have out: "outcome op rt rt1 sv' r" by simp
  have "rt' = rt1" and "catch_http (rbind r (json_response 200)) = Inr (ResponseStart status hs # rest)"
    using assms(4,9) run by (simp_all add: http_def api_route_op[OF assms(5,6)])
  note status = catch_http_status[OF this(2)]
  have "\<not> field_exn e" if "subclass_of (exn_cls e) DeviceClientError" for e
    using that by (cases "exn_cls e") (auto simp: field_exn_def subclass_of_def)
  then show ?thesis using status out \<open>rt' = rt1\<close> by (auto simp: outcome_def linked_def)
qed

lemma answered_stop:
  "\<exists>sv' io rt' resp. exchange 1 5 ''stop_all'' [] (rt_device linked_runtime) live_server = (sv', io)
     \<and> runtime_stop_all io now linked_runtime = (rt', Inr resp) \<and> encodable (PDict resp)"
proof -
  let ?c = "rt_device linked_runtime" and ?resp = "build_response (PInt 1) True []"
  have id: "dc_request_id ?c + 1 = 1" by (simp add: linked_runtime_def demo_client_def client_init_def)
  have send: "sendable_request (dc_request_id ?c + 1) ''stop_all'' []" by (rule sendable_requestI) (simp_all add: less_char_def)
  have run: "run_command (PInt (dc_request_id ?c + 1)) ''stop_all'' (build_request (dc_request_id ?c + 1) ''stop_all'' [])
      ''10.0.0.2'' 5 live_server = (stop_all live_server, Inr ?resp)" by (simp add: id run_command_def)
  have resp: "?resp = [(''request_id'', PInt 1), (''ok'', PBool True)]" by (subst build_response_eq) (simp_all add: dict_ok_def)
  have enc: "encodable (PDict ?resp)" unfolding resp by (simp add: less_char_def)
  from exchange_answered[OF linked_runtime_ok(2,3) send _ live_server_open run enc] obtain reply io c' where
    ex: "exchange 1 5 ''stop_all'' [] ?c live_server = (write_reply 1 reply (stop_all live_server), io)"
    "request io ''stop_all'' [] ?c = (c', accept_response 1 reply)"
    "decode_json_line reply = Inr ?resp" "reply \<noteq> []" unfolding id by auto
  have "accept_response 1 reply = Inr ?resp" using ex(3,4) unfolding resp by (simp add: accept_response_def dget_def)
  then have call: "call_device (client_stop_all io) linked_runtime = (put_client c' linked_runtime, Inr ?resp)"
    using ex(2) by (simp add: call_device_def client_stop_all_def)
  then have inv: "rt_inv (put_client c' linked_runtime)"
    using rt_inv_call_device[OF linked_runtime_ok(1), of "client_stop_all io"] by (simp add: client_stop_all_def client_inv_request)
  have rx: "as_rx (rt_state (put_client c' linked_runtime)) = PDict RxConfig"
    by (simp add: put_client_def linked_runtime_def demo_runtime_def runtime_init_def app_config_default_def)
  have "\<exists>rt'. runtime_stop_all io now linked_runtime = (rt', Inr ?resp)"
    using inv by (simp add: runtime_stop_all_def call rx sthen_publish_status)
  with ex(1) enc show ?thesis by blast
qed

theorem browser_controls_device_witness:
  "\<exists>env sv' rt' hs rest. http env ''post'' ''/api/stop'' [] [HttpRequest [] False] linked_runtime = Some (rt', Inr (ResponseStart 200 hs # rest))
     \<and> mirrored OpStop rt' sv' \<and> quiet sv'"
proof -
  obtain sv' io rt' resp where d: "exchange 1 5 ''stop_all'' [] (rt_device linked_runtime) live_server = (sv', io)"
    "runtime_stop_all io (he_now demo_http_env) linked_runtime = (rt', Inr resp)" "encodable (PDict resp)"
    using answered_stop by blast
  define env where "env = demo_http_env\<lparr>he_io := io\<rparr>"
  have env: "he_io env = io" "he_now env = he_now demo_http_env" by (simp_all add: env_def)
  have op: "py_upper ''post'' = ''POST''" by code_simp
  have body: "read_json_body [HttpRequest [] False] = Some []" by (simp add: read_json_body_def json_body_def)
  have web: "web_op ''/api/stop'' [] = Some OpStop" by (simp add: web_op_def)
  have req: "op_request OpStop linked_runtime = Some (''stop_all'', [])" by simp
  obtain hs rest where out: "json_response 200 resp = Inr (ResponseStart 200 hs # rest)"
    using json_response_total[OF d(3), of 200] by (auto simp: json_response_def rbind_eq_Inr)
  have h: "http env ''post'' ''/api/stop'' [] [HttpRequest [] False] linked_runtime = Some (rt', Inr (ResponseStart 200 hs # rest))"
    by (simp add: http_def op api_route_op[OF body web] env d(2) out catch_http_def)
  from browser_controls_device[OF linked_runtime_ok(1,5,4) op body web req d(1)[folded env(1)] h] h show ?thesis
    by (intro exI[of _ env] exI[of _ sv'] exI[of _ rt'] exI[of _ hs] exI[of _ rest]) simp
qed

end
