(* ===== verification/Network_Probe.thy ===== *)
theory Network_Probe
  imports Client_Server "HOL-Library.List_Lexorder"
begin

text \<open>
  \<^verbatim>\<open>tools/network_probe.py\<close>: a command line tool that walks through the protocol and prints what it finds.
  The network is an argument over a state of its own: binding the UDP sockets, connecting, sending on
  and reading a line from the control connection, receiving a datagram on a local port within the
  timeout, and closing. What \<open>print\<close> is given is collected in order.
\<close>

section \<open>The outside\<close>

record 's probe_net =
  pn_bind :: "string \<Rightarrow> int \<Rightarrow> exn option"
  pn_connect :: "string \<Rightarrow> int \<Rightarrow> 's \<Rightarrow> 's \<times> unit result"
  pn_sendall :: "bytes \<Rightarrow> 's \<Rightarrow> 's \<times> unit result"
  pn_readline :: "'s \<Rightarrow> 's \<times> bytes result"
  pn_recvfrom :: "int \<Rightarrow> 's \<Rightarrow> 's \<times> (bytes \<times> string \<times> int) result"
  pn_close :: "'s \<Rightarrow> 's"

record probe_args =
  pa_host :: string
  pa_control_port :: int
  pa_bind_host :: string
  pa_destination_ip :: "string option"
  pa_iq_port :: int
  pa_psd_port :: int
  pa_status_port :: int
  pa_skip_rx :: bool
  pa_skip_psd :: bool
  pa_skip_status :: bool
  pa_adc_channel :: int
  pa_frequency_hz :: int
  pa_iq_rate :: int
  pa_bandwidth_hz :: int
  pa_mode :: string

definition probe_args_default :: "string \<Rightarrow> probe_args" where
  "probe_args_default host = \<lparr>pa_host = host, pa_control_port = 9000, pa_bind_host = ''0.0.0.0'', pa_destination_ip = None,
     pa_iq_port = 9001, pa_psd_port = 9002, pa_status_port = 9003, pa_skip_rx = False, pa_skip_psd = False,
     pa_skip_status = False, pa_adc_channel = 0, pa_frequency_hz = 98500000, pa_iq_rate = 1000000,
     pa_bandwidth_hz = 250000, pa_mode = ''WFM''\<rparr>"

record 's probe =
  pb_world :: 's
  pb_printed :: "string list"

definition say :: "string \<Rightarrow> 's probe \<Rightarrow> 's probe" where
  "say text p = p\<lparr>pb_printed := pb_printed p @ [text]\<rparr>"

definition outside :: "('s \<Rightarrow> 's \<times> 'a) \<Rightarrow> 's probe \<Rightarrow> 's probe \<times> 'a" where
  "outside act p = (let (w, r) = act (pb_world p) in (p\<lparr>pb_world := w\<rparr>, r))"

section \<open>One request, one datagram\<close>

definition probe_response :: "int \<Rightarrow> string \<Rightarrow> bytes \<Rightarrow> pydict result" where
  "probe_response request_id cmd line =
     (if line = [] then Inl (Exn ProbeError (cmd @ '': device closed TCP control connection''))
      else rbind (decode_json_line line) (\<lambda>response.
        let got = dget response ''request_id'' PNone in
        if \<not> py_eq_int got request_id
        then Inl (Exn ProbeError (cmd @ '': response request_id '' @ py_str got @ '' != '' @ show_int request_id))
        else if \<not> py_bool (dget response ''ok'' (PBool False))
        then (let error = dget response ''error'' PNone in
              case (if py_bool error then error else PDict []) of
                PDict d \<Rightarrow> Inl (Exn ProbeError (cmd @ '': '' @
                  py_str (dget d ''code'' (PStr ''error'')) @ '': '' @ py_str (dget d ''message'' (PStr ''''))))
              | v \<Rightarrow> Inl (Exn AttributeError (repr_str (type_name v) @ '' object has no attribute '' @ repr_str ''get'')))
        else Inr response))"

definition probe_request :: "'s probe_net \<Rightarrow> int \<Rightarrow> string \<Rightarrow> pydict \<Rightarrow> 's probe \<Rightarrow> 's probe \<times> pydict result" where
  "probe_request net request_id cmd kw p =
     (case encode_json_line (build_request request_id cmd kw) of Inl e \<Rightarrow> (p, Inl e)
      | Inr line \<Rightarrow>
        sthen (outside (pn_sendall net line) p) (\<lambda>_ p.
        sthen (outside (pn_readline net) p) (\<lambda>reply p. (p, probe_response request_id cmd reply))))"

definition probe_recv :: "'s probe_net \<Rightarrow> int \<Rightarrow> string \<Rightarrow> 's probe \<Rightarrow> 's probe \<times> (bytes \<times> string \<times> int) result" where
  "probe_recv net port label p =
     (case outside (pn_recvfrom net port) p of
        (p1, Inl e) \<Rightarrow>
          if subclass_of (exn_cls e) TimeoutError then (p1, Inl (Exn ProbeError (label @ '': timed out waiting for UDP packet'')))
          else (p1, Inl e)
      | (p1, Inr d) \<Rightarrow> (p1, Inr d))"

definition json_summary :: "string \<Rightarrow> pydict \<Rightarrow> string" where
  "json_summary what response =
     (let keys = join '', '' (sort (filter (\<lambda>k. k \<notin> {''ok'', ''request_id''}) (map fst response)))
      in ''OK '' @ what @ '': request_id='' @ py_str (dget response ''request_id'' PNone) @ '' fields=['' @ keys @ '']'')"

definition peer :: "string \<times> int \<Rightarrow> string" where
  "peer addr = fst addr @ '':'' @ show_int (snd addr)"

section \<open>The steps of a run\<close>

definition probe_hello_fields :: "probe_args \<Rightarrow> pydict" where
  "probe_hello_fields a =
     [(''protocol_version'', PInt 1), (''client_name'', PStr ''network-probe''),
      (''udp'', PDict ([(''iq_port'', PInt (pa_iq_port a)), (''psd_port'', PInt (pa_psd_port a)),
          (''status_port'', PInt (pa_status_port a))] @
        (case pa_destination_ip a of Some ip \<Rightarrow> if ip \<noteq> [] then [(''destination_ip'', PStr ip)] else [] | None \<Rightarrow> [])))]"

definition probe_rx_fields :: "probe_args \<Rightarrow> pydict" where
  "probe_rx_fields a =
     [(''stream_id'', PInt 0), (''adc_channel'', PInt (pa_adc_channel a)), (''frequency_hz'', PInt (pa_frequency_hz a)),
      (''mode'', PStr (pa_mode a)), (''iq_sample_rate_hz'', PInt (pa_iq_rate a)), (''bandwidth_hz'', PInt (pa_bandwidth_hz a)),
      (''sample_format'', PStr ''SC16_LE''), (''enable'', PBool True)]"

definition probe_psd_fields :: pydict where
  "probe_psd_fields =
     [(''psd_id'', PInt 0), (''source'', PStr ''adc0''), (''enable'', PBool True), (''start_frequency_hz'', PInt 500000),
      (''stop_frequency_hz'', PInt 108000000), (''fft_size'', PInt 16384), (''output_bins'', PInt 4096), (''fps'', PInt 10),
      (''sample_format'', PStr ''I16_DBFS_Q8'')]"

text \<open>A request whose answer is summarised; the next request takes the next identifier.\<close>

definition ask :: "'s probe_net \<Rightarrow> string \<Rightarrow> pydict \<Rightarrow> int \<Rightarrow> 's probe \<Rightarrow> 's probe \<times> int result" where
  "ask net cmd kw request_id p =
     sthen (probe_request net request_id cmd kw p) (\<lambda>response p. (say (json_summary cmd response) p, Inr (request_id + 1)))"

definition probe_status :: "'s probe_net \<Rightarrow> probe_args \<Rightarrow> int \<Rightarrow> 's probe \<Rightarrow> 's probe \<times> int result" where
  "probe_status net a request_id p =
     (if pa_skip_status a then (p, Inr request_id)
      else sthen (probe_recv net (pa_status_port a) ''status'' p) (\<lambda>(data, addr) p.
        (say (''OK status UDP: '' @ show_int (int (length data)) @ '' bytes from '' @ peer addr) p, Inr request_id)))"

definition probe_iq :: "'s probe_net \<Rightarrow> probe_args \<Rightarrow> int \<Rightarrow> 's probe \<Rightarrow> 's probe \<times> int result" where
  "probe_iq net a request_id p =
     (if pa_skip_rx a then (p, Inr request_id)
      else sthen (ask net ''set_rx'' (probe_rx_fields a) request_id p) (\<lambda>request_id p.
        sthen (probe_recv net (pa_iq_port a) ''IQ'' p) (\<lambda>(data, addr) p.
        case iq_unpack (take IQ_HEADER_SIZE data) of Inl e \<Rightarrow> (p, Inl e)
        | Inr h \<Rightarrow>
          (say (''OK IQ UDP: '' @ show_int (int (length data)) @ '' bytes from '' @ peer addr @
             '' seq='' @ show_int (iq_seq h) @ '' samples='' @ show_int (iq_sample_count h) @
             '' rate='' @ show_int (iq_iq_sample_rate_hz h) @ '' payload='' @ show_int (iq_payload_bytes h)) p,
           Inr request_id))))"

definition probe_psd :: "'s probe_net \<Rightarrow> probe_args \<Rightarrow> int \<Rightarrow> 's probe \<Rightarrow> 's probe \<times> int result" where
  "probe_psd net a request_id p =
     (if pa_skip_psd a then (p, Inr request_id)
      else sthen (ask net ''set_psd'' probe_psd_fields request_id p) (\<lambda>request_id p.
        sthen (probe_recv net (pa_psd_port a) ''PSD'' p) (\<lambda>(data, addr) p.
        case psd_unpack (take PSD_HEADER_SIZE data) of Inl e \<Rightarrow> (p, Inl e)
        | Inr h \<Rightarrow>
          (say (''OK PSD UDP: '' @ show_int (int (length data)) @ '' bytes from '' @ peer addr @
             '' frame='' @ show_int (psd_frame_seq h) @ '' segment='' @ show_int (psd_segment_index h + 1) @ ''/'' @
             show_int (psd_segment_count h) @ '' bins='' @ show_int (psd_bin_count h) @ ''/'' @ show_int (psd_total_bins h)) p,
           Inr request_id))))"

definition probe_stop :: "'s probe_net \<Rightarrow> int \<Rightarrow> 's probe \<Rightarrow> 's probe \<times> int result" where
  "probe_stop net request_id p =
     sthen (probe_request net request_id ''stop_all'' [] p) (\<lambda>_ p. (say ''OK stop_all'' p, Inr 0))"

definition probe_session :: "'s probe_net \<Rightarrow> probe_args \<Rightarrow> 's probe \<Rightarrow> 's probe \<times> int result" where
  "probe_session net a p =
     sthen (ask net ''hello'' (probe_hello_fields a) 1 p) (\<lambda>request_id p.
     sthen (ask net ''ping'' [(''client_time_ms'', PInt 0)] request_id p) (\<lambda>request_id p.
     sthen (probe_status net a request_id p) (\<lambda>request_id p.
     sthen (probe_iq net a request_id p) (\<lambda>request_id p.
     sthen (probe_psd net a request_id p) (\<lambda>request_id p.
     probe_stop net request_id p)))))"

text \<open>The three sockets are bound outside of every \<open>try\<close>; \<open>with tcp\<close> closes the connection on every way out.\<close>

definition caught :: "exn \<Rightarrow> bool" where
  "caught e \<longleftrightarrow> subclass_of (exn_cls e) OSError \<or> subclass_of (exn_cls e) ValueError \<or> subclass_of (exn_cls e) ProbeError"

definition bind_errors :: "'s probe_net \<Rightarrow> probe_args \<Rightarrow> exn list" where
  "bind_errors net a = List.map_filter (pn_bind net (pa_bind_host a)) [pa_iq_port a, pa_psd_port a, pa_status_port a]"

definition run_probe :: "'s probe_net \<Rightarrow> probe_args \<Rightarrow> 's \<Rightarrow> 's probe \<times> int result" where
  "run_probe net a w =
     (let p0 = \<lparr>pb_world = w, pb_printed = []\<rparr> in
      case bind_errors net a of
        e # _ \<Rightarrow> (p0, Inl e)
      | [] \<Rightarrow>
        (let p1 = say (''TCP connect '' @ pa_host a @ '':'' @ show_int (pa_control_port a) @ '' ...'') p0 in
         case outside (pn_connect net (pa_host a) (pa_control_port a)) p1 of
           (p2, Inl e) \<Rightarrow>
             if subclass_of (exn_cls e) OSError
             then (say ''Hint: this board must run a PS-side TCP JSON server on port 9000.'' (say (''FAIL tcp: '' @ exn_str e) p2), Inr 1)
             else (p2, Inl e)
         | (p2, Inr _) \<Rightarrow>
           (case probe_session net a p2 of
              (p3, Inr code) \<Rightarrow> (p3\<lparr>pb_world := pn_close net (pb_world p3)\<rparr>, Inr code)
            | (p3, Inl e) \<Rightarrow>
                if caught e
                then let p4 = say (''FAIL probe: '' @ exn_str e) p3 in (p4\<lparr>pb_world := pn_close net (pb_world p4)\<rparr>, Inr 1)
                else (p3\<lparr>pb_world := pn_close net (pb_world p3)\<rparr>, Inl e))))"

section \<open>How a run ends\<close>

lemma sthen_Inr: "sthen m k = (s', Inr y) \<longleftrightarrow> (\<exists>s x. m = (s, Inr x) \<and> k x s = (s', Inr y))"
  by (cases m; cases "snd m") auto

lemma say_simps [simp]: "pb_printed (say text p) = pb_printed p @ [text]" "pb_world (say text p) = pb_world p"
  by (simp_all add: say_def)

lemma probe_stop_code: "probe_stop net i p = (p', Inr code) \<Longrightarrow> code = 0 \<and> pb_printed p' \<noteq> [] \<and> last (pb_printed p') = ''OK stop_all''"
  by (auto simp: probe_stop_def sthen_Inr say_def)

lemma probe_session_code:
  "probe_session net a p = (p', Inr code) \<Longrightarrow> code = 0 \<and> pb_printed p' \<noteq> [] \<and> last (pb_printed p') = ''OK stop_all''"
  unfolding probe_session_def sthen_Inr by (elim exE conjE) (rule probe_stop_code)

lemma map_filter_Cons: "List.map_filter f xs = e # es \<Longrightarrow> \<exists>x \<in> set xs. f x = Some e"
  by (induction xs) (auto simp: List.map_filter_simps split: option.splits)

text \<open>
  How the probe ends. A run ends with code 0 only after the last step succeeded, and says so; with
  code 1 it has printed a line that starts with \<open>FAIL\<close>; an exception that escapes is one of binding
  the UDP sockets, one of connecting that is no operating system error, or one that is neither an
  operating system error nor a \<open>ValueError\<close> nor the probe's own.
\<close>

theorem probe_exit:
  "case run_probe net a w of
     (p, Inr code) \<Rightarrow> code = 0 \<and> pb_printed p \<noteq> [] \<and> last (pb_printed p) = ''OK stop_all''
       \<or> code = 1 \<and> (\<exists>text \<in> set (pb_printed p). take 5 text = ''FAIL '')
   | (p, Inl e) \<Rightarrow> \<not> caught e \<or> (\<exists>port. pn_bind net (pa_bind_host a) port = Some e)
       \<or> snd (pn_connect net (pa_host a) (pa_control_port a) w) = Inl e \<and> \<not> subclass_of (exn_cls e) OSError"
proof (cases "bind_errors net a")
  case (Cons e es)
  then show ?thesis using map_filter_Cons[OF Cons[unfolded bind_errors_def]] by (auto simp: run_probe_def)
next
  case Nil
  define p1 where "p1 = say (''TCP connect '' @ pa_host a @ '':'' @ show_int (pa_control_port a) @ '' ...'') \<lparr>pb_world = w, pb_printed = []\<rparr>"
  note run = run_probe_def[of net a w, unfolded Let_def Nil list.case p1_def[symmetric]]
  obtain p2 r where c: "outside (pn_connect net (pa_host a) (pa_control_port a)) p1 = (p2, r)" by fastforce
  obtain p3 s where ses: "probe_session net a p2 = (p3, s)" by fastforce
  show ?thesis
  proof (cases r)
    case (Inl e)
    then have "snd (pn_connect net (pa_host a) (pa_control_port a) w) = Inl e"
      using c by (auto simp: outside_def p1_def split: prod.splits)
    then show ?thesis using Inl by (simp add: run c)
  next
    case (Inr u)
    show ?thesis
    proof (cases s)
      case (Inl e)
      then show ?thesis using Inr by (simp add: run c ses)
    next
      case (Inr code)
      then show ?thesis using \<open>r = Inr u\<close> probe_session_code[of net a p2 p3 code] ses by (simp add: run c)
    qed
  qed
qed

definition refusing_net :: "unit probe_net" where
  "refusing_net = \<lparr>pn_bind = (\<lambda>_ _. None), pn_connect = (\<lambda>_ _ w. (w, Inl (Exn OSError ''connection refused''))),
     pn_sendall = (\<lambda>_ w. (w, Inr ())), pn_readline = (\<lambda>w. (w, Inr [])), pn_recvfrom = (\<lambda>_ w. (w, Inl (Exn TimeoutError ''timed out''))),
     pn_close = id\<rparr>"

theorem probe_exit_witness:
  "\<exists>p. run_probe refusing_net (probe_args_default ''ac920'') () = (p, Inr 1)
     \<and> (\<exists>text \<in> set (pb_printed p). take 5 text = ''FAIL '')"
proof -
  obtain p where p: "run_probe refusing_net (probe_args_default ''ac920'') () = (p, Inr 1)"
    by (auto simp: run_probe_def bind_errors_def refusing_net_def outside_def Let_def subclass_of_def List.map_filter_simps)
  with probe_exit[of refusing_net "probe_args_default ''ac920''" "()"] show ?thesis by simp
qed

end
