(* ===== verification/Probe_Simulator.thy ===== *)
theory Probe_Simulator
  imports Network_Probe Server_Psd
begin

text \<open>
  The network probe on the simulated device: a test bench carries the probe's lines to the device's
  connection handler and its answers back, and lets each of the three loops of the device make a
  round whenever the probe waits for a datagram.
\<close>

section \<open>The test bench\<close>

record bench =
  bn_device :: FakeServer
  bn_unread :: "(dest \<times> bytes) list"
  bn_read :: nat

record bench_env =
  be_libm :: libm
  be_draws :: "int \<Rightarrow> nat \<Rightarrow> pyfloat"
  be_clock :: "int \<Rightarrow> int"
  be_time :: int

definition bench_ip :: string where "bench_ip = ''127.0.0.1''"

definition on_device :: "(FakeServer \<Rightarrow> FakeServer) \<Rightarrow> bench \<Rightarrow> bench" where
  "on_device act b = (let sv = bn_device b; sv' = act sv
     in b\<lparr>bn_device := sv', bn_unread := bn_unread b @ drop (length (sv_wire sv)) (sv_wire sv')\<rparr>)"

definition all_loops :: "bench_env \<Rightarrow> FakeServer \<Rightarrow> FakeServer" where
  "all_loops e sv = foldl (server_step (be_libm e) (\<lambda>_. None)) sv
     [StatusTick (be_time e), IqTick (be_draws e), PsdTick (be_clock e)]"

definition bench_readline :: "bench \<Rightarrow> bench \<times> bytes result" where
  "bench_readline b = (case drop (bn_read b) (filter (\<lambda>r. fst r = 0) (sv_replies (bn_device b))) of
     [] \<Rightarrow> (b, Inl (Exn TimeoutError ''timed out'')) | (c, line) # _ \<Rightarrow> (b\<lparr>bn_read := Suc (bn_read b)\<rparr>, Inr line))"

definition bench_recvfrom :: "bench_env \<Rightarrow> int \<Rightarrow> bench \<Rightarrow> bench \<times> (bytes \<times> string \<times> int) result" where
  "bench_recvfrom e port b =
     (let b1 = on_device (all_loops e) b
      in case find (\<lambda>w. snd (fst w) = port) (bn_unread b1) of
           None \<Rightarrow> (b1, Inl (Exn TimeoutError ''timed out''))
         | Some w \<Rightarrow> (b1\<lparr>bn_unread := remove1 w (bn_unread b1)\<rparr>, Inr (snd w, bench_ip, 40000)))"

definition bench_net :: "bench_env \<Rightarrow> bench probe_net" where
  "bench_net e = \<lparr>pn_bind = (\<lambda>_ _. None), pn_connect = (\<lambda>_ _ b. (on_device (accept_client 0 bench_ip) b, Inr ())),
     pn_sendall = (\<lambda>line b. (on_device (handle_line 0 line (be_time e)) b, Inr ())), pn_readline = bench_readline,
     pn_recvfrom = bench_recvfrom e, pn_close = on_device (handle_eof 0)\<rparr>"

section \<open>Requests over the bench\<close>

text \<open>The probe owns the device and has read every answer.\<close>

definition attached :: "bench \<Rightarrow> bool" where
  "attached b \<longleftrightarrow> (let sv = bn_device b in sv_owner sv = Some 0 \<and> sv_handlers sv = [(0, bench_ip)] \<and> sv_closing sv = []
     \<and> (\<forall>r \<in> set (sv_replies sv). fst r = 0) \<and> bn_read b = length (sv_replies sv))"

definition told :: "bytes \<Rightarrow> FakeServer \<Rightarrow> bench \<Rightarrow> bench" where
  "told reply sv b = \<lparr>bn_device = write_reply 0 reply sv, bn_unread = bn_unread b, bn_read = Suc (bn_read b)\<rparr>"

lemma attached_told:
  "attached b \<Longrightarrow> conns sv = conns (bn_device b) \<Longrightarrow> sv_replies sv = sv_replies (bn_device b) \<Longrightarrow> attached (told reply sv b)"
  by (auto simp: attached_def told_def write_reply_def conns_def Let_def)

lemma probe_response_ok:
  assumes "decode_json_line reply = Inr (build_response (PInt i) True fs)" and "reply \<noteq> []"
    and "{''ok'', ''request_id''} \<inter> set (map fst fs) = {}" and "dict_ok fs"
  shows "probe_response i cmd reply = Inr (build_response (PInt i) True fs)"
proof -
  have "build_response (PInt i) True fs = (''request_id'', PInt i) # (''ok'', PBool True) # fs"
    using assms(3,4) by (subst build_response_eq) auto
  then show ?thesis using assms(1,2) by (simp add: probe_response_def dget_def)
qed

lemma bench_request:
  assumes att: "attached b" and kw: "{''cmd'', ''request_id''} \<inter> set (map fst kw) = {}" "json_dict kw" "encodable (PDict kw)"
    and cmd: "utf8_valid cmd"
    and run: "run_command (PInt i) cmd (build_request i cmd kw) bench_ip (be_time e) (bn_device b) =
        (sv1, Inr (build_response (PInt i) True fs))"
    and fs: "{''ok'', ''request_id''} \<inter> set (map fst fs) = {}" "json_dict fs" "encodable (PDict fs)"
    and keep: "conns sv1 = conns (bn_device b)" "sv_replies sv1 = sv_replies (bn_device b)" "sv_wire sv1 = sv_wire (bn_device b)"
  shows "\<exists>reply. probe_request (bench_net e) i cmd kw (p\<lparr>pb_world := b\<rparr>) =
      (p\<lparr>pb_world := told reply sv1 b\<rparr>, Inr (build_response (PInt i) True fs))"
proof -
  let ?rq = "build_request i cmd kw" and ?resp = "build_response (PInt i) True fs"
  have rq: "?rq = (''request_id'', PInt i) # (''cmd'', PStr cmd) # kw"
    using kw(1,2) unfolding build_request_def by (subst dupdate_fresh) (auto simp: json_dict_def dict_ok_def)
  have resp: "?resp = (''request_id'', PInt i) # (''ok'', PBool True) # fs"
    using fs(1,2) by (subst build_response_eq) (auto simp: json_dict_def)
  obtain line where line: "encode_json_line ?rq = Inr line"
    using encode_encodable[of ?rq] kw(3) cmd by (auto simp: rq less_char_def)
  obtain reply where reply: "encode_json_line ?resp = Inr reply"
    using encode_encodable[of ?resp] fs(3) by (auto simp: resp less_char_def)
  have "decode_json_line line = Inr ?rq" using decode_encode[OF line] kw(2) plain_request by simp
  then have disp: "dispatch line bench_ip (be_time e) (bn_device b) = (sv1, Inr ?resp)"
    using run by (simp add: dispatch_def build_request_lookup[OF kw(1)] catch_field_errors_def)
  have h: "map_of (sv_handlers (bn_device b)) 0 = Some bench_ip" "sv_closing sv1 = []"
    using att keep(1) by (auto simp: attached_def conns_def Let_def)
  have handled: "handle_line 0 line (be_time e) (bn_device b) = write_reply 0 reply sv1"
    using h disp reply by (simp add: handle_line_def)
  have dec: "decode_json_line reply = Inr ?resp" using decode_encode[OF reply] fs(2) by simp
  have "reply \<noteq> []" using encode_a_line[OF reply] by (auto simp: a_line_def)
  then have acc: "probe_response i cmd reply = Inr ?resp"
    using probe_response_ok[OF dec _ fs(1)] fs(2) by (simp add: json_dict_def)
  have replies: "filter (\<lambda>r. fst r = 0) (sv_replies (bn_device b)) = sv_replies (bn_device b)"
    "bn_read b = length (sv_replies (bn_device b))"
    using att by (auto simp: attached_def Let_def filter_id_conv)
  have "bench_readline (on_device (handle_line 0 line (be_time e)) b) = (told reply sv1 b, Inr reply)"
    using replies keep by (simp add: bench_readline_def on_device_def handled write_reply_def told_def Let_def)
  moreover have "probe_request (bench_net e) i cmd kw (p\<lparr>pb_world := b\<rparr>) = (let b1 = on_device (handle_line 0 line (be_time e)) b;
      (b2, r) = bench_readline b1 in sthen (p\<lparr>pb_world := b2\<rparr>, r) (\<lambda>reply p. (p, probe_response i cmd reply)))"
    by (simp add: probe_request_def line outside_def bench_net_def Let_def split_def)
  ultimately show ?thesis by (auto simp: acc)
qed

section \<open>Status reports\<close>

lemma code_points_ascii: "ascii s \<Longrightarrow> code_points s = map of_char s"
proof (induction s)
  case (Cons c s)
  then have "c < CHR 0xC0" by (simp add: less_char_def)
  with Cons show ?case by simp
qed simp

lemma ascii_escape_code_point:
  assumes "c < CHR 0x80"
  shows "ascii (escape_code_point (of_char c))"
proof -
  have "(of_char c :: nat) < 128" using assms by (simp add: less_char_def)
  then have "(of_char c :: int) < 128" by (metis of_nat_less_iff of_nat_numeral of_nat_of_char)
  then have "escape_code_point (of_char c) = escape_char c \<or> escape_code_point (of_char c) = [c]"
    by (auto simp: escape_code_point_def)
  then show ?thesis using assms ascii_escape_char by auto
qed

lemma ascii_json_string: "ascii s \<Longrightarrow> ascii (json_string True s)"
  using ascii_escape_code_point by (fastforce simp: json_string_def code_points_ascii ascii_def less_char_def)

fun ascii_value :: "pyval \<Rightarrow> bool" where
  "ascii_value (PStr s) = ascii s"
| "ascii_value (PList vs) = list_all ascii_value vs"
| "ascii_value (PDict d) = list_all (\<lambda>(k, v). ascii k \<and> ascii_value v) d"
| "ascii_value _ = True"

lemma ascii_join: "ascii sep \<Longrightarrow> (\<And>s. s \<in> set ss \<Longrightarrow> ascii s) \<Longrightarrow> ascii (join sep ss)"
  by (induction sep ss rule: join.induct) auto

lemma ascii_dumps: "ascii_value v \<Longrightarrow> ascii (dumps True v)"
proof (induction v)
  case (PList vs)
  then have "ascii (join '','' (map (dumps True) vs))" by (intro ascii_join) (auto simp: list_all_iff less_char_def)
  then show ?case by (simp add: less_char_def)
next
  case (PDict d)
  then have "ascii (join '','' (map (\<lambda>(k, v). json_string True k @ '':'' @ dumps True v) d))"
    by (intro ascii_join) (fastforce simp: list_all_iff less_char_def ascii_json_string)+
  then show ?case by (simp add: less_char_def)
qed (simp_all add: ascii_json_string ascii_json_float less_char_def)

text \<open>A device whose texts are those of its defaults and of the probe's requests.\<close>

definition plain_texts :: "FakeServer \<Rightarrow> bool" where
  "plain_texts sv \<longleftrightarrow> ascii (fe_lna (sv_frontend sv)) \<and> ascii (fe_filter (sv_frontend sv)) \<and> ascii (pc_source (sv_psd_config sv))
     \<and> (\<forall>s \<in> set (map snd (sv_streams sv)). ascii (st_mode s))"

lemma status_tick_sends:
  assumes "plain_texts sv" and "sv_status_task sv = Running" and "sv_udp_status_dest sv = Some dest"
  shows "\<exists>payload. status_tick t (\<lambda>_. None) sv =
    sv\<lparr>sv_status_seq := sv_status_seq sv + 1, sv_wire := sv_wire sv @ [(dest, payload)]\<rparr>"
proof -
  let ?st = "snd (status_object t sv)"
  have "ascii_value (PDict ?st)"
    using assms(1)
    by (auto simp: status_object_def Let_def frontend_dict_def stream_status_def plain_texts_def enabled_streams_def
        list_all_iff less_char_def)
  from ascii_transparent[OF ascii_dumps[OF this], THEN transparent_valid]
  have "utf8_encode (dumps True (PDict ?st)) = Inr (bytes_of_text (dumps True (PDict ?st)))" by (simp add: utf8_encode_def)
  moreover have "fst (status_object t sv) = sv\<lparr>sv_status_seq := sv_status_seq sv + 1\<rparr>"
    by (simp add: status_object_def Let_def)
  ultimately show ?thesis using assms(2,3)
    by (auto simp: status_tick_def sendto_def split_def simp del: dumps.simps)
qed

section \<open>What the probe's commands do\<close>

definition udp_set :: "FakeServer \<Rightarrow> FakeServer" where
  "udp_set sv = sv\<lparr>sv_udp_dest := Some (bench_ip, 9001), sv_udp_psd_dest := Some (bench_ip, 9002),
     sv_udp_status_dest := Some (bench_ip, 9003)\<rparr>"

definition probe_hello_answer :: pydict where
  "probe_hello_answer = [(''protocol_version'', PInt 1), (''device'', PDict hello_device), (''limits'', PDict hello_limits)]"

lemma hello_runs:
  "run_command (PInt i) ''hello'' (build_request i ''hello'' (probe_hello_fields (probe_args_default host))) bench_ip t sv =
     (udp_set sv, Inr (build_response (PInt i) True probe_hello_answer))"
  by (simp add: run_command_def cmd_hello_def build_request_def dupdate_def probe_hello_fields_def probe_args_default_def dget_def
      port_of_def dgetitem_def udp_set_def probe_hello_answer_def bench_ip_def Let_def)

lemma ping_runs:
  "run_command (PInt i) ''ping'' (build_request i ''ping'' [(''client_time_ms'', PInt 0)]) bench_ip t sv =
     (sv, Inr (build_response (PInt i) True [(''client_time_ms'', PInt 0), (''device_time_ms'', PInt t)]))"
  by (simp add: run_command_def build_request_def dupdate_def dget_def)

definition rx_on :: "FakeServer \<Rightarrow> FakeServer" where
  "rx_on sv = sv\<lparr>sv_streams := [(0, live_stream), (1, stream_state_init 1)], sv_tx_task := Running\<rparr>"

lemma set_rx_runs:
  assumes "sv_streams sv = [(0, stream_state_init 0), (1, stream_state_init 1)]" and "sv_tx_task sv = NoTask"
  shows "run_command (PInt i) ''set_rx'' (build_request i ''set_rx'' (probe_rx_fields (probe_args_default host))) bench_ip t sv =
     (rx_on sv, Inr (build_response (PInt i) True [(''applied'', PDict (applied_rx live_stream 250))]))"
  using assms
  by (simp add: run_command_def cmd_set_rx_def configure_stream_def build_request_def dupdate_def probe_rx_fields_def
      probe_args_default_def dget_def put_stream_def rx_on_def live_stream_def stream_state_init_def reset_for_enable_def
      RATES_def decimation_def start_task_def applied_rx_def)

definition psd_on :: "FakeServer \<Rightarrow> FakeServer" where
  "psd_on sv = sv\<lparr>sv_psd_config := psd_settings_init\<lparr>pc_enable := True, pc_enabled := True\<rparr>, sv_psd_frame_seq := 0,
     sv_psd_first_frame := True, sv_psd_task := Running\<rparr>"

lemma set_psd_runs:
  assumes "sv_psd_task sv = NoTask"
  shows "run_command (PInt i) ''set_psd'' (build_request i ''set_psd'' probe_psd_fields) bench_ip t sv =
     (psd_on sv, Inr (build_response (PInt i) True
        [(''applied'', PDict (psd_config_dict (psd_settings_init\<lparr>pc_enable := True, pc_enabled := True\<rparr>)))]))"
  using assms
  by (simp add: run_command_def cmd_set_psd_def requested_psd_def build_request_def dupdate_def probe_psd_fields_def dget_def
      psd_on_def psd_settings_init_def start_task_def)

lemma stop_runs:
  "run_command (PInt i) ''stop_all'' (build_request i ''stop_all'' []) bench_ip t sv =
     (stop_all sv, Inr (build_response (PInt i) True []))"
  by (simp add: run_command_def)

lemma bench_ask:
  assumes "attached b" and "{''cmd'', ''request_id''} \<inter> set (map fst kw) = {}" "json_dict kw" "encodable (PDict kw)" "utf8_valid cmd"
    and "run_command (PInt i) cmd (build_request i cmd kw) bench_ip (be_time e) (bn_device b) =
        (sv1, Inr (build_response (PInt i) True fs))"
    and "{''ok'', ''request_id''} \<inter> set (map fst fs) = {}" "json_dict fs" "encodable (PDict fs)"
    and "conns sv1 = conns (bn_device b)" "sv_replies sv1 = sv_replies (bn_device b)" "sv_wire sv1 = sv_wire (bn_device b)"
    and "pb_world p = b"
  shows "\<exists>reply q. ask (bench_net e) cmd kw i p = (q, Inr (i + 1)) \<and> pb_world q = told reply sv1 b \<and> attached (told reply sv1 b)"
proof -
  have "p = p\<lparr>pb_world := b\<rparr>" using assms(13) by simp
  with bench_request[OF assms(1-12), of p] obtain reply where
    "probe_request (bench_net e) i cmd kw p = (p\<lparr>pb_world := told reply sv1 b\<rparr>, Inr (build_response (PInt i) True fs))" by metis
  then show ?thesis using attached_told[OF assms(1,10,11)] by (auto simp: ask_def)
qed

section \<open>Datagrams over the bench\<close>

lemma bench_recv:
  assumes "all_loops e (bn_device b) = sv'" and "sv_wire sv' = sv_wire (bn_device b) @ ws"
    and "bn_unread b @ ws = us @ (d, data) # vs" and "snd d = port" and "\<forall>w \<in> set us. snd (fst w) \<noteq> port"
    and "pb_world p = b"
  shows "probe_recv (bench_net e) port label p =
    (p\<lparr>pb_world := b\<lparr>bn_device := sv', bn_unread := us @ vs\<rparr>\<rparr>, Inr (data, bench_ip, 40000))"
proof -
  have "find (\<lambda>w. snd (fst w) = port) (us @ (d, data) # vs) = Some (d, data)"
    using assms(4,5) by (induction us) auto
  moreover have "remove1 (d, data) (us @ (d, data) # vs) = us @ vs"
    using assms(4,5) by (subst remove1_append) auto
  ultimately have "bench_recvfrom e port b = (b\<lparr>bn_device := sv', bn_unread := us @ vs\<rparr>, Inr (data, bench_ip, 40000))"
    using assms(1-3) by (simp add: bench_recvfrom_def on_device_def Let_def)
  then show ?thesis using assms(6) by (simp add: probe_recv_def outside_def bench_net_def)
qed

text \<open>The device reports its status to the probe.\<close>

definition reporting :: "FakeServer \<Rightarrow> bool" where
  "reporting sv \<longleftrightarrow> plain_texts sv \<and> sv_status_task sv = Running \<and> sv_udp_status_dest sv = Some (bench_ip, 9003)"

lemma all_loops_idle:
  assumes "reporting sv" and "sv_tx_task sv = NoTask" and "sv_psd_task sv = NoTask"
  shows "\<exists>pl. all_loops e sv = sv\<lparr>sv_status_seq := sv_status_seq sv + 1, sv_wire := sv_wire sv @ [((bench_ip, 9003), pl)]\<rparr>"
proof -
  obtain pl where "status_tick (be_time e) (\<lambda>_. None) sv =
      sv\<lparr>sv_status_seq := sv_status_seq sv + 1, sv_wire := sv_wire sv @ [((bench_ip, 9003), pl)]\<rparr>"
    using status_tick_sends assms(1) unfolding reporting_def by blast
  then show ?thesis using assms(2,3) by (auto simp: all_loops_def iq_tick_def psd_tick_def Let_def)
qed

lemma status_iq_ticks:
  assumes rep: "reporting sv" and st: "streaming (\<lambda>_. None) i s (bench_ip, 9001) sv"
    and env: "libm_ok (be_libm e)" "draws_ok (be_draws e i)" and drop: "cfg_drop_every (sv_config sv) \<le> 0"
  shows "\<exists>pl h osc w s' sv2. iq_tick (be_libm e) (be_draws e) (\<lambda>_. None) (status_tick (be_time e) (\<lambda>_. None) sv) = sv2
    \<and> sv2 = sv\<lparr>sv_status_seq := sv_status_seq sv + 1, sv_streams := dset (sv_streams sv) i (stream_at (sv_config sv) s 1 osc),
         sv_iq_packets_sent := sv_iq_packets_sent sv + 1, sv_wire := sv_wire sv @ [((bench_ip, 9003), pl), w]\<rparr>
    \<and> datagram_of (bench_ip, 9001) h w \<and> streaming (\<lambda>_. None) i s' (bench_ip, 9001) sv2 \<and> reporting sv2"
proof -
  obtain pl where tick: "status_tick (be_time e) (\<lambda>_. None) sv =
      sv\<lparr>sv_status_seq := sv_status_seq sv + 1, sv_wire := sv_wire sv @ [((bench_ip, 9003), pl)]\<rparr>" (is "_ = ?sv1")
    using status_tick_sends rep unfolding reporting_def by blast
  have st1: "streaming (\<lambda>_. None) i s (bench_ip, 9001) ?sv1" using st by (simp add: streaming_def active_streams_def)
  let ?sv2 = "iq_tick (be_libm e) (be_draws e) (\<lambda>_. None) ?sv1"
  have af: "after_packets i s (bench_ip, 9001) 1 ?sv1 ?sv2"
    using iq_run[OF env(1) st1, of "[be_draws e]"] env(2) by simp
  have "filter (kept ?sv1) [0..<1] = [0]" using drop by (simp add: kept_def)
  then obtain osc w where sv2: "?sv2 = ?sv1\<lparr>sv_streams := dset (sv_streams ?sv1) i (stream_at (sv_config ?sv1) s 1 osc),
      sv_iq_packets_sent := sv_iq_packets_sent ?sv1 + 1, sv_wire := sv_wire ?sv1 @ [w]\<rparr>"
    and w: "datagram_of (bench_ip, 9001) (nth_header (sv_config ?sv1) s 0) w"
    using af by (auto simp: after_packets_def list_all2_Cons1)
  obtain s' where s': "streaming (\<lambda>_. None) i s' (bench_ip, 9001) ?sv2" using streaming_after[OF st1 af] by blast
  have "(i, s) \<in> set (sv_streams sv)" using streaming_map_of[OF st] by (rule map_of_SomeD)
  then have "ascii (st_mode s)" using rep by (force simp: reporting_def plain_texts_def)
  then have "reporting ?sv2" using rep
    by (auto simp: reporting_def plain_texts_def sv2 stream_at_def dest!: in_set_dset)
  then show ?thesis using sv2 w s' tick by (intro exI conjI) (auto simp del: fun_upd_apply)
qed

lemma all_loops_receiving:
  assumes "reporting sv" and "streaming (\<lambda>_. None) i s (bench_ip, 9001) sv" and "sv_psd_task sv = NoTask"
    and "libm_ok (be_libm e)" "draws_ok (be_draws e i)" and "cfg_drop_every (sv_config sv) \<le> 0"
  shows "\<exists>pl h osc w s' sv2. all_loops e sv = sv2
    \<and> sv2 = sv\<lparr>sv_status_seq := sv_status_seq sv + 1, sv_streams := dset (sv_streams sv) i (stream_at (sv_config sv) s 1 osc),
         sv_iq_packets_sent := sv_iq_packets_sent sv + 1, sv_wire := sv_wire sv @ [((bench_ip, 9003), pl), w]\<rparr>
    \<and> datagram_of (bench_ip, 9001) h w \<and> streaming (\<lambda>_. None) i s' (bench_ip, 9001) sv2 \<and> reporting sv2"
proof -
  have idle: "psd_tick (be_clock e) (\<lambda>_. None) sv2 = sv2" if "sv_psd_task sv2 = NoTask" for sv2
    using that by (simp add: psd_tick_def)
  have "all_loops e sv = psd_tick (be_clock e) (\<lambda>_. None)
      (iq_tick (be_libm e) (be_draws e) (\<lambda>_. None) (status_tick (be_time e) (\<lambda>_. None) sv))" by (simp add: all_loops_def)
  moreover note status_iq_ticks[OF assms(1,2,4,5,6)]
  ultimately show ?thesis using idle assms(3) by fastforce
qed

lemma all_loops_measuring:
  assumes "reporting sv" and "streaming (\<lambda>_. None) i s (bench_ip, 9001) sv" and "psd_ready (\<lambda>_. None) (bench_ip, 9002) sv"
    and "libm_ok (be_libm e)" "draws_ok (be_draws e i)" and "cfg_drop_every (sv_config sv) \<le> 0" and "clock_ok (be_clock e)"
  shows "\<exists>sv3 pl w bs data h ws. all_loops e sv = sv3 \<and> conns sv3 = conns sv \<and> sv_replies sv3 = sv_replies sv
    \<and> sv_wire sv3 = sv_wire sv @ [((bench_ip, 9003), pl), ((bench_ip, 9001), w)] @ ((bench_ip, 9002), bs @ data) # ws
    \<and> psd_pack h = Inr bs"
proof -
  obtain pl h osc w s' sv2 where sv2: "iq_tick (be_libm e) (be_draws e) (\<lambda>_. None) (status_tick (be_time e) (\<lambda>_. None) sv) = sv2"
    "sv2 = sv\<lparr>sv_status_seq := sv_status_seq sv + 1, sv_streams := dset (sv_streams sv) i (stream_at (sv_config sv) s 1 osc),
         sv_iq_packets_sent := sv_iq_packets_sent sv + 1, sv_wire := sv_wire sv @ [((bench_ip, 9003), pl), w]\<rparr>"
    "datagram_of (bench_ip, 9001) h w"
    using status_iq_ticks[OF assms(1,2,4,5,6)] by blast
  have "psd_ready (\<lambda>_. None) (bench_ip, 9002) sv2" using assms(3) by (simp add: psd_ready_def sv2(2))
  then obtain sp flags bins where tick: "psd_tick (be_clock e) (\<lambda>_. None) sv2 = sv2\<lparr>sv_psd_first_frame := False,
        sv_wire := sv_wire sv2 @ map (\<lambda>i. ((bench_ip, 9002), frame_datagram sv2 (be_clock e) sp flags bins i)) [0..<8],
        sv_psd_packets_sent := sv_psd_packets_sent sv2 + 8, sv_psd_frame_seq := mask32 (sv_psd_frame_seq sv2 + 1)\<rparr>"
    and pk: "\<forall>i < 8. \<exists>bs. psd_pack (frame_header sv2 (be_clock e) sp flags bins i) = Inr bs"
    using psd_tick_ok[OF _ assms(7)] by metis
  obtain bs where bs: "psd_pack (frame_header sv2 (be_clock e) sp flags bins 0) = Inr bs" using pk by fastforce
  have up: "[0..<8 :: nat] = 0 # [1..<8]" by (simp add: upt_rec)
  have dg: "frame_datagram sv2 (be_clock e) sp flags bins 0 = bs @ seg_bytes bins 0" by (simp add: frame_datagram_def bs)
  have loops: "all_loops e sv = psd_tick (be_clock e) (\<lambda>_. None) sv2" by (simp add: all_loops_def sv2(1))
  obtain w' where w': "w = ((bench_ip, 9001), w')" using sv2(3) by (auto simp: datagram_of_def)
  let ?ws = "map (\<lambda>i. ((bench_ip, 9002), frame_datagram sv2 (be_clock e) sp flags bins i)) [1..<8]"
  have wire: "sv_wire (all_loops e sv) = sv_wire sv @ [((bench_ip, 9003), pl), ((bench_ip, 9001), w')]
      @ ((bench_ip, 9002), bs @ seg_bytes bins 0) # ?ws"
  proof -
    have "sv_wire sv2 = sv_wire sv @ [((bench_ip, 9003), pl), ((bench_ip, 9001), w')]" by (simp add: sv2(2) w')
    then show ?thesis unfolding loops tick up by (simp add: dg)
  qed
  have "conns (all_loops e sv) = conns sv \<and> sv_replies (all_loops e sv) = sv_replies sv"
    unfolding loops tick by (simp add: sv2(2) conns_def)
  with wire bs show ?thesis by blast
qed

section \<open>The whole run\<close>

lemma attached_after:
  "attached b \<Longrightarrow> conns sv = conns (bn_device b) \<Longrightarrow> sv_replies sv = sv_replies (bn_device b) \<Longrightarrow>
   attached (b\<lparr>bn_device := sv, bn_unread := us\<rparr>)"
  by (auto simp: attached_def conns_def Let_def)

lemma hello_step:
  assumes "attached b" and "pb_world p = b"
  shows "\<exists>reply q. ask (bench_net e) ''hello'' (probe_hello_fields (probe_args_default host)) 1 p = (q, Inr 2)
    \<and> pb_world q = told reply (udp_set (bn_device b)) b \<and> attached (told reply (udp_set (bn_device b)) b)"
  using bench_ask[OF assms(1) _ _ _ _ hello_runs[where i = 1 and host = host] _ _ _ _ _ _ assms(2), where e = e]
  by (simp add: probe_hello_fields_def probe_args_default_def probe_hello_answer_def hello_device_def hello_limits_def udp_set_def
      conns_def less_char_def)

lemma ping_step:
  assumes "attached b" and "pb_world p = b"
  shows "\<exists>reply q. ask (bench_net e) ''ping'' [(''client_time_ms'', PInt 0)] 2 p = (q, Inr 3)
    \<and> pb_world q = told reply (bn_device b) b \<and> attached (told reply (bn_device b) b)"
  using bench_ask[OF assms(1) _ _ _ _ ping_runs[where i = 2] _ _ _ _ _ _ assms(2), where e = e] by (simp add: less_char_def)

lemma set_rx_step:
  assumes "attached b" and "pb_world p = b"
    and "sv_streams (bn_device b) = [(0, stream_state_init 0), (1, stream_state_init 1)]" and "sv_tx_task (bn_device b) = NoTask"
  shows "\<exists>reply q. ask (bench_net e) ''set_rx'' (probe_rx_fields (probe_args_default host)) 3 p = (q, Inr 4)
    \<and> pb_world q = told reply (rx_on (bn_device b)) b \<and> attached (told reply (rx_on (bn_device b)) b)"
  using bench_ask[OF assms(1) _ _ _ _ set_rx_runs[OF assms(3,4), where i = 3 and host = host] _ _ _ _ _ _ assms(2), where e = e]
  by (simp add: probe_rx_fields_def probe_args_default_def rx_on_def conns_def less_char_def applied_rx_def live_stream_def
      stream_state_init_def)

lemma set_psd_step:
  assumes "attached b" and "pb_world p = b" and "sv_psd_task (bn_device b) = NoTask"
  shows "\<exists>reply q. ask (bench_net e) ''set_psd'' probe_psd_fields 4 p = (q, Inr 5)
    \<and> pb_world q = told reply (psd_on (bn_device b)) b \<and> attached (told reply (psd_on (bn_device b)) b)"
  using bench_ask[OF assms(1) _ _ _ _ set_psd_runs[OF assms(3), where i = 4] _ _ _ _ _ _ assms(2), where e = e]
  by (simp add: probe_psd_fields_def psd_on_def conns_def less_char_def psd_config_dict_def psd_settings_init_def)

lemma stop_step:
  assumes "attached b" and "pb_world p = b"
  shows "\<exists>q. probe_stop (bench_net e) 5 p = (q, Inr 0) \<and> attached (pb_world q)"
proof -
  have p: "p = p\<lparr>pb_world := b\<rparr>" using assms(2) by simp
  have keep: "conns (stop_all (bn_device b)) = conns (bn_device b)" "sv_replies (stop_all (bn_device b)) = sv_replies (bn_device b)"
    "sv_wire (stop_all (bn_device b)) = sv_wire (bn_device b)" by (simp_all add: stop_all_def conns_def)
  have "\<exists>reply. probe_request (bench_net e) 5 ''stop_all'' [] (p\<lparr>pb_world := b\<rparr>) =
      (p\<lparr>pb_world := told reply (stop_all (bn_device b)) b\<rparr>, Inr (build_response (PInt 5) True []))"
    by (rule bench_request[OF assms(1) _ _ _ _ stop_runs _ _ _ keep]) (simp_all add: less_char_def)
  then obtain reply where "probe_request (bench_net e) 5 ''stop_all'' [] p =
      (p\<lparr>pb_world := told reply (stop_all (bn_device b)) b\<rparr>, Inr (build_response (PInt 5) True []))" using p by metis
  then show ?thesis using attached_told[OF assms(1) keep(1,2)] by (simp add: probe_stop_def)
qed

text \<open>A step that receives a datagram and reads its header.\<close>

lemma iq_step:
  assumes att: "attached b" and w: "pb_world p = b" and un: "bn_unread b = []"
    and st: "sv_streams (bn_device b) = [(0, stream_state_init 0), (1, stream_state_init 1)]" "sv_tx_task (bn_device b) = NoTask"
      "sv_psd_task (bn_device b) = NoTask" "sv_udp_dest (bn_device b) = Some (bench_ip, 9001)" "reporting (bn_device b)"
    and cfg: "count_ok (sv_config (bn_device b))" "cfg_drop_every (sv_config (bn_device b)) \<le> 0"
    and env: "libm_ok (be_libm e)" "draws_ok (be_draws e 0)"
  shows "\<exists>q pl sv s. probe_iq (bench_net e) (probe_args_default host) 3 p = (q, Inr 4) \<and> attached (pb_world q)
    \<and> bn_unread (pb_world q) = [((bench_ip, 9003), pl)] \<and> bn_device (pb_world q) = sv \<and> reporting sv
    \<and> streaming (\<lambda>_. None) 0 s (bench_ip, 9001) sv \<and> sv_psd_task sv = NoTask \<and> sv_config sv = sv_config (bn_device b)
    \<and> sv_udp_psd_dest sv = sv_udp_psd_dest (bn_device b)"
proof -
  obtain reply q1 where ask: "ask (bench_net e) ''set_rx'' (probe_rx_fields (probe_args_default host)) 3 p = (q1, Inr 4)"
    and q1: "pb_world q1 = told reply (rx_on (bn_device b)) b" and att1: "attached (told reply (rx_on (bn_device b)) b)"
    using set_rx_step[OF att w st(1,2)] by blast
  let ?b1 = "told reply (rx_on (bn_device b)) b"
  let ?sv1 = "bn_device ?b1"
  have rep: "reporting ?sv1"
    using st(5) by (simp add: told_def rx_on_def write_reply_def reporting_def plain_texts_def live_stream_def
        stream_state_init_def less_char_def)
  have str: "streaming (\<lambda>_. None) 0 live_stream (bench_ip, 9001) ?sv1"
    using st(4) cfg(1) by (simp add: streaming_def told_def rx_on_def write_reply_def live_stream_def dict_ok_def
        active_streams_def sendable_def stream_state_init_def oscillator_init_ok RATES_def)
  have dev: "sv_psd_task ?sv1 = NoTask" "cfg_drop_every (sv_config ?sv1) \<le> 0" "sv_config ?sv1 = sv_config (bn_device b)"
      "sv_udp_psd_dest ?sv1 = sv_udp_psd_dest (bn_device b)"
    using st(3) cfg(2) by (simp_all add: told_def rx_on_def write_reply_def)
  obtain pl h osc wd s' sv2 where loops: "all_loops e ?sv1 = sv2"
    and sv2: "sv2 = ?sv1\<lparr>sv_status_seq := sv_status_seq ?sv1 + 1, sv_streams := dset (sv_streams ?sv1) 0 (stream_at (sv_config ?sv1) live_stream 1 osc),
         sv_iq_packets_sent := sv_iq_packets_sent ?sv1 + 1, sv_wire := sv_wire ?sv1 @ [((bench_ip, 9003), pl), wd]\<rparr>"
    and dg: "datagram_of (bench_ip, 9001) h wd" and str2: "streaming (\<lambda>_. None) 0 s' (bench_ip, 9001) sv2" "reporting sv2"
    using all_loops_receiving[OF rep str dev(1) env dev(2)] by blast
  obtain bs pay where wd: "wd = ((bench_ip, 9001), bs @ pay)" "iq_pack h = Inr bs" "iq_payload_bytes h = int (length pay)"
    using dg by (auto simp: datagram_of_def)
  have split: "bn_unread ?b1 @ [((bench_ip, 9003), pl), wd] = [((bench_ip, 9003), pl)] @ ((bench_ip, 9001), bs @ pay) # []"
    using un by (simp add: told_def wd(1))
  have recv: "probe_recv (bench_net e) 9001 ''IQ'' q1 =
      (q1\<lparr>pb_world := ?b1\<lparr>bn_device := sv2, bn_unread := [((bench_ip, 9003), pl)] @ []\<rparr>\<rparr>, Inr (bs @ pay, bench_ip, 40000))"
    by (rule bench_recv[OF loops _ split _ _ q1]) (simp_all add: sv2)
  have unpack: "iq_unpack (take IQ_HEADER_SIZE (bs @ pay)) = Inr h"
    using iqc.datagram_split(1)[OF wd(2,3), of "[]"] by simp
  have "attached (?b1\<lparr>bn_device := sv2, bn_unread := [((bench_ip, 9003), pl)]\<rparr>)"
    by (rule attached_after[OF att1]) (simp_all add: sv2 conns_def)
  then show ?thesis using ask recv unpack str2 dev
    by (auto simp: probe_iq_def probe_args_default_def sv2)
qed

lemma psd_step:
  assumes att: "attached b" and w: "pb_world p = b" and un: "bn_unread b = [((bench_ip, 9003), pl)]"
    and st: "reporting (bn_device b)" "streaming (\<lambda>_. None) 0 s (bench_ip, 9001) (bn_device b)" "sv_psd_task (bn_device b) = NoTask"
      "cfg_drop_every (sv_config (bn_device b)) \<le> 0" "sv_udp_psd_dest (bn_device b) = Some (bench_ip, 9002)"
    and env: "libm_ok (be_libm e)" "draws_ok (be_draws e 0)" "clock_ok (be_clock e)"
  shows "\<exists>q. probe_psd (bench_net e) (probe_args_default host) 4 p = (q, Inr 5) \<and> attached (pb_world q)"
proof -
  obtain reply q1 where ask: "ask (bench_net e) ''set_psd'' probe_psd_fields 4 p = (q1, Inr 5)"
    and q1: "pb_world q1 = told reply (psd_on (bn_device b)) b" and att1: "attached (told reply (psd_on (bn_device b)) b)"
    using set_psd_step[OF att w st(3)] by blast
  let ?b1 = "told reply (psd_on (bn_device b)) b"
  let ?sv1 = "bn_device ?b1"
  have rep: "reporting ?sv1" using st(1)
    by (simp add: told_def psd_on_def write_reply_def reporting_def plain_texts_def psd_settings_init_def less_char_def)
  have str: "streaming (\<lambda>_. None) 0 s (bench_ip, 9001) ?sv1"
    using st(2) by (simp add: streaming_def told_def psd_on_def write_reply_def active_streams_def)
  have ready: "psd_ready (\<lambda>_. None) (bench_ip, 9002) ?sv1"
    using st(5) by (simp add: psd_ready_def told_def psd_on_def write_reply_def psd_settings_init_def psd_ok_def packable_def)
  have drop: "cfg_drop_every (sv_config ?sv1) \<le> 0" using st(4) by (simp add: told_def psd_on_def write_reply_def)
  obtain sv3 pl' wd bs pay h ws where loops: "all_loops e ?sv1 = sv3" and keep: "conns sv3 = conns ?sv1" "sv_replies sv3 = sv_replies ?sv1"
    and wire: "sv_wire sv3 = sv_wire ?sv1 @ [((bench_ip, 9003), pl'), ((bench_ip, 9001), wd)] @ ((bench_ip, 9002), bs @ pay) # ws"
    and pk: "psd_pack h = Inr bs"
    using all_loops_measuring[OF rep str ready env(1,2) drop env(3)] by blast
  let ?us = "[((bench_ip, 9003), pl), ((bench_ip, 9003), pl'), ((bench_ip, 9001), wd)]"
  have split: "bn_unread ?b1 @ [((bench_ip, 9003), pl'), ((bench_ip, 9001), wd)] @ ((bench_ip, 9002), bs @ pay) # ws =
      ?us @ ((bench_ip, 9002), bs @ pay) # ws"
    using un by (simp add: told_def)
  have recv: "probe_recv (bench_net e) 9002 ''PSD'' q1 =
      (q1\<lparr>pb_world := ?b1\<lparr>bn_device := sv3, bn_unread := ?us @ ws\<rparr>\<rparr>, Inr (bs @ pay, bench_ip, 40000))"
    by (rule bench_recv[OF loops wire split _ _ q1]) simp_all
  have "psd_unpack (take PSD_HEADER_SIZE (bs @ pay)) = Inr h"
    using psdc.unpack_pack[OF pk, of "[]"] psdc.pack_size[OF pk] by simp
  moreover have "attached (?b1\<lparr>bn_device := sv3, bn_unread := ?us @ ws\<rparr>)" by (rule attached_after[OF att1 keep])
  ultimately show ?thesis using ask recv by (simp add: probe_psd_def probe_args_default_def)
qed

definition bench_init :: "FakeAc920Config \<Rightarrow> bench" where
  "bench_init config = \<lparr>bn_device = server_start (server_init config), bn_unread = [], bn_read = 0\<rparr>"

lemma status_step:
  assumes att: "attached b" and w: "pb_world p = b" and un: "bn_unread b = []"
    and st: "reporting (bn_device b)" "sv_tx_task (bn_device b) = NoTask" "sv_psd_task (bn_device b) = NoTask"
  shows "\<exists>q pl. probe_status (bench_net e) (probe_args_default host) 3 p = (q, Inr 3) \<and> attached (pb_world q)
    \<and> bn_unread (pb_world q) = [] \<and> bn_device (pb_world q) = (bn_device b)\<lparr>sv_status_seq := sv_status_seq (bn_device b) + 1,
        sv_wire := sv_wire (bn_device b) @ [((bench_ip, 9003), pl)]\<rparr>"
proof -
  obtain pl where loops: "all_loops e (bn_device b) = (bn_device b)\<lparr>sv_status_seq := sv_status_seq (bn_device b) + 1,
      sv_wire := sv_wire (bn_device b) @ [((bench_ip, 9003), pl)]\<rparr>" (is "_ = ?sv")
    using all_loops_idle[OF st] by blast
  have "probe_recv (bench_net e) 9003 ''status'' p =
      (p\<lparr>pb_world := b\<lparr>bn_device := ?sv, bn_unread := [] @ []\<rparr>\<rparr>, Inr (pl, bench_ip, 40000))"
    by (rule bench_recv[OF loops, of "[((bench_ip, 9003), pl)]" "[]" "(bench_ip, 9003)" pl "[]"]) (simp_all add: un w)
  moreover have "attached (b\<lparr>bn_device := ?sv, bn_unread := []\<rparr>)" by (rule attached_after[OF att]) (simp_all add: conns_def)
  ultimately show ?thesis by (auto simp: probe_status_def probe_args_default_def)
qed

lemma session_passes:
  assumes env: "libm_ok (be_libm e)" "draws_ok (be_draws e 0)" "clock_ok (be_clock e)"
    and cfg: "count_ok config" "cfg_drop_every config \<le> 0"
    and dev: "bn_device (pb_world p) = (server_start (server_init config))\<lparr>sv_owner := Some 0, sv_handlers := [(0, bench_ip)]\<rparr>"
      "bn_unread (pb_world p) = []" "bn_read (pb_world p) = 0"
  shows "\<exists>q. probe_session (bench_net e) (probe_args_default host) p = (q, Inr 0) \<and> attached (pb_world q)"
proof -
  let ?sv0 = "(server_start (server_init config))\<lparr>sv_owner := Some 0, sv_handlers := [(0, bench_ip)]\<rparr>"
  have att: "attached (pb_world p)" by (simp add: attached_def dev server_start_def server_init_def)
  obtain r1 q1 where hello: "ask (bench_net e) ''hello'' (probe_hello_fields (probe_args_default host)) 1 p = (q1, Inr 2)"
    and q1: "pb_world q1 = told r1 (udp_set ?sv0) (pb_world p)" "attached (pb_world q1)"
    using hello_step[OF att refl] dev(1) by metis
  obtain r2 q2 where ping: "ask (bench_net e) ''ping'' [(''client_time_ms'', PInt 0)] 2 q1 = (q2, Inr 3)"
    and q2: "pb_world q2 = told r2 (bn_device (pb_world q1)) (pb_world q1)" "attached (pb_world q2)"
    using ping_step[OF q1(2) refl] by metis
  note defs = q1(1) q2(1) told_def udp_set_def write_reply_def server_start_def server_init_def
  have d2: "bn_unread (pb_world q2) = []" "sv_tx_task (bn_device (pb_world q2)) = NoTask" "sv_psd_task (bn_device (pb_world q2)) = NoTask"
    "reporting (bn_device (pb_world q2))" "sv_config (bn_device (pb_world q2)) = config"
    "sv_streams (bn_device (pb_world q2)) = [(0, stream_state_init 0), (1, stream_state_init 1)]"
    "sv_udp_dest (bn_device (pb_world q2)) = Some (bench_ip, 9001)" "sv_udp_psd_dest (bn_device (pb_world q2)) = Some (bench_ip, 9002)"
    by (simp_all add: defs dev(2) reporting_def plain_texts_def stream_state_init_def psd_settings_init_def less_char_def)
  obtain q3 pl where status: "probe_status (bench_net e) (probe_args_default host) 3 q2 = (q3, Inr 3)"
    and q3: "attached (pb_world q3)" "bn_unread (pb_world q3) = []"
      "bn_device (pb_world q3) = (bn_device (pb_world q2))\<lparr>sv_status_seq := sv_status_seq (bn_device (pb_world q2)) + 1,
         sv_wire := sv_wire (bn_device (pb_world q2)) @ [((bench_ip, 9003), pl)]\<rparr>"
    using status_step[OF q2(2) refl d2(1,4,2,3)] by blast
  have d3: "sv_streams (bn_device (pb_world q3)) = [(0, stream_state_init 0), (1, stream_state_init 1)]"
    "sv_tx_task (bn_device (pb_world q3)) = NoTask" "sv_psd_task (bn_device (pb_world q3)) = NoTask"
    "sv_udp_dest (bn_device (pb_world q3)) = Some (bench_ip, 9001)" "reporting (bn_device (pb_world q3))"
    "count_ok (sv_config (bn_device (pb_world q3)))" "cfg_drop_every (sv_config (bn_device (pb_world q3))) \<le> 0"
    using d2 cfg by (simp_all add: q3(3) reporting_def plain_texts_def)
  obtain q4 pl4 sv4 s where iq: "probe_iq (bench_net e) (probe_args_default host) 3 q3 = (q4, Inr 4)" "attached (pb_world q4)"
    "bn_unread (pb_world q4) = [((bench_ip, 9003), pl4)]" "bn_device (pb_world q4) = sv4" "reporting sv4"
    "streaming (\<lambda>_. None) 0 s (bench_ip, 9001) sv4" "sv_psd_task sv4 = NoTask" "sv_config sv4 = sv_config (bn_device (pb_world q3))"
    "sv_udp_psd_dest sv4 = sv_udp_psd_dest (bn_device (pb_world q3))"
    using iq_step[OF q3(1) refl q3(2) d3 env(1,2)] by blast
  have d4: "cfg_drop_every (sv_config sv4) \<le> 0" "sv_udp_psd_dest sv4 = Some (bench_ip, 9002)"
    using iq(8,9) d3(7) d2(8) by (simp_all add: q3(3))
  obtain q5 where psd: "probe_psd (bench_net e) (probe_args_default host) 4 q4 = (q5, Inr 5)" "attached (pb_world q5)"
    using psd_step[OF iq(2) refl iq(3), unfolded iq(4), OF iq(5,6,7) d4 env] by blast
  obtain q6 where stop: "probe_stop (bench_net e) 5 q5 = (q6, Inr 0)" "attached (pb_world q6)"
    using stop_step[OF psd(2) refl] by blast
  show ?thesis using stop by (simp add: probe_session_def hello ping status iq(1) psd(1))
qed

text \<open>
  C9 (the probe passes on the simulator). Run with its default arguments against a freshly started
  simulated device that withholds no packets, the network probe returns 0: every request is
  understood and answered, a status report, an IQ packet and a PSD segment with readable headers
  arrive, and afterwards the device has no owner, no enabled stream and no PSD.
\<close>

theorem probe_passes_on_simulator:
  assumes "libm_ok (be_libm e)" and "draws_ok (be_draws e 0)" and "clock_ok (be_clock e)"
    and "count_ok config" and "cfg_drop_every config \<le> 0"
  shows "\<exists>p. run_probe (bench_net e) (probe_args_default host) (bench_init config) = (p, Inr 0)
    \<and> quiet (bn_device (pb_world p)) \<and> sv_owner (bn_device (pb_world p)) = None"
proof -
  define p1 where "p1 = say (''TCP connect '' @ host @ '':'' @ show_int 9000 @ '' ...'') \<lparr>pb_world = bench_init config, pb_printed = []\<rparr>"
  let ?p2 = "p1\<lparr>pb_world := on_device (accept_client 0 bench_ip) (bench_init config)\<rparr>"
  have conn: "outside (pn_connect (bench_net e) host 9000) p1 = (?p2, Inr ())"
    by (simp add: outside_def bench_net_def p1_def)
  have dev: "bn_device (pb_world ?p2) = (server_start (server_init config))\<lparr>sv_owner := Some 0, sv_handlers := [(0, bench_ip)]\<rparr>"
    "bn_unread (pb_world ?p2) = []" "bn_read (pb_world ?p2) = 0"
    by (simp_all add: on_device_def bench_init_def accept_client_def server_start_def server_init_def Let_def)
  from session_passes[OF assms dev, where host = host] obtain q where
    ses: "probe_session (bench_net e) (probe_args_default host) ?p2 = (q, Inr 0)" and att: "attached (pb_world q)" by blast
  have binds: "bind_errors (bench_net e) (probe_args_default host) = []"
    by (simp add: bind_errors_def bench_net_def List.map_filter_simps)
  have args: "pa_host (probe_args_default host) = host" "pa_control_port (probe_args_default host) = 9000"
    by (simp_all add: probe_args_default_def)
  note run = run_probe_def[of "bench_net e" "probe_args_default host" "bench_init config", unfolded Let_def binds list.case args p1_def[symmetric]]
  have "run_probe (bench_net e) (probe_args_default host) (bench_init config) =
      (q\<lparr>pb_world := pn_close (bench_net e) (pb_world q)\<rparr>, Inr 0)" by (simp add: run conn ses)
  moreover have "bn_device (pn_close (bench_net e) (pb_world q)) = leave_client 0 (bn_device (pb_world q))"
    using att by (simp add: bench_net_def on_device_def handle_eof_def attached_def Let_def)
  moreover have "quiet (leave_client 0 (bn_device (pb_world q))) \<and> sv_owner (leave_client 0 (bn_device (pb_world q))) = None"
    using att quiet_stop_all[of "bn_device (pb_world q)"] by (simp add: leave_client_def attached_def Let_def quiet_def)
  ultimately show ?thesis by simp
qed

theorem probe_passes_on_simulator_witness:
  "\<exists>p. run_probe (bench_net \<lparr>be_libm = flat_libm, be_draws = (\<lambda>i n. FFin 0), be_clock = (\<lambda>i. 5), be_time = 7\<rparr>)
      (probe_args_default ''192.168.1.20'') (bench_init fake_config_default) = (p, Inr 0)"
  using probe_passes_on_simulator[of "\<lparr>be_libm = flat_libm, be_draws = (\<lambda>i n. FFin 0), be_clock = (\<lambda>i. 5), be_time = 7\<rparr>"
      fake_config_default "''192.168.1.20''"] flat_libm_ok
  by (auto simp: draws_ok_def clock_ok_def count_ok_def fake_config_default_def)

end
