(* ===== verification/Tools.thy ===== *)
theory Tools
  imports Network_Probe Web_App Signal_Gen
begin

text \<open>
  The remaining command line tools: \<^verbatim>\<open>tools/ac920_debug_probe.py\<close>, which prints what a device answers and
  sends, the start of the simulated device, and helpers of the FPGA simulation, \<^verbatim>\<open>fpga/scripts/gen_vectors.py\<close>,
  \<^verbatim>\<open>fpga/sim/golden/packet_check.py\<close> and \<open>freq_word\<close> of \<^verbatim>\<open>fpga/sim/golden/ddc_golden.py\<close>.
\<close>

unbundle bit_operations_syntax

section \<open>json.dumps with indent=2 and sort_keys=True\<close>

definition line_break :: "nat \<Rightarrow> string" where
  "line_break level = CHR 0x0A # replicate (2 * level) (CHR '' '')"

fun pretty :: "nat \<Rightarrow> pyval \<Rightarrow> string" where
  "pretty level (PList vs) =
     (if vs = [] then ''[]''
      else ''['' @ line_break (Suc level) @ join ('','' @ line_break (Suc level)) (map (pretty (Suc level)) vs)
        @ line_break level @ '']'')"
| "pretty level (PDict d) =
     (if d = [] then ''{}''
      else ''{'' @ line_break (Suc level) @
        join ('','' @ line_break (Suc level))
          (map (\<lambda>(k, t). json_string True k @ '': '' @ t) (sort_key fst (map (\<lambda>(k, v). (k, pretty (Suc level) v)) d)))
        @ line_break level @ ''}'')"
| "pretty level v = dumps True v"

section \<open>ac920_debug_probe.py\<close>

text \<open>
  What one call of \<open>recv_udp\<close> meets before its deadline: datagrams, pauses of half a second (which it
  skips), or an error of the socket, which ends the program.
\<close>

datatype udp_event = Arrived bytes string int | Quiet | Broken exn

record 's debug_net = "'s probe_net" +
  dn_udp :: "int \<Rightarrow> 's \<Rightarrow> 's \<times> udp_event list"

definition debug_request :: "'s debug_net \<Rightarrow> int \<Rightarrow> string \<Rightarrow> pydict \<Rightarrow> 's probe \<Rightarrow> 's probe \<times> pydict result" where
  "debug_request net request_id cmd kw p =
     (case encode_json_line (build_request request_id cmd kw) of Inl e \<Rightarrow> (p, Inl e)
      | Inr line \<Rightarrow>
        sthen (outside (pn_sendall net line) p) (\<lambda>_ p.
        sthen (outside (pn_readline net) p) (\<lambda>reply p.
        if reply = [] then (p, Inl (Exn RuntimeError (cmd @ '': device closed TCP connection'')))
        else case decode_json_line reply of Inl e \<Rightarrow> (p, Inl e)
        | Inr response \<Rightarrow> (say (pretty 0 (PDict response)) (say (''TCP '' @ cmd @ '':'') p), Inr response))))"

definition hex_dump :: "bytes \<Rightarrow> string" where
  "hex_dump bs = concat (map (\<lambda>b. hex2 (uint b)) bs)"

definition show_datagram :: "bytes \<Rightarrow> string" where
  "show_datagram data =
     (let text = utf8_replace (text_of_bytes data) in
      if take 1 text = ''{'' then (case loads text of Inr v \<Rightarrow> pretty 0 v | Inl e \<Rightarrow> text)
      else hex_dump (take 96 data))"

text \<open>The body of \<open>recv_udp\<close> with the count so far; durations are in tenths of a second.\<close>

fun recv_udp_loop :: "string \<Rightarrow> nat \<Rightarrow> udp_event list \<Rightarrow> 's probe \<Rightarrow> 's probe \<times> nat result" where
  "recv_udp_loop label count [] p = (p, Inr count)"
| "recv_udp_loop label count (Quiet # es) p = recv_udp_loop label count es p"
| "recv_udp_loop label count (Broken e # es) p = (p, Inl e)"
| "recv_udp_loop label count (Arrived data ip port # es) p =
     recv_udp_loop label (Suc count) es
       (say (show_datagram data)
         (say (''UDP '' @ label @ '' #'' @ show_int (int (Suc count)) @ '': '' @ show_int (int (length data)) @ '' bytes from '' @
            peer (ip, port)) p))"

definition show_tenths :: "nat \<Rightarrow> string" where
  "show_tenths d = show_int (int d div 10) @ ''.'' @ show_int (int d mod 10)"

definition recv_udp :: "'s debug_net \<Rightarrow> int \<Rightarrow> string \<Rightarrow> nat \<Rightarrow> 's probe \<Rightarrow> 's probe \<times> unit result" where
  "recv_udp net port label duration p =
     (let (p1, events) = outside (dn_udp net port) p
      in sthen (recv_udp_loop label 0 events p1) (\<lambda>count p.
         (if count = 0 then say (''UDP '' @ label @ '': no packets in '' @ show_tenths duration @ ''s'') p else p, Inr ())))"

definition debug_hello_fields :: "string \<Rightarrow> pydict" where
  "debug_hello_fields destination_ip =
     [(''protocol_version'', PInt 1), (''client_name'', PStr ''ac920-debug-probe''),
      (''udp'', PDict [(''destination_ip'', PStr destination_ip), (''iq_port'', PInt 9001), (''psd_port'', PInt 9002),
         (''status_port'', PInt 9003)])]"

definition debug_rx_fields :: pydict where
  "debug_rx_fields =
     [(''stream_id'', PInt 0), (''adc_channel'', PInt 0), (''frequency_hz'', PInt 98500000), (''mode'', PStr ''WFM''),
      (''iq_sample_rate_hz'', PInt 1000000), (''bandwidth_hz'', PInt 250000), (''sample_format'', PStr ''SC16_LE''),
      (''enable'', PBool True)]"

definition debug_session :: "'s debug_net \<Rightarrow> string \<Rightarrow> 's probe \<Rightarrow> 's probe \<times> int result" where
  "debug_session net destination_ip p =
     sthen (debug_request net 1 ''hello'' (debug_hello_fields destination_ip) p) (\<lambda>_ p.
     sthen (recv_udp net 9003 ''status before rx'' 10 p) (\<lambda>_ p.
     sthen (debug_request net 2 ''get_status'' [] p) (\<lambda>_ p.
     sthen (debug_request net 3 ''set_rx'' debug_rx_fields p) (\<lambda>_ p.
     sthen (recv_udp net 9003 ''status after rx'' 40 p) (\<lambda>_ p.
     sthen (recv_udp net 9001 ''iq'' 40 p) (\<lambda>_ p.
     sthen (debug_request net 4 ''get_status'' [] p) (\<lambda>_ p.
     sthen (debug_request net 5 ''stop_all'' [] p) (\<lambda>_ p. (p, Inr 0)))))))))"

definition debug_main :: "'s debug_net \<Rightarrow> string \<Rightarrow> string \<Rightarrow> 's \<Rightarrow> 's probe \<times> int result" where
  "debug_main net host destination_ip w =
     (let p = \<lparr>pb_world = w, pb_printed = []\<rparr> in
      case List.map_filter (pn_bind net ''0.0.0.0'') [9003, 9001] of e # _ \<Rightarrow> (p, Inl e)
      | [] \<Rightarrow>
        sthen (outside (pn_connect net host 9000) p) (\<lambda>_ p.
          let (p1, r) = debug_session net destination_ip p in (p1\<lparr>pb_world := pn_close net (pb_world p1)\<rparr>, r)))"

section \<open>Starting the simulated device\<close>

text \<open>The arguments \<open>parse_args\<close> gives to \<open>async_main\<close>, and the configuration made of them.\<close>

record fake_args =
  ag_bind :: string
  ag_port :: int
  ag_scenario :: string
  ag_drop_every :: int
  ag_adc_or :: bool
  ag_fifo_overflow :: bool

definition fake_args_default :: fake_args where
  "fake_args_default = \<lparr>ag_bind = ''127.0.0.1'', ag_port = 9000, ag_scenario = ''wfm_tone'', ag_drop_every = 0, ag_adc_or = False,
     ag_fifo_overflow = False\<rparr>"

definition async_main :: "fake_args \<Rightarrow> FakeServer \<times> string" where
  "async_main args =
     (server_start (server_init (fake_config_default\<lparr>cfg_bind_host := ag_bind args, cfg_control_port := ag_port args, cfg_scenario := ag_scenario args,
        cfg_drop_every := ag_drop_every args, cfg_inject_adc_or := ag_adc_or args, cfg_inject_fifo_overflow := ag_fifo_overflow args\<rparr>)),
      ''fake AC920 listening on '' @ ag_bind args @ '':'' @ show_int (ag_port args) @ '' scenario='' @ ag_scenario args)"

section \<open>gen_vectors.py\<close>

definition twos :: "int \<Rightarrow> nat \<Rightarrow> int" where
  "twos value width = value AND (push_bit width 1 - 1)"

definition hex_padded :: "nat \<Rightarrow> int \<Rightarrow> string" where
  "hex_padded n v = (let h = show_base 16 v in replicate (n - length h) (CHR ''0'') @ h)"

definition vector_line :: "nat \<Rightarrow> int \<Rightarrow> string" where
  "vector_line width value = hex_padded ((width + 3) div 4) (twos value width) @ [CHR 0x0A]"

definition amplitude :: "nat \<Rightarrow> int result" where
  "amplitude width =
     (if width = 0 then Inl (Exn ValueError ''negative shift count'')
      else rbind (float_of_int (push_bit (width - 1) 1)) (\<lambda>full. int_of_float (fmul full (lit (65 / 100)))))"

definition tone_sample :: "libm \<Rightarrow> int \<Rightarrow> pyfloat \<Rightarrow> pyfloat \<Rightarrow> int \<Rightarrow> int result" where
  "tone_sample m amp freq fs n =
     rbind (float_of_int n) (\<lambda>k.
     rbind (fdiv (fmul (fmul (fmul (FFin 2) math_pi) freq) k) fs) (\<lambda>phase.
     rbind (math_call (lm_sin m) phase) (\<lambda>s.
     rbind (float_of_int amp) (\<lambda>a. round_float (fmul a s)))))"

definition tones :: "(string \<times> pyfloat) list" where
  "tones = [(''tone_1mhz.hex'', FFin 1000000), (''tone_10mhz.hex'', FFin 10000000), (''tone_98p5mhz.hex'', FFin 98500000)]"

text \<open>The files of a run, in order; an exception ends it.\<close>

definition gen_vectors :: "libm \<Rightarrow> pyfloat \<Rightarrow> nat \<Rightarrow> nat \<Rightarrow> (string \<times> string) list result" where
  "gen_vectors m fs samples width =
     rbind (amplitude width) (\<lambda>amp.
     rbind (rmap (\<lambda>(name, freq).
         rbind (rmap (\<lambda>n. tone_sample m amp freq fs (int n)) [0..<samples]) (\<lambda>values.
         Inr (name, concat (map (vector_line width) values)))) tones) (\<lambda>files.
     Inr (files @ [(''impulse.hex'', concat (map (\<lambda>n. vector_line width (if n = 0 then amp else 0)) [0..<samples]))])))"

section \<open>packet_check.py and freq_word\<close>

definition packet_check :: "bytes \<Rightarrow> string \<times> int" where
  "packet_check data =
     (let words = unpack_codes (replicate (length data div 4) U32) (take (length data div 4 * 4) data) in
      if words = [] \<or> hd words \<noteq> 0x53445231 then (''bad magic'', 1)
      else (''magic=0x'' @ hex_padded 8 (hd words) @ '' words='' @ show_int (int (length words)) @ '' seq='' @
            (if 3 < length words then show_int (words ! 3) else ''n/a''), 0))"

definition freq_word :: "pyfloat \<Rightarrow> pyfloat \<Rightarrow> nat \<Rightarrow> int result" where
  "freq_word freq_hz fs_hz phase_width =
     rbind (fdiv freq_hz fs_hz) (\<lambda>q.
     rbind (float_of_int (push_bit phase_width 1)) (\<lambda>s.
     rbind (round_float (fmul q s)) (\<lambda>w. Inr (w AND (push_bit phase_width 1 - 1)))))"

section \<open>Properties\<close>

lemma twos_eq: "twos v width = v mod 2 ^ width"
  using take_bit_eq_mask[of width v] by (simp add: twos_def take_bit_eq_mod mask_eq_exp_minus_1 push_bit_of_1)

text \<open>Reading hexadecimal digits back.\<close>

fun read_hex :: "int \<Rightarrow> string \<Rightarrow> int option" where
  "read_hex acc [] = Some acc"
| "read_hex acc (c # cs) = (case hex_val c of None \<Rightarrow> None | Some d \<Rightarrow> read_hex (16 * acc + d) cs)"

lemma read_hex_append: "read_hex acc (s @ t) = Option.bind (read_hex acc s) (\<lambda>a. read_hex a t)"
  by (induction acc s rule: read_hex.induct) (auto split: option.splits)

lemma read_hex_zeros: "read_hex 0 (replicate n (CHR ''0'') @ s) = read_hex 0 s"
  by (induction n) (simp_all add: hex_val_def)

lemma read_hex_show: "0 \<le> n \<Longrightarrow> read_hex 0 (show_base 16 n) = Some n"
proof (induction "nat n" arbitrary: n rule: less_induct)
  case less
  show ?case
  proof (cases "n < 16")
    case True
    then show ?thesis using less.prems by (simp add: show_base.simps hex_val_digit_char)
  next
    case False
    then have "read_hex 0 (show_base 16 (n div 16)) = Some (n div 16)" using less by (intro less.hyps) auto
    then show ?thesis using False by (subst show_base.simps) (simp add: read_hex_append hex_val_digit_char)
  qed
qed

lemma length_show_base: "0 \<le> n \<Longrightarrow> n < 16 ^ k \<Longrightarrow> 0 < k \<Longrightarrow> length (show_base 16 n) \<le> k"
proof (induction k arbitrary: n)
  case (Suc k)
  show ?case
  proof (cases "n < 16")
    case False
    then have "0 < k" using Suc.prems by (cases k) auto
    moreover have "n div 16 < 16 ^ k" using Suc.prems by (simp add: div_less_iff_less_mult mult.commute)
    ultimately have "length (show_base 16 (n div 16)) \<le> k" using Suc by (intro Suc.IH) auto
    then show ?thesis using False by (subst show_base.simps) simp
  qed (simp add: show_base.simps)
qed simp

text \<open>
  Stimulus vectors can be read back. A sample that fits the width is written as one line of exactly
  the hexadecimal digits the width needs; reading these digits as a two's complement number of the
  width gives the sample back.
\<close>

theorem vector_line_roundtrip:
  assumes "0 < width" and "- (2 ^ (width - 1)) \<le> v" and "v < 2 ^ (width - 1)"
  shows "\<exists>digits t. vector_line width v = digits @ [CHR 0x0A] \<and> length digits = (width + 3) div 4
    \<and> read_hex 0 digits = Some t \<and> 0 \<le> t \<and> t < 2 ^ width \<and> (if t < 2 ^ (width - 1) then t else t - 2 ^ width) = v"
proof -
  let ?t = "twos v width" and ?k = "(width + 3) div 4"
  have t: "0 \<le> ?t" "?t < 2 ^ width" by (simp_all add: twos_eq)
  have pw: "(2 :: int) ^ width = 2 * 2 ^ (width - 1)" using assms(1) by (cases width) auto
  have "(2 :: int) ^ width \<le> 2 ^ (4 * ?k)" by (intro power_increasing) auto
  then have "?t < 16 ^ ?k" using t by (simp add: power_mult)
  then have len: "length (show_base 16 ?t) \<le> ?k" using t assms(1) by (intro length_show_base) auto
  have "?t = (if 0 \<le> v then v else v + 2 ^ width)"
  proof (cases "0 \<le> v")
    case False
    then have "(v + 2 ^ width) mod 2 ^ width = v + 2 ^ width" using assms pw by (intro mod_pos_pos_trivial) auto
    then show ?thesis using False by (simp add: twos_eq)
  qed (use assms pw in \<open>simp add: twos_eq\<close>)
  then have "(if ?t < 2 ^ (width - 1) then ?t else ?t - 2 ^ width) = v" using assms pw by (simp split: if_splits)
  then show ?thesis using t len
    by (intro exI[of _ "hex_padded ?k ?t"] exI[of _ ?t])
      (simp add: vector_line_def hex_padded_def Let_def read_hex_zeros read_hex_show)
qed

theorem vector_line_roundtrip_witness:
  "\<exists>digits. vector_line 14 (- 5324) = digits @ [CHR 0x0A] \<and> length digits = 4 \<and> read_hex 0 digits = Some 11060"
proof -
  have "0 < (14 :: nat)" "- (2 ^ (14 - 1)) \<le> (- 5324 :: int)" "(- 5324 :: int) < 2 ^ (14 - 1)" by simp_all
  from vector_line_roundtrip[OF this] obtain digits t where d: "vector_line 14 (- 5324) = digits @ [CHR 0x0A]"
    "length digits = (14 + 3) div 4" "read_hex 0 digits = Some t"
    and t: "0 \<le> t" "(if t < 2 ^ (14 - 1) then t else t - 2 ^ 14) = - 5324" by blast
  from t have "t = 11060" by (simp split: if_splits)
  with d show ?thesis by auto
qed

text \<open>
  The packet check refuses every IQ packet. Applied to the bytes of any IQ packet of the protocol, its
  header packed by \<open>pack\<close> and any payload after it, \<^verbatim>\<open>packet_check.py\<close> reports a bad magic and exits with 1:
  it compares the first word with the identifier of the FPGA core instead of the magic of the packets.
\<close>

theorem packet_check_refuses_iq:
  assumes "iq_pack h = Inr bs"
  shows "packet_check (bs @ payload) = (''bad magic'', 1)"
proof -
  have len: "length bs = IQ_HEADER_SIZE" by (rule iqc.pack_size[OF assms])
  have "iq_valid h" "struct_pack IQ_STRUCT (iq_fields h) = Inr bs" using iq_pack_InrD[OF assms] by auto
  then have magic: "iq_magic h = SDR_IQ_MAGIC" and u: "unpack_codes IQ_STRUCT bs = iq_fields h"
    using unpack_struct_pack[of IQ_STRUCT "iq_fields h" bs "[]"] by (auto simp: iq_valid_iff)
  then have first: "unpack_code U32 (take 4 bs) = 0x51494453"
    by (simp add: IQ_STRUCT_eq iq_fields_def SDR_IQ_MAGIC_def)
  let ?n = "length (bs @ payload) div 4"
  obtain n where n: "?n = Suc n" using len by (cases ?n) (auto simp: IQ_HEADER_SIZE_eq)
  have "take 4 (take (?n * 4) (bs @ payload)) = take 4 bs" using len n by (simp add: IQ_HEADER_SIZE_eq min_def)
  moreover have "hd (unpack_codes (replicate (Suc n) U32) xs) = unpack_code U32 (take 4 xs)" for xs by simp
  ultimately have "hd (unpack_codes (replicate ?n U32) (take (?n * 4) (bs @ payload))) = 0x51494453"
    using first unfolding n by metis
  then show ?thesis by (simp add: packet_check_def Let_def)
qed

theorem packet_check_refuses_iq_witness:
  "\<exists>bs. iq_pack iq_default = Inr bs \<and> packet_check (bs @ [1, 2, 3, 4]) = (''bad magic'', 1)"
  using default_headers_pack packet_check_refuses_iq[of iq_default _ "[1, 2, 3, 4]"] by blast

text \<open>Whatever the arguments, the simulated device starts in a proper state; without arguments it is the default one.\<close>

lemma async_main_ok: "server_inv (fst (async_main args))" "fst (async_main fake_args_default) = server_start (server_init fake_config_default)"
  by (simp_all add: async_main_def fake_args_default_def server_inv_init server_start_def) (simp add: fake_config_default_def)

text \<open>\<open>freq_word\<close> always gives a phase increment of the width of the accumulator.\<close>

lemma freq_word_range: "freq_word f fs w = Inr n \<Longrightarrow> 0 \<le> n \<and> n < 2 ^ w"
  using twos_eq by (auto simp: freq_word_def rbind_eq_Inr twos_def)

end
