(* ===== verification/Golden.thy ===== *)
theory Golden
  imports Tools
begin

text \<open>
  The reference calculators of the FPGA simulation, \<^verbatim>\<open>fpga/sim/golden/ddc_golden.py\<close> and
  \<^verbatim>\<open>fpga/sim/golden/cic_golden.py\<close>: what they print for the values of their arguments. \<open>log2\<close> and \<open>pow\<close> are
  those of the C library and are fields of the record \<open>c_math\<close>. Shown here: with a \<open>log2\<close> as accurate as C libraries are, the
  printed number of bits is the least one that holds the gain of the filter.
\<close>

section \<open>Python's arithmetic\<close>

record c_math =
  cm_log2 :: "pyfloat \<Rightarrow> pyfloat"
  cm_pow :: "pyfloat \<Rightarrow> pyfloat \<Rightarrow> pyfloat"

text \<open>
  \<open>a ** b\<close> of two integers: an integer, or for a negative exponent the power of the two floats, where the
  sign is taken out before the C function is called.
\<close>

definition int_pow :: "c_math \<Rightarrow> int \<Rightarrow> int \<Rightarrow> pyval result" where
  "int_pow m a b =
     (if 0 \<le> b then Inr (PInt (a ^ nat b))
      else rbind (float_of_int a) (\<lambda>v. rbind (float_of_int b) (\<lambda>w.
        if v = FFin 0 then Inl (Exn ZeroDivisionError ''0.0 cannot be raised to a negative power'')
        else let odd_power = (case w of FFin q \<Rightarrow> odd \<lfloor>q\<rfloor> | _ \<Rightarrow> False);
                 p = (if fabs v = FFin 1 then FFin 1 else cm_pow m (fabs v) w)
             in if p \<in> {FPosInf, FNegInf} then Inl (Exn OverflowError ''(34, 'Numerical result out of range')'')
                else Inr (PFloat (if flt v (FFin 0) \<and> odd_power then fneg p else p)))))"

text \<open>
  \<open>math.log2\<close>. An integer beyond the range of a double is split into a fraction of 53 bits and an exponent.
\<close>

fun log2_float :: "c_math \<Rightarrow> pyfloat \<Rightarrow> pyfloat result" where
  "log2_float m (FFin x) = (if x \<le> 0 then Inl (Exn ValueError ''math domain error'') else Inr (cm_log2 m (FFin x)))"
| "log2_float m FNegInf = Inl (Exn ValueError ''math domain error'')"
| "log2_float m x = Inr x"

definition frexp_int :: "int \<Rightarrow> rat \<times> int" where
  "frexp_int n =
     (let e = bitlen n; k = round_half_even (of_int n / pow2 (e - 53))
      in if k = 2 ^ 53 then (1 / 2, e + 1) else (of_int k / 2 ^ 53, e))"

definition log2_int :: "c_math \<Rightarrow> int \<Rightarrow> pyfloat result" where
  "log2_int m n =
     (if n \<le> 0 then Inl (Exn ValueError ''math domain error'')
      else case double_of_rat (of_int n) of FFin x \<Rightarrow> Inr (cm_log2 m (FFin x))
      | _ \<Rightarrow> (case frexp_int n of (x, e) \<Rightarrow>
               rbind (float_of_int e) (\<lambda>f. Inr (fadd (cm_log2 m (FFin x)) (fmul (cm_log2 m (FFin 2)) f)))))"

fun math_log2 :: "c_math \<Rightarrow> pyval \<Rightarrow> pyfloat result" where
  "math_log2 m (PFloat x) = log2_float m x"
| "math_log2 m (PInt n) = log2_int m n"
| "math_log2 m v = Inl (Exn TypeError (''must be real number, not '' @ type_name v))"

fun math_ceil :: "pyfloat \<Rightarrow> int result" where
  "math_ceil (FFin x) = Inr \<lceil>x\<rceil>"
| "math_ceil FNaN = Inl (Exn ValueError ''cannot convert float NaN to integer'')"
| "math_ceil _ = Inl (Exn OverflowError ''cannot convert float infinity to integer'')"

text \<open>The format \<open>.3f\<close>, and \<open>str\<close> of a number, which refuses integers of more than 4300 digits.\<close>

fun fixed3 :: "pyfloat \<Rightarrow> string" where
  "fixed3 (FFin x) =
     (let n = round_half_even (\<bar>x\<bar> * 1000); d = show_int (n mod 1000)
      in (if x < 0 then ''-'' else '''') @ show_int (n div 1000) @ ''.'' @ replicate (3 - length d) (CHR ''0'') @ d)"
| "fixed3 FPosInf = ''inf''"
| "fixed3 FNegInf = ''-inf''"
| "fixed3 FNaN = ''nan''"

definition max_str_digits :: nat where
  "max_str_digits = 4300"

fun str_number :: "pyval \<Rightarrow> string result" where
  "str_number (PInt n) =
     (if 10 ^ max_str_digits \<le> \<bar>n\<bar>
      then Inl (Exn ValueError (''Exceeds the limit (4300 digits) for integer string conversion; '' @
             ''use sys.set_int_max_str_digits() to increase the limit''))
      else Inr (show_int n))"
| "str_number v = Inr (py_str v)"

section \<open>The calculators\<close>

definition rate_of :: "pyfloat \<Rightarrow> int \<Rightarrow> pyfloat result" where
  "rate_of fs decim = rbind (float_of_int decim) (fdiv fs)"

definition ddc_main :: "c_math \<Rightarrow> pyfloat \<Rightarrow> pyfloat \<Rightarrow> int \<Rightarrow> string list result" where
  "ddc_main m freq_hz fs decim =
     rbind (freq_word freq_hz fs 32) (\<lambda>word.
     rbind (rate_of fs decim) (\<lambda>out_rate.
     rbind (rbind (math_log2 m (PInt (decim ^ 3))) math_ceil) (\<lambda>gain_shift.
     Inr [''freq_word_dec='' @ show_int word, ''freq_word_hex=0x'' @ hex_padded 8 word,
          ''iq_sample_rate_hz='' @ fixed3 out_rate, ''recommended_gain_shift='' @ show_int gain_shift])))"

text \<open>The lines printed before the program ends, and the exception that ends it, if any.\<close>

definition cic_main :: "c_math \<Rightarrow> int \<Rightarrow> int \<Rightarrow> pyfloat \<Rightarrow> string list \<times> exn option" where
  "cic_main m decim stages fs =
     (case rbind (int_pow m decim stages) (\<lambda>gain. rbind (rate_of fs decim) (\<lambda>rate. Inr (gain, rate))) of Inl e \<Rightarrow> ([], Some e)
      | Inr (gain, rate) \<Rightarrow>
        (let printed = [''output_rate_hz='' @ fixed3 rate] in
         case str_number gain of Inl e \<Rightarrow> (printed, Some e)
         | Inr g \<Rightarrow>
           (let printed = printed @ [''cic_gain='' @ g] in
            case rbind (math_log2 m gain) math_ceil of Inl e \<Rightarrow> (printed, Some e)
            | Inr bits \<Rightarrow> (printed @ [''gain_bits='' @ show_int bits], None))))"

section \<open>The number of bits\<close>

text \<open>
  What is relied on of \<open>log2\<close>: for arguments below \<open>2 ^ 45\<close> the error is at most \<open>2 ^ -46\<close>, two units in the last
  place of the largest results, and powers of two have exact results.
\<close>

definition log2_accurate :: "c_math \<Rightarrow> bool" where
  "log2_accurate m \<longleftrightarrow> (\<forall>x. 1 \<le> x \<and> x < 2 ^ 45 \<longrightarrow>
       (\<exists>y. cm_log2 m (FFin x) = FFin y \<and> \<bar>of_rat y - log 2 (of_rat x)\<bar> \<le> (1 / 2 ^ 46 :: real)))
     \<and> (\<forall>k < 45. cm_log2 m (FFin (2 ^ k)) = FFin (of_nat k))"

lemma log2_between:
  assumes "0 < k" and "2 ^ k < g" and "g < 2 ^ Suc k"
  shows "of_nat k + 1 / 2 ^ Suc k \<le> log 2 (real g)" and "log 2 (real g) \<le> of_nat (Suc k) - 1 / 2 ^ Suc k"
proof -
  have ln2: "0 < ln (2 :: real)" "ln (2 :: real) \<le> 1" using ln_2_less_1 by simp_all
  define t :: real where "t = 1 / 2 ^ k"
  have "(2 :: real) \<le> 2 ^ k" using assms(1) self_le_power[of "2 :: real" k] by simp
  then have t: "0 < t" "t \<le> 1 / 2" by (simp_all add: t_def field_simps)
  have "t / 2 \<le> t - t\<^sup>2" using t mult_left_mono[of t "1 / 2" t] by (simp add: power2_eq_square)
  also have "\<dots> \<le> ln (1 + t)" using t by (intro ln_one_plus_pos_lower_bound) auto
  also have "\<dots> \<le> log 2 (1 + t)" using t ln2 by (simp add: log_def pos_le_divide_eq mult_left_le)
  finally have lo: "1 / 2 ^ Suc k \<le> log 2 (1 + t)" by (simp add: t_def)
  have "real (2 ^ k + 1) \<le> real g" using assms(2) by (simp only: of_nat_le_iff)
  then have "2 ^ k * (1 + t) \<le> real g" by (simp add: t_def distrib_left)
  then have "log 2 (2 ^ k * (1 + t)) \<le> log 2 (real g)" using t assms(2) by (subst log_le_cancel_iff) auto
  then show "of_nat k + 1 / 2 ^ Suc k \<le> log 2 (real g)" using lo t by (simp add: log_mult log_nat_power)
  define s :: real where "s = 1 / 2 ^ Suc k"
  have "(1 :: real) < 2 * 2 ^ k" using one_le_power[of "2 :: real" k] by linarith
  then have s: "0 < s" "s < 1" by (simp_all add: s_def)
  have "log 2 (1 - s) \<le> ln (1 - s)"
  proof -
    have "ln (1 - s) \<le> 0" using s by simp
    then show ?thesis using ln2 by (simp add: log_def divide_le_eq mult_le_cancel_left1)
  qed
  also have "\<dots> \<le> - s" using ln_add_one_self_le_self2[of "- s"] s by simp
  finally have hi: "log 2 (1 - s) \<le> - s" .
  have "real g \<le> real (2 ^ Suc k - 1)" using assms(3) by (simp only: of_nat_le_iff)
  then have "real g \<le> 2 ^ Suc k * (1 - s)" by (simp add: s_def right_diff_distrib of_nat_diff)
  moreover have "0 < real g" using assms(2) by (cases g) auto
  ultimately have "log 2 (real g) \<le> log 2 (2 ^ Suc k * (1 - s))" using s by (subst log_le_cancel_iff) auto
  then show "log 2 (real g) \<le> of_nat (Suc k) - 1 / 2 ^ Suc k" using hi s by (simp add: log_mult log_nat_power s_def)
qed

lemma log2_bits:
  assumes "log2_accurate m" and "0 < g" and "g < 2 ^ 45"
  shows "\<exists>b. rbind (math_log2 m (PInt g)) math_ceil = Inr (int b) \<and> g \<le> 2 ^ b \<and> (\<forall>c. g \<le> 2 ^ c \<longrightarrow> b \<le> c)"
proof -
  have "double_of_rat (of_int g) = FFin (of_int g)" using assms(2,3) by (intro double_of_int_exact) auto
  then have log: "math_log2 m (PInt g) = Inr (cm_log2 m (FFin (of_int g)))" using assms(2) by (simp add: log2_int_def)
  obtain n where n: "g = int n" "0 < n" using assms(2) by (metis zero_less_imp_eq_int)
  obtain k where k: "2 ^ k \<le> n" "n < 2 ^ (k + 1)" using ex_power_ivl1[of 2 n] n(2) by auto
  have "(2 :: int) ^ k < 2 ^ 45" using k(1) n(1) assms(3) by (metis (mono_tags) le_less_trans of_nat_le_iff of_nat_numeral of_nat_power)
  then have k45: "k < 45" by (rule power_less_imp_less_exp[rotated]) simp
  show ?thesis
  proof (cases "n = 2 ^ k")
    case True
    then have "cm_log2 m (FFin (of_int g)) = FFin (of_nat k)" using assms(1) k45 n(1) by (simp add: log2_accurate_def)
    then show ?thesis using log True n(1) by (intro exI[of _ k]) (auto dest: power_le_imp_le_exp[rotated])
  next
    case False
    then have lt: "2 ^ k < n" "n < 2 ^ Suc k" using k by simp_all
    then have k0: "0 < k" by (cases k) auto
    have "1 \<le> (of_int g :: rat)" "(of_int g :: rat) < 2 ^ 45" using assms(2,3) by (simp_all add: of_int_less_numeral_power_cancel_iff)
    then obtain y where y: "cm_log2 m (FFin (of_int g)) = FFin y" "\<bar>of_rat y - log 2 (of_rat (of_int g))\<bar> \<le> (1 / 2 ^ 46 :: real)"
      using assms(1) unfolding log2_accurate_def by blast
    have "(1 :: real) / 2 ^ 45 \<le> 1 / 2 ^ Suc k" using k45 by (intro divide_left_mono power_increasing) auto
    moreover have "(1 :: real) / 2 ^ 46 < 1 / 2 ^ 45" by simp
    ultimately have "(1 :: real) / 2 ^ 46 < 1 / 2 ^ Suc k" by linarith
    moreover have "\<bar>of_rat y - log 2 (real n)\<bar> \<le> (1 / 2 ^ 46 :: real)" using y(2) n(1) by simp
    ultimately have "of_nat k < (of_rat y :: real)" "(of_rat y :: real) < of_nat (Suc k)"
      using log2_between[OF k0 lt] by linarith+
    then have "of_rat (of_nat k) < (of_rat y :: real)" "(of_rat y :: real) < of_rat (of_nat (Suc k))" by (simp_all only: of_rat_of_nat_eq)
    then have "of_nat k < y" "y < of_nat (Suc k)" by (simp_all only: of_rat_less)
    then have "\<lceil>y\<rceil> = int (Suc k)" by (intro ceiling_unique) simp_all
    moreover have "Suc k \<le> c" if "g \<le> 2 ^ c" for c
    proof -
      have "n \<le> 2 ^ c" using that n(1) by (metis of_nat_le_iff of_nat_numeral of_nat_power)
      then have "(2 :: nat) ^ k < 2 ^ c" by (rule less_le_trans[OF lt(1)])
      then have "k < c" by (rule power_less_imp_less_exp[rotated]) simp
      then show ?thesis by simp
    qed
    moreover have "g \<le> 2 ^ Suc k" using lt(2) n(1) by (metis less_imp_le of_nat_le_iff of_nat_numeral of_nat_power)
    ultimately show ?thesis using log y(1) by (intro exI[of _ "Suc k"]) simp
  qed
qed

text \<open>
  C40 (the printed gain shift fits the gain). With an accurate \<open>log2\<close>, a positive decimation whose cube (or, for
  the CIC calculator, power of the number of stages) is below \<open>2 ^ 45\<close>, and a proper sample rate, both
  calculators run to their end, and the last line each prints is the least number of bits in which
  the gain of the filter can be shifted out: the gain is at most two to this number, and to no smaller one.
\<close>

theorem gain_bits_least:
  assumes "log2_accurate m" and "0 < decim" and "decim ^ stages < 2 ^ 45" and "decim < 2 ^ 45" and "freq_word freq (FFin fs) 32 = Inr word"
  shows "(\<exists>rate bits. cic_main m decim (int stages) (FFin fs) =
        ([''output_rate_hz='' @ fixed3 rate, ''cic_gain='' @ show_int (decim ^ stages), ''gain_bits='' @ show_int (int bits)], None)
      \<and> decim ^ stages \<le> 2 ^ bits \<and> (\<forall>b. decim ^ stages \<le> 2 ^ b \<longrightarrow> bits \<le> b))
    \<and> (stages = 3 \<longrightarrow> (\<exists>lines bits. ddc_main m freq (FFin fs) decim = Inr (lines @ [''recommended_gain_shift='' @ show_int (int bits)])
        \<and> decim ^ 3 \<le> 2 ^ bits \<and> (\<forall>b. decim ^ 3 \<le> 2 ^ b \<longrightarrow> bits \<le> b)))"
proof -
  have "\<bar>decim\<bar> < 2 ^ 53" using assms(2,4) by simp
  then have "float_of_int decim = Inr (FFin (of_int decim))" by (rule float_of_int_exact)
  then obtain rate where rate: "rate_of (FFin fs) decim = Inr rate" using assms(2) by (simp add: rate_of_def)
  have "0 < decim ^ stages" using assms(2) by simp
  from log2_bits[OF assms(1) this assms(3)] obtain b where b: "rbind (math_log2 m (PInt (decim ^ stages))) math_ceil = Inr (int b)"
    "decim ^ stages \<le> 2 ^ b" "\<forall>c. decim ^ stages \<le> 2 ^ c \<longrightarrow> b \<le> c" by blast
  have "(2 :: int) ^ 45 < 10 ^ 14" by simp
  also have "\<dots> \<le> 10 ^ max_str_digits" by (rule power_increasing) (simp_all add: max_str_digits_def)
  finally have "str_number (PInt (decim ^ stages)) = Inr (show_int (decim ^ stages))" using assms(2,3) by simp
  then have "cic_main m decim (int stages) (FFin fs) =
      ([''output_rate_hz='' @ fixed3 rate, ''cic_gain='' @ show_int (decim ^ stages), ''gain_bits='' @ show_int (int b)], None)"
    using rate b(1) by (simp add: cic_main_def int_pow_def del: str_number.simps math_log2.simps)
  moreover have "\<exists>lines. ddc_main m freq (FFin fs) decim = Inr (lines @ [''recommended_gain_shift='' @ show_int (int b)])" if "stages = 3"
    using rate b(1) assms(5) that by (auto simp: ddc_main_def simp del: math_log2.simps)
  ultimately show ?thesis using b(2,3) by blast
qed

section \<open>Examples\<close>

text \<open>A logarithm rounded up to a multiple of \<open>2 ^ -50\<close>.\<close>

definition fine_math :: c_math where
  "fine_math = \<lparr>cm_log2 = (\<lambda>x. case x of FFin v \<Rightarrow> FFin (of_int \<lceil>log 2 (of_rat v) * 2 ^ 50 :: real\<rceil> / 2 ^ 50) | _ \<Rightarrow> x),
     cm_pow = (\<lambda>_ _. FFin 0)\<rparr>"

lemma fine_math_accurate: "log2_accurate fine_math"
  unfolding log2_accurate_def
proof (intro conjI allI impI)
  fix x :: rat
  let ?r = "log 2 (of_rat x) :: real"
  let ?y = "of_int \<lceil>?r * 2 ^ 50\<rceil> / 2 ^ 50 :: rat"
  have "cm_log2 fine_math (FFin x) = FFin ?y" by (simp add: fine_math_def)
  moreover have y: "of_rat ?y = (of_int \<lceil>?r * 2 ^ 50\<rceil> / 2 ^ 50 :: real)" by (simp add: of_rat_divide of_rat_power)
  have "\<bar>of_int \<lceil>r * 2 ^ 50\<rceil> / 2 ^ 50 - r\<bar> \<le> 1 / 2 ^ 46" for r :: real
    using ceiling_correct[of "r * 2 ^ 50"] by (simp add: abs_if field_simps) linarith
  then have "\<bar>of_rat ?y - ?r\<bar> \<le> 1 / 2 ^ 46" unfolding y .
  ultimately show "\<exists>y. cm_log2 fine_math (FFin x) = FFin y \<and> \<bar>of_rat y - ?r\<bar> \<le> 1 / 2 ^ 46" by blast
next
  fix k :: nat
  have "\<lceil>real k * 2 ^ 50\<rceil> = int k * 2 ^ 50" by (rule ceiling_unique) simp_all
  then show "cm_log2 fine_math (FFin (2 ^ k)) = FFin (of_nat k)" by (simp add: fine_math_def of_rat_power log_nat_power)
qed

lemma quarter_word: "freq_word (FFin 62500000) (FFin 250000000) 32 = Inr 1073741824"
proof -
  have q: "double_of_rat (1 / 4) = FFin (1 / 4)" by (rule double_of_rat_exact[where m = 1 and e = "- 2"]) (simp_all add: pow2_def)
  have w: "double_of_rat 1073741824 = FFin 1073741824" using double_of_int_exact[of 1073741824] by simp
  have s: "float_of_int 4294967296 = Inr (FFin 4294967296)" using float_of_int_exact[of 4294967296] by simp
  have r: "round_half_even 1073741824 = 1073741824" using round_half_even_of_int[of 1073741824] by simp
  show ?thesis using twos_eq[of 1073741824 32] by (simp add: freq_word_def q w s r twos_def)
qed

theorem gain_bits_least_witness:
  "\<exists>lines. ddc_main fine_math (FFin 62500000) (FFin 250000000) 1000 = Inr (lines @ [''recommended_gain_shift=30''])"
proof -
  have "0 < (1000 :: int)" "(1000 :: int) ^ 3 < 2 ^ 45" "(1000 :: int) < 2 ^ 45" by simp_all
  from gain_bits_least[OF fine_math_accurate this quarter_word] obtain lines bits where
    d: "ddc_main fine_math (FFin 62500000) (FFin 250000000) 1000 = Inr (lines @ [''recommended_gain_shift='' @ show_int (int bits)])"
    and b: "(1000 :: int) ^ 3 \<le> 2 ^ bits" "\<forall>c. (1000 :: int) ^ 3 \<le> 2 ^ c \<longrightarrow> bits \<le> c" by auto
  have "bits \<le> 30" using b(2) by simp
  moreover have "\<not> bits \<le> 29"
  proof
    assume "bits \<le> 29"
    then have "(2 :: int) ^ bits \<le> 2 ^ 29" by (rule power_increasing) simp
    with b(1) show False by simp
  qed
  ultimately have "bits = 30" by simp
  moreover have "show_int 30 = ''30''" by code_simp
  ultimately show ?thesis using d by auto
qed

end
