(* ===== verification/Vitis_Build.thy ===== *)
theory Vitis_Build
  imports Tools
begin

text \<open>
  \<^verbatim>\<open>ps/baremetal/scripts/vitis_create_ac920_sdr.py\<close> and \<^verbatim>\<open>vitis_probe_xsa.py\<close>: the scripts that drive the vendor tool Vitis.
  The tool is not part of the repository: its objects are values of an arbitrary type, and a call is one of
  \<open>vcall\<close>, answered by the argument \<open>ve_call\<close>, which also stands for the changes the call makes to the file system. The
  trace of a run is its calls and what it prints.

  Shown here: the scan for the platform file finds one exactly if there is one, a run that
  ends well has built the application for a platform file that existed, and the tool is shut down on every way
  out but the two the script takes itself.
\<close>

section \<open>The tool and the file system\<close>

datatype 'h vcall =
    CreateClient string | AdvancedOptions 'h string | CreatePlatform 'h string string string string string bool 'h
  | Report 'h | ListDomains 'h | GetDomain 'h string | SetLib 'h string | BuildComponent 'h
  | AddPlatformRepos 'h string | RescanPlatformRepos 'h string | FindPlatformInRepos 'h string
  | CreateApp 'h string string string string | ImportFiles 'h string "string list" string
  | GetWorkspace 'h | GetProcessorOsList 'h string | GetTemplates 'h string | Dispose

text \<open>\<open>ve_path\<close> is a returned path, empty if the value is not true; \<open>ve_items\<close> are the elements of a returned list.\<close>

record ('h, 'w) vitis_env =
  ve_call :: "'h vcall \<Rightarrow> 'w \<Rightarrow> 'w \<times> 'h result"
  ve_text :: "'h \<Rightarrow> string"
  ve_path :: "'h \<Rightarrow> string"
  ve_items :: "'h \<Rightarrow> 'h list"
  ve_environ :: "string \<Rightarrow> string option"
  ve_exists :: "string \<Rightarrow> 'w \<Rightarrow> bool"
  ve_isfile :: "string \<Rightarrow> 'w \<Rightarrow> bool"
  ve_isdir :: "string \<Rightarrow> 'w \<Rightarrow> bool"
  ve_rmtree :: "string \<Rightarrow> 'w \<Rightarrow> 'w \<times> unit result"
  ve_walk :: "string \<Rightarrow> 'w \<Rightarrow> (string \<times> string list) list"
  ve_read :: "string \<Rightarrow> 'w \<Rightarrow> string result"

record ('h, 'w) script =
  sc_world :: 'w
  sc_calls :: "'h vcall list"
  sc_printed :: "string list"

text \<open>\<open>SystemExit\<close> is not an \<open>Exception\<close> and does not reach \<open>sys.excepthook\<close>.\<close>

datatype stop = SystemExit string | Raised exn

definition vthen :: "'s \<times> (stop + 'a) \<Rightarrow> ('a \<Rightarrow> 's \<Rightarrow> 's \<times> (stop + 'b)) \<Rightarrow> 's \<times> (stop + 'b)" where
  "vthen p k = (case p of (s, Inl e) \<Rightarrow> (s, Inl e) | (s, Inr x) \<Rightarrow> k x s)"

lemma vthen_simps [simp]: "vthen (s, Inl e) k = (s, Inl e)" "vthen (s, Inr x) k = k x s"
  by (simp_all add: vthen_def)

definition raising :: "'a result \<Rightarrow> stop + 'a" where
  "raising r = (case r of Inl e \<Rightarrow> Inl (Raised e) | Inr x \<Rightarrow> Inr x)"

definition vitis :: "('h, 'w) vitis_env \<Rightarrow> 'h vcall \<Rightarrow> ('h, 'w) script \<Rightarrow> ('h, 'w) script \<times> (stop + 'h)" where
  "vitis env c s = (let (w, r) = ve_call env c (sc_world s) in (s\<lparr>sc_world := w, sc_calls := sc_calls s @ [c]\<rparr>, raising r))"

definition out_line :: "string \<Rightarrow> ('h, 'w) script \<Rightarrow> ('h, 'w) script" where
  "out_line line s = s\<lparr>sc_printed := sc_printed s @ [line]\<rparr>"

definition slashes :: "string \<Rightarrow> string" where
  "slashes = map (\<lambda>c. if c = CHR 0x5C then CHR ''/'' else c)"

text \<open>\<open>os.path.join\<close> of Windows for a name without a separator.\<close>

definition path_join :: "string \<Rightarrow> string \<Rightarrow> string" where
  "path_join dir name = dir @ (if dir = [] \<or> last dir \<in> {CHR ''/'', CHR 0x5C, CHR '':''} then [] else [CHR 0x5C]) @ name"

definition ends_with :: "string \<Rightarrow> string \<Rightarrow> bool" where
  "ends_with t s \<longleftrightarrow> length t \<le> length s \<and> drop (length s - length t) s = t"

section \<open>Settings\<close>

definition env_path :: "('h, 'w) vitis_env \<Rightarrow> string \<Rightarrow> string \<Rightarrow> string" where
  "env_path env name fallback = slashes (case ve_environ env name of Some v \<Rightarrow> v | None \<Rightarrow> fallback)"

definition vs_repo :: "('h, 'w) vitis_env \<Rightarrow> string" where
  "vs_repo env = env_path env ''SDR_REPO_DIR'' ''C:/Users/86135/Desktop/SDR''"

definition vs_xsa :: "('h, 'w) vitis_env \<Rightarrow> string" where
  "vs_xsa env = env_path env ''AC920_XSA'' (vs_repo env @ ''/fpga/build/ac920_vendor_sdr/ac920_sdr.xsa'')"

definition vs_workspace :: "('h, 'w) vitis_env \<Rightarrow> string" where
  "vs_workspace env = env_path env ''AC920_VITIS_WORKSPACE'' (vs_repo env @ ''/fpga/build/ac920_vendor_sdr/vitis_sdr'')"

definition vs_sdt_repo :: "('h, 'w) vitis_env \<Rightarrow> string" where
  "vs_sdt_repo env = env_path env ''VITIS_SDT_REPO'' ''E:/vivadoref/Vivado/2024.2/data/embeddedsw''"

definition PLATFORM_NAME :: string where
  "PLATFORM_NAME = ''ac920_sdr_platform''"

definition DOMAIN_NAME :: string where
  "DOMAIN_NAME = ''standalone_domain''"

definition APP_NAME :: string where
  "APP_NAME = ''ac920_sdr_bridge''"

definition CPU :: string where
  "CPU = ''psu_cortexa53_0''"

definition bridge_files :: "string list" where
  "bridge_files = [''ac920_sdr_main.c'', ''sdr_control.c'', ''sdr_control.h'', ''sdr_hw.h'', ''sdr_hw_ac920.c'', ''sdr_hw_ac920.h'', ''sdr_regs.h'']"

definition vendor_files :: "string list" where
  "vendor_files = [''platform.c'', ''platform.h'', ''platform_config.h'', ''platform_zynqmp.c'', ''platform_zynq.c'', ''platform_mb.c'',
     ''iic_phyreset.c'', ''sfp.c'', ''si5324.c'', ''lscript.ld'']"

section \<open>The build script\<close>

definition build_platform :: "('h, 'w) vitis_env \<Rightarrow> 'h \<Rightarrow> ('h, 'w) script \<Rightarrow> ('h, 'w) script \<times> (stop + 'h)" where
  "build_platform env client s =
     vthen (vitis env (AdvancedOptions client (vs_sdt_repo env)) s) (\<lambda>options s.
     vthen (vitis env (CreatePlatform client PLATFORM_NAME (vs_xsa env) ''standalone'' CPU DOMAIN_NAME False options) s) (\<lambda>platform s.
     vthen (vitis env (Report platform) s) (\<lambda>_ s.
     vthen (vitis env (ListDomains platform) s) (\<lambda>_ s.
     vthen (vitis env (GetDomain platform DOMAIN_NAME) s) (\<lambda>domain s.
     vthen (vitis env (SetLib domain ''lwip220'') (out_line (''AC920 Vitis: enabling lwip220 in '' @ DOMAIN_NAME) s)) (\<lambda>_ s.
     vthen (vitis env (BuildComponent platform) s) (\<lambda>status s.
     (out_line (''AC920 Vitis: platform build status '' @ ve_text env status) s, Inr platform))))))))"

definition register_platform :: "('h, 'w) vitis_env \<Rightarrow> 'h \<Rightarrow> ('h, 'w) script \<Rightarrow> ('h, 'w) script \<times> (stop + string)" where
  "register_platform env client s =
     (let export = vs_workspace env @ ''/'' @ PLATFORM_NAME @ ''/export/'' @ PLATFORM_NAME in
      vthen (if ve_isdir env export (sc_world s)
             then vthen (vitis env (AddPlatformRepos client export) s) (\<lambda>_. vitis env (RescanPlatformRepos client export))
             else (s, Inr client)) (\<lambda>_ s.
      vthen (vitis env (FindPlatformInRepos client PLATFORM_NAME) s) (\<lambda>found s.
      (out_line (''AC920 Vitis: platform xpfm '' @ ve_text env found) s, Inr (ve_path env found)))))"

definition is_platform :: "('h, 'w) vitis_env \<Rightarrow> string \<Rightarrow> 'w \<Rightarrow> bool" where
  "is_platform env xpfm w \<longleftrightarrow> xpfm \<noteq> [] \<and> ve_isfile env xpfm w"

text \<open>The scan of the workspace: the first platform file of each directory, until one is there.\<close>

fun scan_platform :: "('h, 'w) vitis_env \<Rightarrow> (string \<times> string list) list \<Rightarrow> string \<Rightarrow> ('h, 'w) script \<Rightarrow> string \<times> ('h, 'w) script" where
  "scan_platform env [] xpfm s = (xpfm, s)"
| "scan_platform env ((dir, files) # rest) xpfm s =
     (let (xpfm, s) = (case find (ends_with ''.xpfm'') files of None \<Rightarrow> (xpfm, s)
                       | Some name \<Rightarrow> (let p = slashes (path_join dir name) in (p, out_line (''AC920 Vitis: found platform xpfm by scan '' @ p) s)))
      in if is_platform env xpfm (sc_world s) then (xpfm, s) else scan_platform env rest xpfm s)"

definition missing_platform :: "('h, 'w) vitis_env \<Rightarrow> ('h, 'w) script \<Rightarrow> ('h, 'w) script \<times> (stop + 'a)" where
  "missing_platform env s =
     (let buildstatus = vs_workspace env @ ''/'' @ PLATFORM_NAME @ ''/export/.buildstatus'' in
      vthen (if ve_isfile env buildstatus (sc_world s)
             then (case ve_read env buildstatus (sc_world s) of Inl e \<Rightarrow> (s, Inl (Raised e))
                   | Inr text \<Rightarrow> (out_line text (out_line ''AC920 Vitis: platform export status'' s), Inr ()))
             else (s, Inr ())) (\<lambda>_ s.
      (s, Inl (SystemExit ''Platform export did not produce an .xpfm file.''))))"

definition locate_platform :: "('h, 'w) vitis_env \<Rightarrow> 'h \<Rightarrow> ('h, 'w) script \<Rightarrow> ('h, 'w) script \<times> (stop + string)" where
  "locate_platform env client s =
     vthen (register_platform env client s) (\<lambda>found s.
     let (xpfm, s) = (if is_platform env found (sc_world s) then (found, s)
                      else scan_platform env (ve_walk env (vs_workspace env) (sc_world s)) found s)
     in if is_platform env xpfm (sc_world s) then (s, Inr xpfm) else missing_platform env s)"

definition build_app :: "('h, 'w) vitis_env \<Rightarrow> 'h \<Rightarrow> string \<Rightarrow> ('h, 'w) script \<Rightarrow> ('h, 'w) script \<times> (stop + unit)" where
  "build_app env client xpfm s =
     vthen (vitis env (CreateApp client APP_NAME xpfm DOMAIN_NAME ''empty_application'') s) (\<lambda>app s.
     vthen (vitis env (Report app) s) (\<lambda>_ s.
     vthen (vitis env (ImportFiles app (vs_repo env @ ''/ps/baremetal/src'') bridge_files ''src'') s) (\<lambda>_ s.
     vthen (vitis env (ImportFiles app (vs_repo env @ ''/fpga/build/ac920_vendor_sdr/vitis_classic/app_acfl3432/src'') vendor_files ''src'') s) (\<lambda>_ s.
     vthen (vitis env (BuildComponent app) s) (\<lambda>_ s. (out_line ''AC920 Vitis: app component built'' s, Inr ()))))))"

definition remove_workspace :: "('h, 'w) vitis_env \<Rightarrow> ('h, 'w) script \<Rightarrow> ('h, 'w) script \<times> (stop + unit)" where
  "remove_workspace env s =
     (if ve_isdir env (vs_workspace env) (sc_world s)
      then (let (w, r) = ve_rmtree env (vs_workspace env) (sc_world s) in (s\<lparr>sc_world := w\<rparr>, raising r))
      else (s, Inr ()))"

text \<open>The script up to its last statement, \<open>vitis.dispose()\<close>.\<close>

definition create_script :: "('h, 'w) vitis_env \<Rightarrow> ('h, 'w) script \<Rightarrow> ('h, 'w) script \<times> (stop + unit)" where
  "create_script env s =
     (if \<not> ve_isfile env (vs_xsa env) (sc_world s) then (s, Inl (SystemExit (''XSA does not exist: '' @ vs_xsa env)))
      else
        vthen (remove_workspace env s) (\<lambda>_ s.
        vthen (vitis env (CreateClient (vs_workspace env)) s) (\<lambda>client s.
        let s = out_line (''AC920 Vitis: SDT repo '' @ vs_sdt_repo env) (out_line (''AC920 Vitis: XSA '' @ vs_xsa env)
                  (out_line (''AC920 Vitis: workspace '' @ vs_workspace env) s)) in
        vthen (build_platform env client s) (\<lambda>_ s.
        vthen (locate_platform env client s) (\<lambda>xpfm. build_app env client xpfm)))))"

text \<open>
  The whole program with its exit status. \<open>fail_hard\<close> disposes of the tool and swallows what that raises; the text of
  the traceback is left out.
\<close>

definition run_script :: "('h, 'w) vitis_env \<Rightarrow> ('h, 'w) script \<Rightarrow> ('h, 'w) script \<times> int" where
  "run_script env s =
     (case vthen (create_script env s) (\<lambda>_. vitis env Dispose) of
        (s1, Inr _) \<Rightarrow> (s1, 0)
      | (s1, Inl (SystemExit message)) \<Rightarrow> (out_line message s1, 1)
      | (s1, Inl (Raised e)) \<Rightarrow> (fst (vitis env Dispose s1), 1))"

section \<open>The probe of the hardware description\<close>

definition probe_repo :: string where
  "probe_repo = ''C:/Users/86135/Desktop/SDR''"

definition probe_xsa :: string where
  "probe_xsa = probe_repo @ ''/fpga/build/ac920_vendor_sdr/ac920_sdr.xsa''"

text \<open>A call whose exception is printed; \<open>exn_repr\<close> is \<open>repr\<close> of an exception.\<close>

definition try_print ::
    "(exn \<Rightarrow> string) \<Rightarrow> string \<Rightarrow> ('h \<Rightarrow> string list) \<Rightarrow> ('h, 'w) script \<times> (stop + 'h) \<Rightarrow> ('h, 'w) script" where
  "try_print exn_repr failed lines p =
     (case p of (s, Inr v) \<Rightarrow> fold out_line (lines v) s
      | (s, Inl (Raised e)) \<Rightarrow> out_line (failed @ exn_repr e) s
      | (s, Inl (SystemExit m)) \<Rightarrow> s)"

definition probe_templates :: "('h, 'w) vitis_env \<Rightarrow> (exn \<Rightarrow> string) \<Rightarrow> 'h \<Rightarrow> string \<Rightarrow> ('h, 'w) script \<Rightarrow> ('h, 'w) script" where
  "probe_templates env exn_repr client template_type s =
     try_print exn_repr '' failed: '' (\<lambda>templates. map (\<lambda>t. ''  '' @ ve_text env t) (ve_items env templates))
       (vitis env (GetTemplates client template_type) (out_line (''templates '' @ template_type) s))"

definition probe_xsa_script :: "('h, 'w) vitis_env \<Rightarrow> (exn \<Rightarrow> string) \<Rightarrow> ('h, 'w) script \<Rightarrow> ('h, 'w) script \<times> (stop + 'h)" where
  "probe_xsa_script env exn_repr s =
     vthen (vitis env (CreateClient (probe_repo @ ''/fpga/build/ac920_vendor_sdr/vitis_probe_xsa_ws'')) s) (\<lambda>client s.
     vthen (vitis env (GetWorkspace client) s) (\<lambda>workspace s.
     let s1 = out_line (''workspace: '' @ ve_text env workspace) s;
         s2 = out_line (''xsa exists: '' @ py_str (PBool (ve_exists env probe_xsa (sc_world s1))) @ '' '' @ probe_xsa) s1;
         s3 = try_print exn_repr ''get_processor_os_list failed: '' (\<lambda>v. [ve_text env v])
                (vitis env (GetProcessorOsList client probe_xsa) (out_line ''processor/os list:'' s2))
     in vitis env Dispose (fold (probe_templates env exn_repr client) [''EMBD_APP'', ''ACCL_APP''] s3)))"

section \<open>Properties\<close>

text \<open>
  The scan finds a platform file exactly if the tool had named one or there is one in the workspace, for a
  listing of files that are there.
\<close>

lemma xpfm_path: "ends_with ''.xpfm'' name \<Longrightarrow> slashes (path_join dir name) \<noteq> []"
  by (auto simp: ends_with_def slashes_def path_join_def)

lemma scan_platform_finds:
  assumes "\<forall>(dir, files) \<in> set dirs. \<forall>name \<in> set files. ve_isfile env (slashes (path_join dir name)) (sc_world s)"
  shows "is_platform env (fst (scan_platform env dirs xpfm s)) (sc_world s) \<longleftrightarrow>
    is_platform env xpfm (sc_world s) \<or> (\<exists>(dir, files) \<in> set dirs. \<exists>name \<in> set files. ends_with ''.xpfm'' name)"
  using assms
proof (induction env dirs xpfm s rule: scan_platform.induct)
  case (2 env dir files rest xpfm s)
  show ?case
  proof (cases "find (ends_with ''.xpfm'') files")
    case None
    then have "\<nexists>name. name \<in> set files \<and> ends_with ''.xpfm'' name" by (auto simp: find_None_iff)
    then show ?thesis using 2 None by auto
  next
    case (Some name)
    then have n: "name \<in> set files" "ends_with ''.xpfm'' name" by (auto simp: find_Some_iff)
    then have "is_platform env (slashes (path_join dir name)) (sc_world s)"
      using 2(2) xpfm_path by (auto simp: is_platform_def)
    then show ?thesis using Some n by (auto simp: Let_def out_line_def)
  qed
qed simp

text \<open>The world does not change in a scan, so a located platform file is there.\<close>

lemma scan_platform_world: "sc_world (snd (scan_platform env dirs xpfm s)) = sc_world s"
  "sc_calls (snd (scan_platform env dirs xpfm s)) = sc_calls s"
  by (induction env dirs xpfm s rule: scan_platform.induct) (auto simp: Let_def out_line_def split: option.splits)

lemma missing_platform_stops: "\<exists>e. snd (missing_platform env s) = Inl e"
  by (auto simp: missing_platform_def Let_def split: sum.splits)

lemma locate_platform_there: "locate_platform env client s = (s', Inr xpfm) \<Longrightarrow> is_platform env xpfm (sc_world s')"
proof -
  have stop: "missing_platform env s2 \<noteq> (s', Inr xpfm)" for s2 by (metis missing_platform_stops snd_conv sum.distinct(1))
  assume "locate_platform env client s = (s', Inr xpfm)"
  then show ?thesis unfolding locate_platform_def
    by (cases "register_platform env client s"; cases "snd (register_platform env client s)")
      (auto simp: stop Let_def split: prod.splits if_splits)
qed

text \<open>What every part of the script keeps.\<close>

lemma vthen_keeps:
  assumes "P (fst p)" and "\<And>x s. P s \<Longrightarrow> P (fst (k x s))"
  shows "P (fst (vthen p k))"
  using assms by (cases p; cases "snd p") auto

definition running :: "('h, 'w) script \<Rightarrow> bool" where
  "running s \<longleftrightarrow> Dispose \<notin> set (sc_calls s)"

lemma running_out_line [simp]: "running (out_line l s) = running s" "running (s\<lparr>sc_world := w\<rparr>) = running s"
  by (simp_all add: running_def out_line_def)

lemma running_vitis: "running s \<Longrightarrow> c \<noteq> Dispose \<Longrightarrow> running (fst (vitis env c s))"
  by (auto simp: running_def vitis_def split: prod.splits)

lemma running_build_platform: "running s \<Longrightarrow> running (fst (build_platform env client s))"
  unfolding build_platform_def by (intro vthen_keeps[where P = running] running_vitis) simp_all

lemma running_missing: "running s \<Longrightarrow> running (fst (missing_platform env s))"
  unfolding missing_platform_def Let_def by (intro vthen_keeps[where P = running]) (auto split: sum.splits)

lemma running_locate: "running s \<Longrightarrow> running (fst (locate_platform env client s))"
proof -
  have reg: "running (fst (register_platform env client s))" if "running s" for s
    unfolding register_platform_def Let_def using that
    by (intro vthen_keeps[where P = running]) (auto intro!: vthen_keeps[where P = running] running_vitis)
  have scan: "running (snd (scan_platform env dirs x s)) = running s" for dirs x s by (simp add: running_def scan_platform_world)
  show "running s \<Longrightarrow> running (fst (locate_platform env client s))" unfolding locate_platform_def
    by (intro vthen_keeps[where P = running] reg) (auto simp: Let_def running_missing split_def scan)
qed

lemma running_build_app: "running s \<Longrightarrow> running (fst (build_app env client xpfm s))"
  unfolding build_app_def by (intro vthen_keeps[where P = running] running_vitis) simp_all

lemma running_create_script: "running s \<Longrightarrow> running (fst (create_script env s))"
proof -
  have "running (fst (remove_workspace env s))" if "running s" for s using that by (simp add: remove_workspace_def split: prod.splits)
  note steps = this running_vitis running_build_platform running_locate running_build_app
  show "running s \<Longrightarrow> running (fst (create_script env s))"
    unfolding create_script_def Let_def
    by (cases "ve_isfile env (vs_xsa env) (sc_world s)") (simp_all, intro vthen_keeps[where P = running] steps, simp_all)
qed

text \<open>
  The tool is shut down on every way out but one. If the script ends or an exception other than \<open>SystemExit\<close> is
  raised, the last call of the run is \<open>vitis.dispose()\<close>; if the script stops itself with \<open>SystemExit\<close>, there is no
  such call, for \<open>sys.excepthook\<close> is not run then.
\<close>

theorem tool_shut_down_unless_exit:
  assumes "Dispose \<notin> set (sc_calls s)"
  shows "case create_script env s of
      (s1, Inl (SystemExit m)) \<Rightarrow> run_script env s = (out_line m s1, 1) \<and> Dispose \<notin> set (sc_calls (fst (run_script env s)))
    | _ \<Rightarrow> last (sc_calls (fst (run_script env s))) = Dispose"
proof -
  obtain s1 r where c: "create_script env s = (s1, r)" by fastforce
  have run: "running s1" using running_create_script[of s env] assms by (simp add: running_def c)
  have last: "last (sc_calls (fst (vitis env Dispose x))) = Dispose" for x by (simp add: vitis_def split: prod.splits)
  obtain y q where q: "vitis env Dispose s1 = (y, q)" by fastforce
  show ?thesis
  proof (cases r)
    case (Inl e)
    then show ?thesis using run last by (cases e) (simp_all add: run_script_def c running_def out_line_def)
  next
    case (Inr u)
    have "q \<noteq> Inl (SystemExit m)" for m using q by (auto simp: vitis_def raising_def split: prod.splits sum.splits)
    then show ?thesis using Inr last[of s1] last[of y] q
      by (cases q; cases "projl q") (auto simp: run_script_def c)
  qed
qed

text \<open>A run that ends well has built the application for a platform file that was there when it was located.\<close>

lemma build_app_calls:
  assumes "build_app env client xpfm s = (s', Inr u)"
  shows "\<exists>app. sc_calls s' = sc_calls s @ [CreateApp client APP_NAME xpfm DOMAIN_NAME ''empty_application'', Report app,
    ImportFiles app (vs_repo env @ ''/ps/baremetal/src'') bridge_files ''src'',
    ImportFiles app (vs_repo env @ ''/fpga/build/ac920_vendor_sdr/vitis_classic/app_acfl3432/src'') vendor_files ''src'', BuildComponent app]"
  using assms by (auto simp: build_app_def vthen_def vitis_def raising_def out_line_def split: prod.splits sum.splits)

lemma create_script_located:
  assumes "create_script env s = (s', Inr u)"
  shows "\<exists>client xpfm s0 s1. locate_platform env client s0 = (s1, Inr xpfm) \<and> build_app env client xpfm s1 = (s', Inr u)"
  using assms by (auto simp: create_script_def vthen_def Let_def split: prod.splits sum.splits if_splits)

theorem finished_script_built_app:
  assumes "run_script env s = (s', 0)"
  shows "\<exists>client app xpfm s0 s1. locate_platform env client s0 = (s1, Inr xpfm) \<and> ve_isfile env xpfm (sc_world s1)
    \<and> sc_calls s' = sc_calls s1 @ [CreateApp client APP_NAME xpfm DOMAIN_NAME ''empty_application'', Report app,
        ImportFiles app (vs_repo env @ ''/ps/baremetal/src'') bridge_files ''src'',
        ImportFiles app (vs_repo env @ ''/fpga/build/ac920_vendor_sdr/vitis_classic/app_acfl3432/src'') vendor_files ''src'', BuildComponent app,
        Dispose]"
proof -
  obtain s2 u h where c: "create_script env s = (s2, Inr u)" and d: "vitis env Dispose s2 = (s', Inr h)"
    using assms by (auto simp: run_script_def vthen_def split: prod.splits sum.splits stop.splits)
  obtain client xpfm s0 s1 where l: "locate_platform env client s0 = (s1, Inr xpfm)" "build_app env client xpfm s1 = (s2, Inr u)"
    using create_script_located[OF c] by blast
  have "sc_calls s' = sc_calls s2 @ [Dispose]" using d by (auto simp: vitis_def split: prod.splits)
  with build_app_calls[OF l(2)] locate_platform_there[OF l(1)] l(1) show ?thesis by (fastforce simp: is_platform_def)
qed

section \<open>Examples\<close>

text \<open>A tool that answers every call, and a workspace in which the export of the platform left nothing or its file.\<close>

definition toy_vitis :: "string list \<Rightarrow> (unit, unit) vitis_env" where
  "toy_vitis files = \<lparr>ve_call = (\<lambda>c w. (w, Inr ())), ve_text = (\<lambda>_. ''None''), ve_path = (\<lambda>_. []), ve_items = (\<lambda>_. []), ve_environ = (\<lambda>_. None),
     ve_exists = (\<lambda>_ _. False), ve_isfile = (\<lambda>p _. p \<noteq> [] \<and> last p \<in> {CHR ''a'', CHR ''m''}), ve_isdir = (\<lambda>_ _. False),
     ve_rmtree = (\<lambda>_ w. (w, Inr ())), ve_walk = (\<lambda>p _. [(p, files)]), ve_read = (\<lambda>_ _. Inr [])\<rparr>"

definition toy_script :: "(unit, unit) script" where
  "toy_script = \<lparr>sc_world = (), sc_calls = [], sc_printed = []\<rparr>"

lemma toy_steps:
  "vitis (toy_vitis files) c s = (s\<lparr>sc_calls := sc_calls s @ [c]\<rparr>, Inr ())" "remove_workspace (toy_vitis files) s = (s, Inr ())"
  "register_platform (toy_vitis files) client s =
     (out_line ''AC920 Vitis: platform xpfm None'' (s\<lparr>sc_calls := sc_calls s @ [FindPlatformInRepos client PLATFORM_NAME]\<rparr>), Inr [])"
  "is_platform (toy_vitis files) p w \<longleftrightarrow> p \<noteq> [] \<and> last p \<in> {CHR ''a'', CHR ''m''}"
  by (simp_all add: vitis_def remove_workspace_def register_platform_def toy_vitis_def raising_def is_platform_def out_line_def Let_def)

lemma toy_xsa: "ve_isfile (toy_vitis files) (vs_xsa (toy_vitis files)) w"
  by (simp add: vs_xsa_def vs_repo_def env_path_def slashes_def) (simp add: toy_vitis_def)

lemma toy_walk: "ve_walk (toy_vitis files) p w = [(p, files)]"
  by (simp add: toy_vitis_def)

lemma toy_missing: "missing_platform (toy_vitis files) s = (s, Inl (SystemExit ''Platform export did not produce an .xpfm file.''))"
  by (simp add: missing_platform_def Let_def) (simp add: toy_vitis_def)

lemmas toy_simps = create_script_def build_platform_def locate_platform_def build_app_def toy_steps toy_xsa toy_walk toy_missing Let_def

theorem tool_shut_down_unless_exit_witness:
  "\<exists>s1. run_script (toy_vitis []) toy_script = (s1, 1) \<and> CreateClient (vs_workspace (toy_vitis [])) \<in> set (sc_calls s1)
     \<and> Dispose \<notin> set (sc_calls s1)"
proof -
  have "Dispose \<notin> set (sc_calls toy_script)" by (simp add: toy_script_def)
  note t = tool_shut_down_unless_exit[OF this, of "toy_vitis []"]
  have "\<exists>s1. create_script (toy_vitis []) toy_script = (s1, Inl (SystemExit ''Platform export did not produce an .xpfm file.''))
      \<and> CreateClient (vs_workspace (toy_vitis [])) \<in> set (sc_calls s1)"
    by (simp add: toy_simps) (simp add: out_line_def toy_script_def)
  then show ?thesis using t by (auto simp: out_line_def)
qed

theorem finished_script_built_app_witness:
  "\<exists>s' app. run_script (toy_vitis [''readme'', ''ac920.xpfm'']) toy_script = (s', 0)
     \<and> last (sc_calls s') = Dispose \<and> last (butlast (sc_calls s')) = BuildComponent app"
proof -
  let ?r = "run_script (toy_vitis [''readme'', ''ac920.xpfm'']) toy_script"
  have "snd ?r = 0" by (simp add: run_script_def toy_simps ends_with_def path_join_def slashes_def)
  then have r: "?r = (fst ?r, 0)" by (metis prod.collapse)
  obtain app calls where "sc_calls (fst ?r) = calls @ [BuildComponent app, Dispose]" using finished_script_built_app[OF r] by fastforce
  then show ?thesis using r by (intro exI[of _ "fst ?r"] exI[of _ app]) (simp add: butlast_append)
qed

end
