(* ===== verification/Spec2Isabelle.thy ===== *)
theory Spec2Isabelle
  imports Pipeline Backend_Device Probe_Simulator Golden Vitis_Build
begin

text \<open>
  A model of the Python programs of the SDR repository and of what makes them work together.

  \<^bold>\<open>The program.\<close> A software radio in two halves. A device (here the simulated one,
  \<^verbatim>\<open>simulator/fake_ac920\<close>) samples, and speaks two protocols: control messages as JSON lines over
  one TCP connection, and datagrams with IQ samples, PSD (power spectrum) segments and status
  reports over UDP. A backend (\<^verbatim>\<open>rpi/backend/sdr_backend\<close>) is the client of both: it keeps the control
  connection and a heartbeat, receives datagrams in threads, counts losses, demodulates IQ to
  audio, reassembles PSD frames, and serves status, spectra and audio to browsers over HTTP and
  WebSockets. The wire formats that both halves share are in \<^verbatim>\<open>common/protocol\<close>.

  \<^bold>\<open>Foundations.\<close>
  \<^item> \<open>Prelude\<close>: exceptions as values (\<open>'a result\<close>), state passing with exceptions (\<open>sthen\<close>), Python
    dictionaries as association lists, slices, masks, and the locale \<open>event_machine\<close> whose lemmas lift a fact about
    one event to whole runs; the device, the client and the backend are interpretations of it.
  \<^item> \<open>PyFloat\<close>: IEEE double arithmetic by exact rationals and rounding. \<open>PyValue\<close>: JSON-like values and the
    conversions \<open>int\<close>, \<open>str\<close>, \<open>bool\<close> with their exceptions. \<open>Struct_Codec\<close>: \<open>struct.pack\<close> and
    \<open>unpack_from\<close>. \<open>Json\<close>: \<open>json.dumps\<close>, \<open>json.loads\<close> and UTF-8. \<open>Float_Text\<close>: the text of a double reads back as
    the double (17 digits are finer than the spacing of doubles). \<open>Json_Roundtrip\<close>: \<open>loads\<close> inverts \<open>dumps\<close> on
    every value, and whatever \<open>loads\<close> returns is a value.

  \<^bold>\<open>Shared protocol.\<close>
  \<^item> \<open>Packets\<close> (\<^verbatim>\<open>packets.py\<close>): the two headers as records, \<open>pack\<close>, \<open>unpack\<close>, \<open>validate\<close>; both round trips.
  \<^item> \<open>Control\<close> (\<^verbatim>\<open>control.py\<close>) and \<open>Message_Encoding\<close>: requests, responses, lines; a stream of messages is
    recovered by reading lines, and which messages can be encoded at all.

  \<^bold>\<open>Device.\<close>
  \<^item> \<open>Signal_Gen\<close> (\<^verbatim>\<open>signal_gen.py\<close>): the oscillator and SC16 conversion; always four bytes a sample.
  \<^item> \<open>Fake_Server\<close> (\<^verbatim>\<open>server.py\<close>): the state of the server as a record, one definition per method, and
    \<open>server_step\<close> for its events (connections, lines, and the rounds of its three loops).
  \<^item> \<open>Server_Control\<close>: the device invariant, ownership with and without lost connections, which lines are answered, what
    every command does or refuses, silence after \<open>stop_all\<close>. \<open>Server_Streams\<close>, \<open>Server_Psd\<close>: the data plane against the backend's receivers.

  \<^bold>\<open>Backend.\<close>
  \<^item> \<open>Receiver\<close> (\<^verbatim>\<open>udp_receiver.py\<close>), \<open>Stream_Stats\<close> (\<^verbatim>\<open>state.py\<close>), \<open>Psd\<close> (\<^verbatim>\<open>psd.py\<close>), \<open>Dsp\<close> (\<^verbatim>\<open>dsp.py\<close>),
    \<open>Waterfall\<close> (\<^verbatim>\<open>waterfall.py\<close>), \<open>Broadcast\<close> (\<^verbatim>\<open>broadcast.py\<close>), \<open>Raw_Capture\<close> (\<^verbatim>\<open>raw_capture.py\<close>), \<open>Config\<close>
    (\<^verbatim>\<open>config.py\<close>, \<^verbatim>\<open>main.py\<close>): one theory per module, with the bounds, accounting and streaming laws of each.
  \<^item> \<open>Device_Client\<close> (\<^verbatim>\<open>device_client.py\<close>) and \<open>Client_Server\<close>: requests, deadlines and the heartbeat, and
    that client and device understand each other.
  \<^item> \<open>Runtime\<close> (\<^verbatim>\<open>runtime.py\<close>), \<open>Runtime_Inv\<close>, \<open>Runtime_Status\<close>: the handlers, the bounds of the queues,
    of the IQ buffer and of the left-over audio (pending PSD frames have none), and what the status subscribers are told
    when an operation returns and when it raises.
  \<^item> \<open>Web_App\<close> (\<^verbatim>\<open>app.py\<close>) and \<open>Web_Session\<close>: the ASGI application, its answers and its sessions.

  \<^bold>\<open>The whole chain and the tools.\<close>
  \<^item> \<open>Pipeline\<close>: from the transmit loops of the device through the receiver threads and the callbacks of
    \<^verbatim>\<open>runtime.py\<close> to the queues of the browsers and the statistics.
  \<^item> \<open>Connect_Path\<close>: connecting. A device without an owner accepts the backend and sends to the ports it listens on,
    and the two are in step; the refusal of a device with an owner is reported with another reason.
  \<^item> \<open>Control_Path\<close> and \<open>Backend_Device\<close>: control operations from the browser through the backend, over the
    control connection, to the handler of the device and back; after an accepted one the state shown to the
    browsers is that of the device, and its fields keep the types of the protocol in every reachable state.
  \<^item> \<open>Network_Probe\<close> (\<^verbatim>\<open>tools/network_probe.py\<close>) and \<open>Probe_Simulator\<close>: the probe, and that it passes on the
    simulated device.
  \<^item> \<open>Tools\<close>: \<^verbatim>\<open>tools/ac920_debug_probe.py\<close>, the start of the simulated device, stimulus vectors and packet check
    of the FPGA simulation. \<open>Golden\<close>: its two reference calculators, and that the number of bits they print is the least that fits.
  \<^item> \<open>Vitis_Build\<close>: the scripts \<^verbatim>\<open>vitis_create_ac920_sdr.py\<close> and \<^verbatim>\<open>vitis_probe_xsa.py\<close> that drive the vendor tool Vitis; the search for the
    platform file, what a finished run has built, and on which ways out the tool is shut down.

  \<^bold>\<open>Interfaces.\<close> Locales state what one part relies on in another; each is interpreted on the program's own
  definitions. \<open>enabled_machine\<close>, \<open>guarded_machine\<close> and \<open>event_machine\<close> (runs of the device, the client, the backend, the
  reassembler, the statistics and the waterfall), \<open>header_codec\<close> (both packet headers), \<open>datagram_handler\<close>
  (the three receive loops) and \<open>lossy_buffer\<close> (a subscriber's queue).

  \<^bold>\<open>Arguments of the model.\<close> What is not the program's code is an argument: the clock, the random draws, the
  C library's trigonometry (\<open>libm\<close>, with the bounds the code relies on) and \<open>log2\<close> and \<open>pow\<close> (\<open>c_math\<close>), NumPy and SciPy element functions,
  the network (what \<open>sendto\<close>, \<open>recv\<close> and connections do), the file system (with what \<open>pathlib\<close> documents of \<open>Path.resolve\<close>), YAML parsing, the tool Vitis and the messages
  of the web server. Witnesses instantiate them. \<open>runtime_init\<close> takes the demodulator and the transform size that
  \<^verbatim>\<open>runtime.py\<close> makes of \<open>config.dsp\<close> as arguments.

  \<^bold>\<open>Bounds and fuel.\<close> The JSON parser recurses on fuel equal to the length of the text, which every call
  consumes, so it always suffices. The framing loop of the demodulator, which may run for ever, is a
  \<open>partial_function\<close> and is proved to return exactly when the frame length is positive. All other
  functions are total. The model has no JSON recursion limit, no limit on the digits of an integer (but in \<open>Golden\<close>), no
  limit on the length of a line and no sign of a zero; case conversion is that of ASCII; the message of a \<open>JSONDecodeError\<close> is
  not modelled.

  \<^bold>\<open>Concurrency.\<close> The device and the backend are single-threaded event loops, so their handlers are atomic
  between awaits and interleavings are orders of events; the lock of the client makes a request atomic.
  A control operation of the runtime is one step although it awaits its requests; so is \<open>connect_device\<close> with its
  several awaits (the connection, the hello, the automatic \<open>set_psd\<close>): what other handlers do in between is not covered.
  The threads of the receivers only schedule handlers, in the order of their datagrams. While a WebSocket
  waits the rest of the backend may run, which is an argument of its rounds.

  \<^bold>\<open>Not modelled.\<close> The parsing of command lines (programs start from the values of their arguments) and
  entry points; package initialisers; \<^verbatim>\<open>vitis_probe.py\<close>, which prints the interface of the vendor tool by
  reflection; the Verilog, C and TypeScript sources.
\<close>

end
